(* ===== verification/Go_Prelude.thy ===== *)
theory Go_Prelude
  imports Main "HOL-Library.Word" "HOL-Library.Monad_Syntax" "HOL-Library.Finite_Map"
    "HOL-Library.List_Lexorder" "HOL-Library.Multiset"
begin

text \<open>
  The prelude of the development: the Go types the model uses, Go's bounds-checked
  operations on slices, the big-endian integer encodings of \<^verbatim>\<open>encoding/binary\<close>, and the
  lemmas on them that every component shares.

  \<^item> A Go \<^verbatim>\<open>byte\<close>, \<^verbatim>\<open>uint16\<close>, \<^verbatim>\<open>uint32\<close>, \<^verbatim>\<open>uint64\<close> is a word of that width, so
    arithmetic wraps as it does in Go.
  \<^item> A Go \<^verbatim>\<open>string\<close> is an immutable byte sequence and a \<^verbatim>\<open>[]byte\<close> is a slice of bytes:
    both are byte lists, and the conversions between them are the identity. A nil slice
    and an empty slice are both \<^term>\<open>[]\<close>; where the code distinguishes nil, the model
    has an \<open>option\<close>.
  \<^item> An expression that can panic at run time (an index or a slice expression out of
    range) has type \<open>'a go\<close>: \<^term>\<open>None\<close> is the panic, so that "this code does not panic
    on any input" is a theorem and not an assumption.
\<close>

section \<open>Types\<close>

unbundle bit_operations_syntax

type_synonym byte = "8 word"
type_synonym uint16 = "16 word"
type_synonym uint32 = "32 word"
type_synonym uint64 = "64 word"
type_synonym bytes = "byte list"
type_synonym gostring = "byte list"
type_synonym 'a go = "'a option"

text \<open>A string literal of the source: its characters as bytes.\<close>

definition lit :: "string \<Rightarrow> gostring" where
  "lit s = map (\<lambda>c. of_nat (of_char c)) s"

section \<open>Slices\<close>

text \<open>\<^verbatim>\<open>s[i:j]\<close>, \<^verbatim>\<open>s[i:]\<close>, and \<^verbatim>\<open>copy(buf[off:], src)\<close>, with Go's bounds checks.\<close>

definition slice :: "'a list \<Rightarrow> nat \<Rightarrow> nat \<Rightarrow> 'a list go" where
  "slice s i j = (if i \<le> j \<and> j \<le> length s then Some (take (j - i) (drop i s)) else None)"

definition slice_from :: "'a list \<Rightarrow> nat \<Rightarrow> 'a list go" where
  "slice_from s i = (if i \<le> length s then Some (drop i s) else None)"

definition copy_at :: "'a list \<Rightarrow> nat \<Rightarrow> 'a list \<Rightarrow> 'a list go" where
  "copy_at buf off src =
     (if off \<le> length buf
      then Some (take off buf @ take (length buf - off) src @ drop (off + length src) buf)
      else None)"

text \<open>\<^verbatim>\<open>PutUintN(buf[i:j], v)\<close>: the bytes \<open>vs\<close> of \<open>v\<close> stored at \<open>buf[i..j)\<close>.\<close>

definition put_at :: "'a list \<Rightarrow> nat \<Rightarrow> 'a list \<Rightarrow> 'a list go" where
  "put_at buf i vs =
     (if i + length vs \<le> length buf
      then Some (take i buf @ vs @ drop (i + length vs) buf) else None)"

section \<open>Big-endian integers\<close>

definition be16 :: "uint16 \<Rightarrow> bytes" where
  "be16 v = [ucast (drop_bit 8 v), ucast v]"

definition be32 :: "uint32 \<Rightarrow> bytes" where
  "be32 v = [ucast (drop_bit 24 v), ucast (drop_bit 16 v), ucast (drop_bit 8 v), ucast v]"

text \<open>\<^verbatim>\<open>binary.BigEndian.Uint16\<close> and \<^verbatim>\<open>Uint32\<close>: they panic on a slice that is too short.\<close>

fun Uint16 :: "bytes \<Rightarrow> uint16 go" where
  "Uint16 (b0 # b1 # _) = Some (push_bit 8 (ucast b0) OR ucast b1)"
| "Uint16 _ = None"

fun Uint32 :: "bytes \<Rightarrow> uint32 go" where
  "Uint32 (b0 # b1 # b2 # b3 # _) =
     Some (push_bit 24 (ucast b0) OR push_bit 16 (ucast b1) OR push_bit 8 (ucast b2) OR ucast b3)"
| "Uint32 _ = None"

section \<open>Shared lemmas\<close>

text \<open>Offsets are written \<open>offset + 2\<close>: the simplifier keeps them in that form.\<close>

declare add_2_eq_Suc [simp del] add_2_eq_Suc' [simp del]

named_theorems slice_simps \<open>in-range slice expressions\<close>
named_theorems be_simps \<open>big-endian encodings\<close>
named_theorems no_panic \<open>introduction rules for the absence of a run-time panic\<close>

lemma bind_no_panic [no_panic]:
  "m \<noteq> None \<Longrightarrow> (\<And>x. m = Some x \<Longrightarrow> f x \<noteq> None) \<Longrightarrow> m \<bind> f \<noteq> None"
  by (cases m) auto

lemma if_no_panic [no_panic]:
  "(c \<Longrightarrow> a \<noteq> None) \<Longrightarrow> (\<not> c \<Longrightarrow> b \<noteq> None) \<Longrightarrow> (if c then a else b) \<noteq> None"
  by simp

lemma case_prod_no_panic [no_panic]:
  "(\<And>x y. p = (x, y) \<Longrightarrow> f x y \<noteq> None) \<Longrightarrow> (case p of (x, y) \<Rightarrow> f x y) \<noteq> None"
  by (cases p) simp

lemma map_sum_eq_Inr [simp]: "map_sum f id r = Inr y \<longleftrightarrow> r = Inr y"
  by (cases r) auto

lemma Some_no_panic [no_panic]: "Some x \<noteq> None"
  by simp

lemma slice_no_panic [no_panic]: "i \<le> j \<Longrightarrow> j \<le> length s \<Longrightarrow> slice s i j \<noteq> None"
  by (simp add: slice_def)

lemma slice_ok [slice_simps]:
  "i \<le> j \<Longrightarrow> j \<le> length s \<Longrightarrow> slice s i j = Some (take (j - i) (drop i s))"
  by (simp add: slice_def)

lemma slice_from_ok [slice_simps]: "i \<le> length s \<Longrightarrow> slice_from s i = Some (drop i s)"
  by (simp add: slice_from_def)

lemma copy_at_ok [slice_simps]:
  "off + length src \<le> length buf \<Longrightarrow>
     copy_at buf off src = Some (take off buf @ src @ drop (off + length src) buf)"
  by (simp add: copy_at_def)

lemma put_at_ok [slice_simps]:
  "i + length vs \<le> length buf \<Longrightarrow> put_at buf i vs = Some (take i buf @ vs @ drop (i + length vs) buf)"
  by (simp add: put_at_def)

lemma put_at_append [slice_simps]:
  "i = length a \<Longrightarrow> length vs = length b \<Longrightarrow> put_at (a @ b @ c) i vs = Some (a @ vs @ c)"
  by (simp add: put_at_def)

lemma copy_at_append [slice_simps]:
  "i = length a \<Longrightarrow> length vs = length b \<Longrightarrow> copy_at (a @ b @ c) i vs = Some (a @ vs @ c)"
  by (simp add: copy_at_def)

lemma slice_append [slice_simps]:
  "i = length a \<Longrightarrow> j = length a + length b \<Longrightarrow> slice (a @ b @ c) i j = Some b"
  by (simp add: slice_def)

lemma list_split: "n \<le> length xs \<Longrightarrow> \<exists>ys zs. xs = ys @ zs \<and> length ys = n"
  by (rule exI [of _ "take n xs"], rule exI [of _ "drop n xs"]) simp

lemma drop_step: "drop i xs = take n (drop i xs) @ drop (i + n) xs"
  by (metis append_take_drop_id drop_drop add.commute)

lemma length_be16 [simp, be_simps]: "length (be16 v) = 2"
  by (simp add: be16_def)

lemma length_be32 [simp, be_simps]: "length (be32 v) = 4"
  by (simp add: be32_def)

lemma Uint16_be16 [simp, be_simps]: "Uint16 (be16 v @ r) = Some v"
proof -
  have "push_bit 8 (ucast (ucast (drop_bit 8 v) :: byte)) OR ucast (ucast v :: byte) = v"
    by (rule bit_word_eqI)
      (auto simp: bit_simps)
  then show ?thesis by (simp add: be16_def)
qed

lemma Uint32_be32 [simp, be_simps]: "Uint32 (be32 v @ r) = Some v"
proof -
  let ?w = "push_bit 24 (ucast (ucast (drop_bit 24 v) :: byte)) OR
    push_bit 16 (ucast (ucast (drop_bit 16 v) :: byte)) OR
    push_bit 8 (ucast (ucast (drop_bit 8 v) :: byte)) OR ucast (ucast v :: byte) :: uint32"
  have "?w = v"
  proof (rule bit_word_eqI)
    fix n assume "n < LENGTH(32)"
    then consider "n < 8" | "8 \<le> n" "n < 16" | "16 \<le> n" "n < 24" | "24 \<le> n" "n < 32"
      by fastforce
    then show "bit ?w n = bit v n"
      by cases (auto simp: bit_simps)
  qed
  then show ?thesis by (simp add: be32_def)
qed

lemmas Uint16_be16_Nil [simp] = Uint16_be16 [where r = "[]", simplified]
lemmas Uint32_be32_Nil [simp] = Uint32_be32 [where r = "[]", simplified]

lemma bit_byte_ge: "8 \<le> n \<Longrightarrow> \<not> bit (b :: byte) n"
  using bit_imp_le_length [of b n] by auto

text \<open>Reading is also injective: two bytes are the encoding of the value read from them.\<close>

lemma be16_Uint16: "Uint16 bs = Some v \<Longrightarrow> length bs = 2 \<Longrightarrow> bs = be16 v"
proof -
  assume r: "Uint16 bs = Some v" and "length bs = 2"
  then obtain a b where bs: "bs = [a, b]"
    by (cases bs rule: Uint16.cases) auto
  have "ucast (drop_bit 8 (push_bit 8 (ucast a) OR ucast b :: uint16)) = a"
    by (rule bit_word_eqI) (auto simp: bit_simps bit_byte_ge)
  moreover have "ucast (push_bit 8 (ucast a) OR ucast b :: uint16) = b"
    by (rule bit_word_eqI) (auto simp: bit_simps bit_byte_ge)
  ultimately show ?thesis using r by (simp only: bs be16_def Uint16.simps option.inject)
qed

lemma be32_Uint32: "Uint32 bs = Some v \<Longrightarrow> length bs = 4 \<Longrightarrow> bs = be32 v"
proof -
  assume r: "Uint32 bs = Some v" and "length bs = 4"
  then obtain a b c d where bs: "bs = [a, b, c, d]"
    by (cases bs rule: Uint32.cases) auto
  let ?v = "push_bit 24 (ucast a) OR push_bit 16 (ucast b) OR push_bit 8 (ucast c) OR ucast d :: uint32"
  have "ucast (drop_bit 24 ?v) = a" "ucast (drop_bit 16 ?v) = b"
    "ucast (drop_bit 8 ?v) = c" "ucast ?v = d"
    by (rule bit_word_eqI, auto simp: bit_simps bit_byte_ge)+
  then show ?thesis using r by (simp only: bs be32_def Uint32.simps option.inject)
qed

lemma Uint16_total: "2 \<le> length bs \<Longrightarrow> \<exists>v. Uint16 bs = Some v"
  by (cases bs rule: Uint16.cases) auto

lemma Uint32_total: "4 \<le> length bs \<Longrightarrow> \<exists>v. Uint32 bs = Some v"
  by (cases bs rule: Uint32.cases) auto

section \<open>Sorting\<close>

text \<open>
  \<^verbatim>\<open>sort.Slice\<close> with a comparison function. Go fixes only that the result is a permutation and
  is ordered, not what happens to equal elements; the model sorts by insertion, and the
  locale \<open>slice_sorter\<close> states the contract that the clients' proofs use.
\<close>

fun insert_by :: "('a \<Rightarrow> 'a \<Rightarrow> bool) \<Rightarrow> 'a \<Rightarrow> 'a list \<Rightarrow> 'a list" where
  "insert_by lt x [] = [x]"
| "insert_by lt x (y # ys) = (if lt x y then x # y # ys else y # insert_by lt x ys)"

definition sort_slice :: "('a \<Rightarrow> 'a \<Rightarrow> bool) \<Rightarrow> 'a list \<Rightarrow> 'a list" where
  "sort_slice lt xs = foldl (\<lambda>acc x. insert_by lt x acc) [] xs"

definition weak_order :: "('a \<Rightarrow> 'a \<Rightarrow> bool) \<Rightarrow> bool" where
  "weak_order lt \<longleftrightarrow> (\<forall>x y. lt x y \<longrightarrow> \<not> lt y x) \<and>
     (\<forall>x y z. \<not> lt x y \<longrightarrow> \<not> lt y z \<longrightarrow> \<not> lt x z)"

locale slice_sorter =
  fixes srt :: "('a \<Rightarrow> 'a \<Rightarrow> bool) \<Rightarrow> 'a list \<Rightarrow> 'a list"
  assumes srt_mset: "mset (srt lt xs) = mset xs"
    and srt_sorted: "weak_order lt \<Longrightarrow> sorted_wrt (\<lambda>x y. \<not> lt y x) (srt lt xs)"
begin

lemma srt_set [simp]: "set (srt lt xs) = set xs"
  using srt_mset [of lt xs] by (metis set_mset_mset)

lemma srt_length [simp]: "length (srt lt xs) = length xs"
  using srt_mset [of lt xs] by (metis size_mset)

lemma srt_distinct_map: "distinct (map f (srt lt xs)) = distinct (map f xs)"
  using srt_mset [of lt xs] by (metis mset_map mset_eq_imp_distinct_iff)

text \<open>The first element that satisfies \<open>P\<close> in sorted order is a minimum of those that do.\<close>

lemma find_srt_least:
  assumes "weak_order lt" and "find P (srt lt xs) = Some x"
  shows "P x \<and> x \<in> set xs \<and> (\<forall>y \<in> set xs. P y \<longrightarrow> \<not> lt y x)"
proof -
  obtain i where i: "i < length (srt lt xs)" "P (srt lt xs ! i)" "x = srt lt xs ! i"
    "\<And>j. j < i \<Longrightarrow> \<not> P (srt lt xs ! j)"
    using assms(2) by (auto simp: find_Some_iff)
  have "\<not> lt y x" if y: "y \<in> set xs" "P y" for y
  proof -
    from y(1) have "y \<in> set (srt lt xs)" by simp
    then obtain j where j: "j < length (srt lt xs)" "y = srt lt xs ! j"
      unfolding in_set_conv_nth by blast
    then have "\<not> j < i" using i(4) y(2) by blast
    show ?thesis
    proof (cases "i = j")
      case True
      then show ?thesis using assms(1) i(3) j(2) unfolding weak_order_def by blast
    next
      case False
      then have "i < j" using \<open>\<not> j < i\<close> by simp
      then show ?thesis using sorted_wrt_nth_less [OF srt_sorted [OF assms(1)]] i(3) j by blast
    qed
  qed
  moreover have "x \<in> set (srt lt xs)" using i nth_mem by blast
  ultimately show ?thesis using i(2,3) by simp
qed

lemma find_srt_None: "find P (srt lt xs) = None \<longleftrightarrow> (\<forall>x \<in> set xs. \<not> P x)"
  by (auto simp: find_None_iff)

end

lemma mset_insert_by [simp]: "mset (insert_by lt x ys) = add_mset x (mset ys)"
  by (induction ys) auto

lemma set_insert_by [simp]: "set (insert_by lt x ys) = insert x (set ys)"
  by (induction ys) auto

lemma sorted_insert_by:
  "weak_order lt \<Longrightarrow> sorted_wrt (\<lambda>x y. \<not> lt y x) ys \<Longrightarrow>
   sorted_wrt (\<lambda>x y. \<not> lt y x) (insert_by lt x ys)"
proof (induction ys)
  case (Cons y ys)
  have "\<not> lt z x" if "lt x y" "z \<in> set (y # ys)" for z
    using Cons.prems that unfolding weak_order_def by (metis set_ConsD sorted_wrt.simps(2))
  then show ?case using Cons by auto
qed simp

lemma sort_slice_foldl:
  "mset (foldl (\<lambda>acc x. insert_by lt x acc) acc xs) = mset xs + mset acc"
  "weak_order lt \<Longrightarrow> sorted_wrt (\<lambda>x y. \<not> lt y x) acc \<Longrightarrow>
   sorted_wrt (\<lambda>x y. \<not> lt y x) (foldl (\<lambda>acc x. insert_by lt x acc) acc xs)"
  by (induction xs arbitrary: acc) (auto simp: sorted_insert_by)

interpretation srt: slice_sorter sort_slice
  by unfold_locales (simp_all add: sort_slice_def sort_slice_foldl)

lemma weak_order_key: "weak_order (\<lambda>x y. (f x :: 'b :: linorder) < f y)"
  by (auto simp: weak_order_def)

lemma weak_order_key_desc: "weak_order (\<lambda>x y. (f y :: 'b :: linorder) < f x)"
  by (auto simp: weak_order_def)

section \<open>Signed integers\<close>

lemma sint_of_small:
  assumes "unat (w :: uint64) < 2 ^ 63"
  shows "sint w = int (unat w)"
proof -
  have "int (unat w) < int (2 ^ 63)" using assms by (simp only: of_nat_less_iff)
  then have u: "0 \<le> uint w" "uint w < 2 ^ 63" by (simp_all flip: uint_nat)
  have "signed_take_bit 63 (uint w) = uint w"
    by (rule signed_take_bit_int_eq_self) (use u in linarith)+
  moreover have "sint w = signed_take_bit 63 (uint w)" using sint_uint [of w] by simp
  ultimately show ?thesis by (simp only: uint_nat)
qed

section \<open>Strings\<close>

text \<open>\<^verbatim>\<open>strings.HasPrefix\<close>, \<^verbatim>\<open>HasSuffix\<close>, \<^verbatim>\<open>TrimPrefix\<close> and \<^verbatim>\<open>TrimSuffix\<close>.\<close>

definition HasPrefix :: "gostring \<Rightarrow> gostring \<Rightarrow> bool" where
  "HasPrefix s p \<longleftrightarrow> take (length p) s = p"

definition HasSuffix :: "gostring \<Rightarrow> gostring \<Rightarrow> bool" where
  "HasSuffix s p \<longleftrightarrow> length p \<le> length s \<and> drop (length s - length p) s = p"

definition TrimSuffix :: "gostring \<Rightarrow> gostring \<Rightarrow> gostring" where
  "TrimSuffix s p = (if HasSuffix s p then take (length s - length p) s else s)"

lemma HasPrefix_iff: "HasPrefix s p \<longleftrightarrow> (\<exists>t. s = p @ t)"
  unfolding HasPrefix_def by (metis append_eq_conv_conj)

lemma HasSuffix_iff: "HasSuffix s p \<longleftrightarrow> (\<exists>t. s = t @ p)"
  unfolding HasSuffix_def by (auto) (metis append_take_drop_id)

lemma TrimSuffix_append [simp]: "TrimSuffix (s @ p) p = s"
  by (auto simp: TrimSuffix_def HasSuffix_def)

lemma HasPrefix_simps [simp]:
  "HasPrefix s []" "\<not> HasPrefix [] (b # p)" "HasPrefix (a # s) (b # p) \<longleftrightarrow> a = b \<and> HasPrefix s p"
  by (auto simp: HasPrefix_def)

text \<open>Literals are compared character by character.\<close>

lemma inj_byte_of_char: "inj (\<lambda>c. of_nat (of_char c) :: byte)"
proof (rule injI)
  fix c d :: char
  assume "(of_nat (of_char c) :: byte) = of_nat (of_char d)"
  then have "(of_char c :: nat) mod 256 = of_char d mod 256"
    by (simp add: word_of_nat_eq_iff take_bit_nat_def)
  then show "c = d" by simp
qed

lemma lit_eq_iff [simp]: "lit s = lit t \<longleftrightarrow> s = t"
  by (simp add: lit_def inj_map_eq_map [OF inj_byte_of_char])

lemma lit_Nil_iff [simp]: "lit s = [] \<longleftrightarrow> s = []" "[] = lit s \<longleftrightarrow> s = []"
  by (auto simp: lit_def)

lemma length_lit [simp]: "length (lit s) = length s"
  by (simp add: lit_def)

lemma HasPrefix_lit [simp]: "HasPrefix (lit s) (lit t) \<longleftrightarrow> take (length t) s = t"
proof -
  have "take (length t) (lit s) = lit (take (length t) s)" by (simp add: lit_def take_map)
  then show ?thesis by (simp add: HasPrefix_def)
qed

lemma HasPrefix_lit_append: "length t \<le> length s \<Longrightarrow> HasPrefix (lit s @ x) (lit t) \<longleftrightarrow> take (length t) s = t"
  using HasPrefix_lit [of s t] by (simp add: HasPrefix_def)

end
