(* ===== verification/Tlv.thy ===== *)
theory Tlv
  imports Go_Prelude
begin

text \<open>
  Optional parameters (\<^verbatim>\<open>smpp/tlv.go\<close>): the \<^verbatim>\<open>TLVSet\<close> map with its typed accessors, its
  wire encoding \<^verbatim>\<open>Encode\<close> and the parser \<^verbatim>\<open>DecodeTLVs\<close>. The encoder fills a buffer by
  offset and the parser walks the data by offset, as the code does; the lemmas relate
  both to the plain wire format, a concatenation of tag, length and value.
\<close>

section \<open>The TLV set and its accessors\<close>

type_synonym Tag = uint16
type_synonym TLVSet = "(Tag, bytes) fmap"

abbreviation TagSCInterfaceVersion :: Tag where "TagSCInterfaceVersion \<equiv> 0x0210"
abbreviation TagMessagePayload :: Tag where "TagMessagePayload \<equiv> 0x0424"
abbreviation TagCongestionState :: Tag where "TagCongestionState \<equiv> 0x0428"
abbreviation TagBillingIdentification :: Tag where "TagBillingIdentification \<equiv> 0x060B"
abbreviation TagSourceNetworkID :: Tag where "TagSourceNetworkID \<equiv> 0x060D"
abbreviation TagDestNetworkID :: Tag where "TagDestNetworkID \<equiv> 0x060E"
abbreviation TagSourceNodeID :: Tag where "TagSourceNodeID \<equiv> 0x060F"
abbreviation TagDestNodeID :: Tag where "TagDestNodeID \<equiv> 0x0610"

definition Has :: "TLVSet \<Rightarrow> Tag \<Rightarrow> bool" where
  "Has t tag = (fmlookup t tag \<noteq> None)"

text \<open>The getters' second result \<^verbatim>\<open>ok\<close> is the option: \<^term>\<open>None\<close> is \<^verbatim>\<open>(0, false)\<close>.\<close>

definition GetUint8 :: "TLVSet \<Rightarrow> Tag \<Rightarrow> byte option" where
  "GetUint8 t tag =
     (case fmlookup t tag of None \<Rightarrow> None | Some v \<Rightarrow> if length v \<noteq> 1 then None else Some (v ! 0))"

definition GetUint16 :: "TLVSet \<Rightarrow> Tag \<Rightarrow> uint16 option" where
  "GetUint16 t tag =
     (case fmlookup t tag of None \<Rightarrow> None | Some v \<Rightarrow> if length v \<noteq> 2 then None else Uint16 v)"

definition GetUint32 :: "TLVSet \<Rightarrow> Tag \<Rightarrow> uint32 option" where
  "GetUint32 t tag =
     (case fmlookup t tag of None \<Rightarrow> None | Some v \<Rightarrow> if length v \<noteq> 4 then None else Uint32 v)"

definition GetString :: "TLVSet \<Rightarrow> Tag \<Rightarrow> gostring option" where
  "GetString t tag =
     (case fmlookup t tag of None \<Rightarrow> None
      | Some v \<Rightarrow> if 0 < length v \<and> v ! (length v - 1) = 0 then Some (take (length v - 1) v)
                 else Some v)"

definition GetBytes :: "TLVSet \<Rightarrow> Tag \<Rightarrow> bytes option" where
  "GetBytes t tag = fmlookup t tag"

definition SetUint8 :: "TLVSet \<Rightarrow> Tag \<Rightarrow> byte \<Rightarrow> TLVSet" where
  "SetUint8 t tag v = fmupd tag [v] t"

definition SetUint16 :: "TLVSet \<Rightarrow> Tag \<Rightarrow> uint16 \<Rightarrow> TLVSet" where
  "SetUint16 t tag v = fmupd tag (be16 v) t"

definition SetUint32 :: "TLVSet \<Rightarrow> Tag \<Rightarrow> uint32 \<Rightarrow> TLVSet" where
  "SetUint32 t tag v = fmupd tag (be32 v) t"

definition SetString :: "TLVSet \<Rightarrow> Tag \<Rightarrow> gostring \<Rightarrow> TLVSet" where
  "SetString t tag v = fmupd tag v t"

definition SetBytes :: "TLVSet \<Rightarrow> Tag \<Rightarrow> bytes \<Rightarrow> TLVSet" where
  "SetBytes t tag v = fmupd tag v t"

definition CongestionState :: "TLVSet \<Rightarrow> int" where
  "CongestionState t = (case GetUint8 t TagCongestionState of None \<Rightarrow> -1 | Some v \<Rightarrow> uint v)"

definition SourceNetworkID :: "TLVSet \<Rightarrow> gostring option" where
  "SourceNetworkID t = GetString t TagSourceNetworkID"

definition DestNetworkID :: "TLVSet \<Rightarrow> gostring option" where
  "DestNetworkID t = GetString t TagDestNetworkID"

definition SourceNodeID :: "TLVSet \<Rightarrow> gostring option" where
  "SourceNodeID t = GetString t TagSourceNodeID"

definition DestNodeID :: "TLVSet \<Rightarrow> gostring option" where
  "DestNodeID t = GetString t TagDestNodeID"

definition BillingIdentification :: "TLVSet \<Rightarrow> bytes option" where
  "BillingIdentification t = GetBytes t TagBillingIdentification"

section \<open>Wire encoding\<close>

abbreviation tlvHeaderLen :: nat where "tlvHeaderLen \<equiv> 4"

text \<open>\<^verbatim>\<open>t[tag]\<close>: the zero value (a nil slice) for an absent tag.\<close>

definition tlv_value :: "TLVSet \<Rightarrow> Tag \<Rightarrow> bytes" where
  "tlv_value t tag = (case fmlookup t tag of None \<Rightarrow> [] | Some v \<Rightarrow> v)"

text \<open>
  \<^verbatim>\<open>Encode\<close>: the tags in ascending order (they are map keys, so the order is unique), a
  buffer of the summed size, then one header and one value per tag at a running offset.
\<close>

fun encode_fill :: "TLVSet \<Rightarrow> Tag list \<Rightarrow> bytes \<Rightarrow> nat \<Rightarrow> bytes go" where
  "encode_fill t [] buf offset = Some buf"
| "encode_fill t (tag # tags) buf offset =
     (let v = tlv_value t tag in do {
        buf \<leftarrow> put_at buf offset (be16 tag);
        buf \<leftarrow> put_at buf (offset + 2) (be16 (of_nat (length v)));
        buf \<leftarrow> copy_at buf (offset + 4) v;
        encode_fill t tags buf (offset + tlvHeaderLen + length v)
      })"

definition Encode :: "TLVSet \<Rightarrow> bytes go" where
  "Encode t =
     (if fmdom t = {||} then Some []
      else let tags = sorted_list_of_fset (fmdom t);
               size = sum_list (map (\<lambda>tag. tlvHeaderLen + length (tlv_value t tag)) tags)
           in encode_fill t tags (replicate size 0) 0)"

datatype tlv_error =
    TruncatedTLVHeader nat nat nat
  | TruncatedTLVValue Tag nat nat nat

function decodeTLVs_from :: "bytes \<Rightarrow> nat \<Rightarrow> TLVSet \<Rightarrow> (tlv_error + TLVSet) go" where
  "decodeTLVs_from data offset t =
     (if offset < length data then
        if offset + tlvHeaderLen > length data then
          Some (Inl (TruncatedTLVHeader offset tlvHeaderLen (length data - offset)))
        else do {
          tag \<leftarrow> slice data offset (offset + 2) \<bind> Uint16;
          len \<leftarrow> slice data (offset + 2) (offset + 4) \<bind> Uint16;
          let offset' = offset + tlvHeaderLen;
          if offset' + unat len > length data then
            Some (Inl (TruncatedTLVValue tag offset' (unat len) (length data - offset')))
          else do {
            v \<leftarrow> slice data offset' (offset' + unat len);
            decodeTLVs_from data (offset' + unat len) (fmupd tag v t)
          }
        }
      else Some (Inr t))"
  by pat_completeness auto
termination
  by (relation "measure (\<lambda>(data, offset, t). length data - offset)") auto

definition DecodeTLVs :: "bytes \<Rightarrow> (tlv_error + TLVSet) go" where
  "DecodeTLVs data = decodeTLVs_from data 0 fmempty"

declare decodeTLVs_from.simps [simp del]

section \<open>The wire format\<close>

text \<open>One TLV on the wire, and the values whose length its 16-bit length field can hold.\<close>

definition enc_tlv :: "Tag \<times> bytes \<Rightarrow> bytes" where
  "enc_tlv p = be16 (fst p) @ be16 (of_nat (length (snd p))) @ snd p"

definition tlv_fits :: "bytes \<Rightarrow> bool" where
  "tlv_fits v = (length v < 65536)"

definition tlvs_fit :: "TLVSet \<Rightarrow> bool" where
  "tlvs_fit t = list_all (\<lambda>tag. tlv_fits (tlv_value t tag)) (sorted_list_of_fset (fmdom t))"

definition tlv_pairs :: "TLVSet \<Rightarrow> (Tag \<times> bytes) list" where
  "tlv_pairs t = map (\<lambda>tag. (tag, tlv_value t tag)) (sorted_list_of_fset (fmdom t))"

definition tlv_wire :: "(Tag \<times> bytes) list \<Rightarrow> bytes" where
  "tlv_wire tvs = concat (map enc_tlv tvs)"

definition tlv_collect :: "(Tag \<times> bytes) list \<Rightarrow> TLVSet \<Rightarrow> TLVSet" where
  "tlv_collect tvs t = fold (\<lambda>(tag, v). fmupd tag v) tvs t"

lemma length_enc_tlv [simp]: "length (enc_tlv p) = 4 + length (snd p)"
  by (simp add: enc_tlv_def)

lemma tlv_wire_simps [simp]:
  "tlv_wire [] = []"
  "tlv_wire (p # ps) = enc_tlv p @ tlv_wire ps"
  by (simp_all add: tlv_wire_def)

lemma tlv_collect_simps [simp]:
  "tlv_collect [] t = t"
  "tlv_collect ((tag, v) # ps) t = tlv_collect ps (fmupd tag v t)"
  by (simp_all add: tlv_collect_def)

lemma encode_fill_eq:
  "length zs = sum_list (map (\<lambda>tag. 4 + length (tlv_value t tag)) tags) \<Longrightarrow>
   encode_fill t tags (a @ zs) (length a) =
     Some (a @ tlv_wire (map (\<lambda>tag. (tag, tlv_value t tag)) tags))"
proof (induction tags arbitrary: a zs)
  case Nil
  then show ?case by simp
next
  case (Cons tag tags)
  let ?v = "tlv_value t tag"
  obtain z1 r1 where z1: "zs = z1 @ r1" "length z1 = 2"
    using list_split [of 2 zs] Cons.prems by auto
  obtain z2 r2 where z2: "r1 = z2 @ r2" "length z2 = 2"
    using list_split [of 2 r1] Cons.prems z1 by auto
  obtain z3 r3 where z3: "r2 = z3 @ r3" "length z3 = length ?v"
    using list_split [of "length ?v" r2] Cons.prems z1 z2 by auto
  have r3: "length r3 = sum_list (map (\<lambda>tag. 4 + length (tlv_value t tag)) tags)"
    using Cons.prems z1 z2 z3 by simp
  let ?h = "a @ be16 tag @ be16 (of_nat (length ?v)) @ ?v"
  have 1: "put_at (a @ zs) (length a) (be16 tag) = Some (a @ be16 tag @ r1)"
    unfolding z1 by (rule put_at_append) (simp_all add: z1)
  have 2: "put_at (a @ be16 tag @ r1) (length a + 2) (be16 (of_nat (length ?v))) =
      Some (a @ be16 tag @ be16 (of_nat (length ?v)) @ r2)"
    using put_at_append [of "length a + 2" "a @ be16 tag" "be16 (of_nat (length ?v))" z2 r2] z2
    by simp
  have 3: "copy_at (a @ be16 tag @ be16 (of_nat (length ?v)) @ r2) (length a + 4) ?v =
      Some (?h @ r3)"
    using copy_at_append [of "length a + 4" "a @ be16 tag @ be16 (of_nat (length ?v))" ?v z3 r3,
        OF _ z3(2) [symmetric]]
    by (simp add: z3(1))
  have "encode_fill t (tag # tags) (a @ zs) (length a) = encode_fill t tags (?h @ r3) (length ?h)"
    by (simp only: encode_fill.simps Let_def 1 2 3 bind.bind_lunit length_append length_be16)
      (simp add: numeral_eq_Suc)
  also have "\<dots> = Some (?h @ tlv_wire (map (\<lambda>tag. (tag, tlv_value t tag)) tags))"
    by (rule Cons.IH [OF r3])
  finally show ?case by (simp add: enc_tlv_def)
qed

lemma Encode_eq: "Encode t = Some (tlv_wire (tlv_pairs t))"
proof (cases "fmdom t = {||}")
  case True
  then show ?thesis by (simp add: Encode_def tlv_pairs_def sorted_list_of_fset.rep_eq)
next
  case False
  let ?tags = "sorted_list_of_fset (fmdom t)"
  let ?n = "sum_list (map (\<lambda>tag. 4 + length (tlv_value t tag)) ?tags)"
  have "encode_fill t ?tags ([] @ replicate ?n 0) (length ([] :: bytes)) =
      Some ([] @ tlv_wire (map (\<lambda>tag. (tag, tlv_value t tag)) ?tags))"
    by (rule encode_fill_eq) simp
  with False show ?thesis by (simp add: Encode_def tlv_pairs_def Let_def)
qed

lemma unat_of_nat_fits: "tlv_fits v \<Longrightarrow> unat (of_nat (length v) :: uint16) = length v"
  by (simp add: tlv_fits_def unat_of_nat)

text \<open>One iteration of the parser on an encoded TLV.\<close>

lemma decodeTLVs_step:
  assumes "tlv_fits v"
  shows "decodeTLVs_from (pre @ enc_tlv (tag, v) @ rest) (length pre) t =
    decodeTLVs_from (pre @ enc_tlv (tag, v) @ rest) (length (pre @ enc_tlv (tag, v))) (fmupd tag v t)"
proof -
  let ?n = "of_nat (length v) :: uint16"
  let ?data = "pre @ be16 tag @ be16 ?n @ v @ rest"
  have 1: "slice ?data (length pre) (length pre + 2) = Some (be16 tag)"
    by (rule slice_append) simp_all
  have 2: "slice ?data (length pre + 2) (length pre + 4) = Some (be16 ?n)"
    using slice_append [of "length pre + 2" "pre @ be16 tag" "length pre + 4" "be16 ?n" "v @ rest"]
    by simp
  have 3: "slice ?data (length pre + 4) (length pre + 4 + length v) = Some v"
    using slice_append [of "length pre + 4" "pre @ be16 tag @ be16 ?n" "length pre + 4 + length v"
        v rest] by simp
  show ?thesis
    by (subst decodeTLVs_from.simps,
        simp add: enc_tlv_def 1 2 3 unat_of_nat_fits [OF assms] Let_def, simp only: add.assoc)
qed

lemma decodeTLVs_wire:
  "\<forall>p \<in> set tvs. tlv_fits (snd p) \<Longrightarrow>
   decodeTLVs_from (pre @ tlv_wire tvs) (length pre) t = Some (Inr (tlv_collect tvs t))"
proof (induction tvs arbitrary: pre t)
  case Nil
  then show ?case by (subst decodeTLVs_from.simps) simp
next
  case (Cons p tvs)
  obtain tag v where p: "p = (tag, v)" by (cases p)
  have "decodeTLVs_from (pre @ tlv_wire (p # tvs)) (length pre) t =
      decodeTLVs_from ((pre @ enc_tlv p) @ tlv_wire tvs) (length (pre @ enc_tlv p)) (fmupd tag v t)"
    using decodeTLVs_step [of v pre tag "tlv_wire tvs" t] Cons.prems by (simp add: p)
  also have "\<dots> = Some (Inr (tlv_collect tvs (fmupd tag v t)))"
    using Cons.prems by (intro Cons.IH) simp
  finally show ?case by (simp add: p)
qed

text \<open>Conversely, whatever the parser accepts is a concatenation of well-formed TLVs.\<close>

lemma decodeTLVs_sound:
  "decodeTLVs_from data offset t = Some (Inr t') \<Longrightarrow> offset \<le> length data \<Longrightarrow>
   \<exists>tvs. drop offset data = tlv_wire tvs \<and> (\<forall>p \<in> set tvs. tlv_fits (snd p)) \<and> t' = tlv_collect tvs t"
proof (induction data offset t rule: decodeTLVs_from.induct)
  case (1 data offset t)
  show ?case
  proof (cases "offset < length data")
    case False
    with 1(2,3) show ?thesis
      by (intro exI [of _ "[]"]) (simp add: decodeTLVs_from.simps [of data offset t])
  next
    case True
    with 1(2) have hd: "offset + 4 \<le> length data"
      by (auto simp: decodeTLVs_from.simps [of data offset t] split: if_splits)
    obtain tag len where
      tag: "Uint16 (take 2 (drop offset data)) = Some tag" and
      len: "Uint16 (take 2 (drop (offset + 2) data)) = Some len"
      using Uint16_total [of "take 2 (drop offset data)"] Uint16_total [of "take 2 (drop (offset + 2) data)"]
        hd by auto
    have eq: "decodeTLVs_from data offset t =
        (if offset + 4 + unat len > length data then
           Some (Inl (TruncatedTLVValue tag (offset + 4) (unat len) (length data - (offset + 4))))
         else decodeTLVs_from data (offset + 4 + unat len)
           (fmupd tag (take (unat len) (drop (offset + 4) data)) t))"
      using True hd tag len by (subst decodeTLVs_from.simps) (simp add: slice_simps Let_def)
    with 1(2) have fit: "offset + 4 + unat len \<le> length data"
      by (auto split: if_splits)
    let ?v = "take (unat len) (drop (offset + 4) data)"
    let ?o = "offset + 4 + unat len"
    have len_v: "length ?v = unat len" using fit by simp
    have "\<exists>tvs. drop ?o data = tlv_wire tvs \<and> (\<forall>p \<in> set tvs. tlv_fits (snd p)) \<and>
        t' = tlv_collect tvs (fmupd tag ?v t)"
      using 1(1) [of tag len "offset + 4" ?v] 1(2) eq fit hd True tag len
      by (simp add: slice_simps)
    then obtain tvs where tvs: "drop ?o data = tlv_wire tvs" "\<forall>p \<in> set tvs. tlv_fits (snd p)"
        "t' = tlv_collect tvs (fmupd tag ?v t)" by blast
    have "take 2 (drop offset data) = be16 tag" "take 2 (drop (offset + 2) data) = be16 len"
      using be16_Uint16 [OF tag] be16_Uint16 [OF len] hd by simp_all
    then have "drop offset data = be16 tag @ be16 len @ ?v @ drop ?o data"
      using drop_step [of offset data 2] drop_step [of "offset + 2" data 2]
        drop_step [of "offset + 4" data "unat len"] by (simp add: add.commute)
    moreover have "len = of_nat (length ?v)" "tlv_fits ?v"
      using len_v unsigned_less [where ?'a = nat, of len] by (simp_all add: tlv_fits_def)
    ultimately have "drop offset data = tlv_wire ((tag, ?v) # tvs)"
      using tvs(1) by (simp add: enc_tlv_def)
    with tvs \<open>tlv_fits ?v\<close> show ?thesis
      by (intro exI [of _ "(tag, ?v) # tvs"]) simp
  qed
qed

lemma fmlookup_tlv_collect_map:
  "fmlookup (tlv_collect (map (\<lambda>tag. (tag, f tag)) tags) t) k =
     (if k \<in> set tags then Some (f k) else fmlookup t k)"
  by (induction tags arbitrary: t) auto

lemma set_sorted_fmdom [simp]: "set (sorted_list_of_fset (fmdom t)) = fset (fmdom t)"
  by (simp add: sorted_list_of_fset.rep_eq)

lemma fmlookup_tlv_value: "k |\<in>| fmdom t \<Longrightarrow> fmlookup t k = Some (tlv_value t k)"
  by (auto simp: tlv_value_def fmdomI split: option.splits)

lemma tlv_collect_pairs [simp]: "tlv_collect (tlv_pairs t) fmempty = t"
proof (rule fmap_ext)
  fix k
  show "fmlookup (tlv_collect (tlv_pairs t) fmempty) k = fmlookup t k"
    unfolding tlv_pairs_def fmlookup_tlv_collect_map
    by (auto simp: fmlookup_tlv_value fmdom_notD)
qed

lemma tlvs_fit_pairs: "tlvs_fit t \<longleftrightarrow> (\<forall>p \<in> set (tlv_pairs t). tlv_fits (snd p))"
  by (auto simp: tlvs_fit_def tlv_pairs_def list_all_iff)

lemma DecodeTLVs_wire:
  "\<forall>p \<in> set tvs. tlv_fits (snd p) \<Longrightarrow> DecodeTLVs (tlv_wire tvs) = Some (Inr (tlv_collect tvs fmempty))"
  using decodeTLVs_wire [of tvs "[]" fmempty] by (simp add: DecodeTLVs_def)

lemma DecodeTLVs_Encode: "tlvs_fit t \<Longrightarrow> DecodeTLVs (tlv_wire (tlv_pairs t)) = Some (Inr t)"
  by (simp add: DecodeTLVs_wire tlvs_fit_pairs)

lemma decodeTLVs_from_total: "decodeTLVs_from data offset t \<noteq> None"
proof (induction data offset t rule: decodeTLVs_from.induct)
  case (1 data offset t)
  have r: "\<exists>x. Uint16 (take 2 (drop o' data)) = Some x" if "o' + 2 \<le> length data" for o'
    using Uint16_total [of "take 2 (drop o' data)"] that by auto
  show ?case
  proof (cases "offset < length data \<and> offset + 4 \<le> length data")
    case False
    then show ?thesis by (subst decodeTLVs_from.simps) auto
  next
    case True
    then obtain tag len where
      tag: "Uint16 (take 2 (drop offset data)) = Some tag" and
      len: "Uint16 (take 2 (drop (offset + 2) data)) = Some len"
      using r [of offset] r [of "offset + 2"] by auto
    with True 1 [of tag len "offset + 4" "take (unat len) (drop (offset + 4) data)"] show ?thesis
      by (subst decodeTLVs_from.simps) (simp add: slice_simps Let_def)
  qed
qed

section \<open>Properties\<close>

text \<open>
  C19. Round trip of the optional parameters: for every TLV set whose values fit the 16-bit
  length field, \<^verbatim>\<open>Encode\<close> does not panic and \<^verbatim>\<open>DecodeTLVs\<close> of its output is the same set.
\<close>

theorem tlv_roundtrip:
  assumes "tlvs_fit t"
  shows "Encode t \<bind> DecodeTLVs = Some (Inr t)"
  using assms by (simp add: Encode_eq DecodeTLVs_Encode)

theorem tlv_roundtrip_witness:
  "tlvs_fit (SetUint16 (SetUint8 fmempty 0x0210 0x50) 0x0204 0xBEEF) \<and>
   Encode (SetUint16 (SetUint8 fmempty 0x0210 0x50) 0x0204 0xBEEF) \<bind> DecodeTLVs =
     Some (Inr (SetUint16 (SetUint8 fmempty 0x0210 0x50) 0x0204 0xBEEF))"
proof -
  let ?t = "SetUint16 (SetUint8 fmempty 0x0210 0x50) 0x0204 0xBEEF"
  have fit: "tlvs_fit ?t"
    by (auto simp: tlvs_fit_def tlv_fits_def tlv_value_def SetUint16_def SetUint8_def list_all_iff
        split: option.splits)
  show ?thesis using fit tlv_roundtrip [OF fit] by simp
qed

text \<open>
  C20. \<^verbatim>\<open>DecodeTLVs\<close> accepts exactly the concatenations of well-formed TLVs, and the set it
  returns maps each tag to the last value the data has for it: a complete description of
  the parser on arbitrary input, rejections included.
\<close>

theorem DecodeTLVs_accepts_iff:
  "DecodeTLVs data = Some (Inr t) \<longleftrightarrow>
   (\<exists>tvs. data = tlv_wire tvs \<and> list_all (\<lambda>p. tlv_fits (snd p)) tvs \<and> t = tlv_collect tvs fmempty)"
  using decodeTLVs_sound [of data 0 fmempty t] DecodeTLVs_wire
  by (auto simp: DecodeTLVs_def list_all_iff)

text \<open>
  \<^verbatim>\<open>DecodeTLVs\<close> never panics: on every byte sequence it returns a set or an error, and no
  slice expression in it is out of range.
\<close>

theorem DecodeTLVs_no_panic: "DecodeTLVs data \<noteq> None"
  by (simp add: DecodeTLVs_def decodeTLVs_from_total)

end
