(* ===== verification/Smpp_Constants.thy ===== *)
theory Smpp_Constants
  imports Go_Prelude
begin

text \<open>
  Command identifiers, status codes and their names (\<^verbatim>\<open>smpp/pdu.go\<close> and
  \<^verbatim>\<open>smpp/constants.go\<close>). The numeric constants are abbreviations, so that a comparison
  of two of them evaluates; the two name tables are association lists with the
  entries of the source's map literals.
\<close>

section \<open>Command identifiers\<close>

abbreviation (input) CmdBindTransceiver :: uint32 where "CmdBindTransceiver \<equiv> 0x00000009"
abbreviation (input) CmdBindTransceiverResp :: uint32 where "CmdBindTransceiverResp \<equiv> 0x80000009"
abbreviation (input) CmdSubmitSM :: uint32 where "CmdSubmitSM \<equiv> 0x00000004"
abbreviation (input) CmdSubmitSMResp :: uint32 where "CmdSubmitSMResp \<equiv> 0x80000004"
abbreviation (input) CmdDeliverSM :: uint32 where "CmdDeliverSM \<equiv> 0x00000005"
abbreviation (input) CmdDeliverSMResp :: uint32 where "CmdDeliverSMResp \<equiv> 0x80000005"
abbreviation (input) CmdEnquireLink :: uint32 where "CmdEnquireLink \<equiv> 0x00000015"
abbreviation (input) CmdEnquireLinkResp :: uint32 where "CmdEnquireLinkResp \<equiv> 0x80000015"
abbreviation (input) CmdUnbind :: uint32 where "CmdUnbind \<equiv> 0x00000006"
abbreviation (input) CmdUnbindResp :: uint32 where "CmdUnbindResp \<equiv> 0x80000006"
abbreviation (input) CmdGenericNack :: uint32 where "CmdGenericNack \<equiv> 0x80000000"
abbreviation (input) CmdBindReceiver :: uint32 where "CmdBindReceiver \<equiv> 0x00000001"
abbreviation (input) CmdBindReceiverResp :: uint32 where "CmdBindReceiverResp \<equiv> 0x80000001"
abbreviation (input) CmdBindTransmitter :: uint32 where "CmdBindTransmitter \<equiv> 0x00000002"
abbreviation (input) CmdBindTransmitterResp :: uint32 where "CmdBindTransmitterResp \<equiv> 0x80000002"
abbreviation (input) CmdQuerySM :: uint32 where "CmdQuerySM \<equiv> 0x00000003"
abbreviation (input) CmdQuerySMResp :: uint32 where "CmdQuerySMResp \<equiv> 0x80000003"
abbreviation (input) CmdReplaceSM :: uint32 where "CmdReplaceSM \<equiv> 0x00000007"
abbreviation (input) CmdReplaceSMResp :: uint32 where "CmdReplaceSMResp \<equiv> 0x80000007"
abbreviation (input) CmdCancelSM :: uint32 where "CmdCancelSM \<equiv> 0x00000008"
abbreviation (input) CmdCancelSMResp :: uint32 where "CmdCancelSMResp \<equiv> 0x80000008"
abbreviation (input) CmdSubmitMulti :: uint32 where "CmdSubmitMulti \<equiv> 0x00000021"
abbreviation (input) CmdSubmitMultiResp :: uint32 where "CmdSubmitMultiResp \<equiv> 0x80000021"
abbreviation (input) CmdOutbind :: uint32 where "CmdOutbind \<equiv> 0x0000000B"
abbreviation (input) CmdAlertNotification :: uint32 where "CmdAlertNotification \<equiv> 0x00000102"
abbreviation (input) CmdDataSM :: uint32 where "CmdDataSM \<equiv> 0x00000103"
abbreviation (input) CmdDataSMResp :: uint32 where "CmdDataSMResp \<equiv> 0x80000103"
abbreviation (input) CmdBroadcastSM :: uint32 where "CmdBroadcastSM \<equiv> 0x00000111"
abbreviation (input) CmdBroadcastSMResp :: uint32 where "CmdBroadcastSMResp \<equiv> 0x80000111"
abbreviation (input) CmdQueryBroadcastSM :: uint32 where "CmdQueryBroadcastSM \<equiv> 0x00000112"
abbreviation (input) CmdQueryBroadcastSMResp :: uint32 where "CmdQueryBroadcastSMResp \<equiv> 0x80000112"
abbreviation (input) CmdCancelBroadcastSM :: uint32 where "CmdCancelBroadcastSM \<equiv> 0x00000113"
abbreviation (input) CmdCancelBroadcastSMResp :: uint32 where "CmdCancelBroadcastSMResp \<equiv> 0x80000113"

section \<open>Status codes\<close>

abbreviation (input) StatusOK :: uint32 where "StatusOK \<equiv> 0x00000000"
abbreviation (input) StatusInvMsgLen :: uint32 where "StatusInvMsgLen \<equiv> 0x00000001"
abbreviation (input) StatusInvCmdLen :: uint32 where "StatusInvCmdLen \<equiv> 0x00000002"
abbreviation (input) StatusInvCmdID :: uint32 where "StatusInvCmdID \<equiv> 0x00000003"
abbreviation (input) StatusInvBnd :: uint32 where "StatusInvBnd \<equiv> 0x00000004"
abbreviation (input) StatusSysErr :: uint32 where "StatusSysErr \<equiv> 0x00000008"
abbreviation (input) StatusThrottled :: uint32 where "StatusThrottled \<equiv> 0x00000058"
abbreviation (input) StatusMsgQFull :: uint32 where "StatusMsgQFull \<equiv> 0x00000014"
abbreviation (input) StatusSubmitFail :: uint32 where "StatusSubmitFail \<equiv> 0x00000045"
abbreviation (input) StatusAlyBnd :: uint32 where "StatusAlyBnd \<equiv> 0x00000005"
abbreviation (input) StatusInvPrtFlg :: uint32 where "StatusInvPrtFlg \<equiv> 0x00000006"
abbreviation (input) StatusCantDel :: uint32 where "StatusCantDel \<equiv> 0x00000007"
abbreviation (input) StatusInvSrcAdr :: uint32 where "StatusInvSrcAdr \<equiv> 0x0000000A"
abbreviation (input) StatusInvDstAdr :: uint32 where "StatusInvDstAdr \<equiv> 0x0000000B"
abbreviation (input) StatusInvMsgID :: uint32 where "StatusInvMsgID \<equiv> 0x0000000C"
abbreviation (input) StatusBindFail :: uint32 where "StatusBindFail \<equiv> 0x0000000D"
abbreviation (input) StatusInvPaswd :: uint32 where "StatusInvPaswd \<equiv> 0x0000000E"
abbreviation (input) StatusInvSysID :: uint32 where "StatusInvSysID \<equiv> 0x0000000F"
abbreviation (input) StatusCancelFail :: uint32 where "StatusCancelFail \<equiv> 0x00000011"
abbreviation (input) StatusReplaceFail :: uint32 where "StatusReplaceFail \<equiv> 0x00000013"
abbreviation (input) StatusInvDftMsgID :: uint32 where "StatusInvDftMsgID \<equiv> 0x00000015"
abbreviation (input) StatusRInvExpiry :: uint32 where "StatusRInvExpiry \<equiv> 0x00000022"
abbreviation (input) StatusInvNumDe :: uint32 where "StatusInvNumDe \<equiv> 0x00000033"
abbreviation (input) StatusInvDLName :: uint32 where "StatusInvDLName \<equiv> 0x00000034"
abbreviation (input) StatusInvDstFlag :: uint32 where "StatusInvDstFlag \<equiv> 0x00000040"
abbreviation (input) StatusInvSubRep :: uint32 where "StatusInvSubRep \<equiv> 0x00000042"
abbreviation (input) StatusInvEsmClass :: uint32 where "StatusInvEsmClass \<equiv> 0x00000043"
abbreviation (input) StatusCntSubDL :: uint32 where "StatusCntSubDL \<equiv> 0x00000044"
abbreviation (input) StatusInvSched :: uint32 where "StatusInvSched \<equiv> 0x00000061"
abbreviation (input) StatusInvOptParStream :: uint32 where "StatusInvOptParStream \<equiv> 0x000000C0"
abbreviation (input) StatusOptParNotAllwd :: uint32 where "StatusOptParNotAllwd \<equiv> 0x000000C1"
abbreviation (input) StatusInvParLen :: uint32 where "StatusInvParLen \<equiv> 0x000000C2"
abbreviation (input) StatusMissingOptParam :: uint32 where "StatusMissingOptParam \<equiv> 0x000000C3"
abbreviation (input) StatusInvOptParVal :: uint32 where "StatusInvOptParVal \<equiv> 0x000000C4"
abbreviation (input) StatusDeliveryFailure :: uint32 where "StatusDeliveryFailure \<equiv> 0x000000FE"
abbreviation (input) StatusUnknownErr :: uint32 where "StatusUnknownErr \<equiv> 0x000000FF"
abbreviation (input) StatusSvcTypUnauth :: uint32 where "StatusSvcTypUnauth \<equiv> 0x00000100"
abbreviation (input) StatusProhibited :: uint32 where "StatusProhibited \<equiv> 0x00000101"
abbreviation (input) StatusSvcTypUnavail :: uint32 where "StatusSvcTypUnavail \<equiv> 0x00000102"
abbreviation (input) StatusSvcTypDenied :: uint32 where "StatusSvcTypDenied \<equiv> 0x00000103"
abbreviation (input) StatusInvDCS :: uint32 where "StatusInvDCS \<equiv> 0x00000104"
abbreviation (input) StatusInvSrcAddrSubunit :: uint32 where "StatusInvSrcAddrSubunit \<equiv> 0x00000105"
abbreviation (input) StatusInvDstAddrSubunit :: uint32 where "StatusInvDstAddrSubunit \<equiv> 0x00000106"
abbreviation (input) StatusInvBcastFreqInt :: uint32 where "StatusInvBcastFreqInt \<equiv> 0x00000107"
abbreviation (input) StatusInvBcastAliasName :: uint32 where "StatusInvBcastAliasName \<equiv> 0x00000108"
abbreviation (input) StatusInvBcastAreaFmt :: uint32 where "StatusInvBcastAreaFmt \<equiv> 0x00000109"
abbreviation (input) StatusInvNBcastAreas :: uint32 where "StatusInvNBcastAreas \<equiv> 0x0000010A"
abbreviation (input) StatusInvBcastCntType :: uint32 where "StatusInvBcastCntType \<equiv> 0x0000010B"
abbreviation (input) StatusInvBcastMsgClass :: uint32 where "StatusInvBcastMsgClass \<equiv> 0x0000010C"
abbreviation (input) StatusBcastFail :: uint32 where "StatusBcastFail \<equiv> 0x0000010D"
abbreviation (input) StatusBcastQueryFail :: uint32 where "StatusBcastQueryFail \<equiv> 0x0000010E"
abbreviation (input) StatusBcastCancelFail :: uint32 where "StatusBcastCancelFail \<equiv> 0x0000010F"
abbreviation (input) StatusInvBcastRep :: uint32 where "StatusInvBcastRep \<equiv> 0x00000110"
abbreviation (input) StatusInvBcastSrvGrp :: uint32 where "StatusInvBcastSrvGrp \<equiv> 0x00000111"
abbreviation (input) StatusInvBcastChanInd :: uint32 where "StatusInvBcastChanInd \<equiv> 0x00000112"

section \<open>Message states and registered-delivery flags\<close>

abbreviation (input) MsgStateScheduled :: byte where "MsgStateScheduled \<equiv> 0"
abbreviation (input) MsgStateEnRoute :: byte where "MsgStateEnRoute \<equiv> 1"
abbreviation (input) MsgStateDelivered :: byte where "MsgStateDelivered \<equiv> 2"
abbreviation (input) MsgStateExpired :: byte where "MsgStateExpired \<equiv> 3"
abbreviation (input) MsgStateDeleted :: byte where "MsgStateDeleted \<equiv> 4"
abbreviation (input) MsgStateUndeliverable :: byte where "MsgStateUndeliverable \<equiv> 5"
abbreviation (input) MsgStateAccepted :: byte where "MsgStateAccepted \<equiv> 6"
abbreviation (input) MsgStateUnknown :: byte where "MsgStateUnknown \<equiv> 7"
abbreviation (input) MsgStateRejected :: byte where "MsgStateRejected \<equiv> 8"
abbreviation (input) MsgStateSkipped :: byte where "MsgStateSkipped \<equiv> 9"
abbreviation (input) RegDeliveryNone :: byte where "RegDeliveryNone \<equiv> 0x00"
abbreviation (input) RegDeliveryBoth :: byte where "RegDeliveryBoth \<equiv> 0x01"
abbreviation (input) RegDeliveryFailure :: byte where "RegDeliveryFailure \<equiv> 0x02"
abbreviation (input) RegDeliverySuccess :: byte where "RegDeliverySuccess \<equiv> 0x03"

section \<open>Names\<close>

definition commandNames :: "(uint32 \<times> string) list" where
  "commandNames =
     [(CmdBindReceiver, ''bind_receiver''),
      (CmdBindReceiverResp, ''bind_receiver_resp''),
      (CmdBindTransmitter, ''bind_transmitter''),
      (CmdBindTransmitterResp, ''bind_transmitter_resp''),
      (CmdQuerySM, ''query_sm''),
      (CmdQuerySMResp, ''query_sm_resp''),
      (CmdSubmitSM, ''submit_sm''),
      (CmdSubmitSMResp, ''submit_sm_resp''),
      (CmdDeliverSM, ''deliver_sm''),
      (CmdDeliverSMResp, ''deliver_sm_resp''),
      (CmdUnbind, ''unbind''),
      (CmdUnbindResp, ''unbind_resp''),
      (CmdReplaceSM, ''replace_sm''),
      (CmdReplaceSMResp, ''replace_sm_resp''),
      (CmdCancelSM, ''cancel_sm''),
      (CmdCancelSMResp, ''cancel_sm_resp''),
      (CmdBindTransceiver, ''bind_transceiver''),
      (CmdBindTransceiverResp, ''bind_transceiver_resp''),
      (CmdOutbind, ''outbind''),
      (CmdEnquireLink, ''enquire_link''),
      (CmdEnquireLinkResp, ''enquire_link_resp''),
      (CmdSubmitMulti, ''submit_multi''),
      (CmdSubmitMultiResp, ''submit_multi_resp''),
      (CmdAlertNotification, ''alert_notification''),
      (CmdDataSM, ''data_sm''),
      (CmdDataSMResp, ''data_sm_resp''),
      (CmdGenericNack, ''generic_nack''),
      (CmdBroadcastSM, ''broadcast_sm''),
      (CmdBroadcastSMResp, ''broadcast_sm_resp''),
      (CmdQueryBroadcastSM, ''query_broadcast_sm''),
      (CmdQueryBroadcastSMResp, ''query_broadcast_sm_resp''),
      (CmdCancelBroadcastSM, ''cancel_broadcast_sm''),
      (CmdCancelBroadcastSMResp, ''cancel_broadcast_sm_resp'')]"

definition statusNames :: "(uint32 \<times> string) list" where
  "statusNames =
     [(StatusOK, ''ESME_ROK''),
      (StatusInvMsgLen, ''ESME_RINVMSGLEN''),
      (StatusInvCmdLen, ''ESME_RINVCMDLEN''),
      (StatusInvCmdID, ''ESME_RINVCMDID''),
      (StatusInvBnd, ''ESME_RINVBNDSTS''),
      (StatusSysErr, ''ESME_RSYSERR''),
      (StatusThrottled, ''ESME_RTHROTTLED''),
      (StatusMsgQFull, ''ESME_RMSGQFUL''),
      (StatusSubmitFail, ''ESME_RSUBMITFAIL''),
      (StatusAlyBnd, ''ESME_RALYBND''),
      (StatusInvPrtFlg, ''ESME_RINVPRTFLG''),
      (StatusCantDel, ''ESME_RCANTDEL''),
      (StatusInvSrcAdr, ''ESME_RINVSRCADR''),
      (StatusInvDstAdr, ''ESME_RINVDSTADR''),
      (StatusInvMsgID, ''ESME_RINVMSGID''),
      (StatusBindFail, ''ESME_RBINDFAIL''),
      (StatusInvPaswd, ''ESME_RINVPASWD''),
      (StatusInvSysID, ''ESME_RINVSYSID''),
      (StatusCancelFail, ''ESME_RCANCELFAIL''),
      (StatusReplaceFail, ''ESME_RREPLACEFAIL''),
      (StatusInvDftMsgID, ''ESME_RINVDFTMSGID''),
      (StatusRInvExpiry, ''ESME_RINVEXPIRY''),
      (StatusInvNumDe, ''ESME_RINVNUMDE''),
      (StatusInvDLName, ''ESME_RINVDLNAME''),
      (StatusInvDstFlag, ''ESME_RINVDSTFLAG''),
      (StatusInvSubRep, ''ESME_RINVSUBREP''),
      (StatusInvEsmClass, ''ESME_RINVESMCLASS''),
      (StatusCntSubDL, ''ESME_RCNTSUBDL''),
      (StatusInvSched, ''ESME_RINVSCHED''),
      (StatusInvOptParStream, ''ESME_RINVOPTPARSTREAM''),
      (StatusOptParNotAllwd, ''ESME_ROPTPARNOTALLWD''),
      (StatusInvParLen, ''ESME_RINVPARLEN''),
      (StatusMissingOptParam, ''ESME_RMISSINGOPTPARAM''),
      (StatusInvOptParVal, ''ESME_RINVOPTPARVAL''),
      (StatusDeliveryFailure, ''ESME_RDELIVERYFAILURE''),
      (StatusUnknownErr, ''ESME_RUNKNOWNERR''),
      (StatusSvcTypUnauth, ''ESME_RSVCTYP_UNAUTH''),
      (StatusProhibited, ''ESME_RPROHIBITED''),
      (StatusSvcTypUnavail, ''ESME_RSVCTYP_UNAVAIL''),
      (StatusSvcTypDenied, ''ESME_RSVCTYP_DENIED''),
      (StatusInvDCS, ''ESME_RINVDCS''),
      (StatusInvSrcAddrSubunit, ''ESME_RINVSRCADDRSUBUNIT''),
      (StatusInvDstAddrSubunit, ''ESME_RINVDSTADDRSUBUNIT''),
      (StatusInvBcastFreqInt, ''ESME_RINVBCASTFREQINT''),
      (StatusInvBcastAliasName, ''ESME_RINVBCASTALIASNAME''),
      (StatusInvBcastAreaFmt, ''ESME_RINVBCASTAREAFMT''),
      (StatusInvNBcastAreas, ''ESME_RINVNBCASTAREAS''),
      (StatusInvBcastCntType, ''ESME_RINVBCASTCNTTYPE''),
      (StatusInvBcastMsgClass, ''ESME_RINVBCASTMSGCLASS''),
      (StatusBcastFail, ''ESME_RBCASTFAIL''),
      (StatusBcastQueryFail, ''ESME_RBCASTQUERYFAIL''),
      (StatusBcastCancelFail, ''ESME_RBCASTCANCELFAIL''),
      (StatusInvBcastRep, ''ESME_RINVBCASTREP''),
      (StatusInvBcastSrvGrp, ''ESME_RINVBCASTSRVGRP''),
      (StatusInvBcastChanInd, ''ESME_RINVBCASTCHANIND'')]"

text \<open>\<^verbatim>\<open>fmt.Sprintf("%08X", v)\<close>: eight upper-case hexadecimal digits.\<close>

definition hex_digit :: "nat \<Rightarrow> byte" where
  "hex_digit d = of_nat (if d < 10 then 48 + d else 55 + d)"

definition hex08 :: "uint32 \<Rightarrow> gostring" where
  "hex08 v = map (\<lambda>k. hex_digit (unat v div 16 ^ k mod 16)) [7, 6, 5, 4, 3, 2, 1, 0]"

definition CommandName :: "uint32 \<Rightarrow> gostring" where
  "CommandName cid =
     (case map_of commandNames cid of Some name \<Rightarrow> lit name
      | None \<Rightarrow> lit ''unknown_0x'' @ hex08 cid)"

definition StatusName :: "uint32 \<Rightarrow> gostring" where
  "StatusName status =
     (case map_of statusNames status of Some name \<Rightarrow> lit name
      | None \<Rightarrow> lit ''unknown_0x'' @ hex08 status)"

text \<open>The keys of the two map literals are distinct, so no entry hides another.\<close>

lemma distinct_commandNames: "distinct (map fst commandNames)"
  by (simp add: commandNames_def)

lemma distinct_statusNames: "distinct (map fst statusNames)"
  by (simp add: statusNames_def)

end
