(* ===== verification/Pdu.thy ===== *)
theory Pdu
  imports Tlv Smpp_Constants
begin

text \<open>
  Protocol data units (\<^verbatim>\<open>smpp/pdu.go\<close>): the 16-byte header codec, the C-string primitives
  every body is built from, the bodies of submit_sm and deliver_sm, and the deliver_sm
  response. The decoder and the C-string reader are written over offsets with Go's
  bounds checks; that they never panic is a consequence, not a convention.
\<close>

section \<open>Header codec\<close>

abbreviation pduHeaderLen :: nat where "pduHeaderLen \<equiv> 16"

record PDU =
  CommandLength :: uint32
  CommandID :: uint32
  CommandStatus :: uint32
  SequenceNumber :: uint32
  Body :: bytes
  TLVs :: "TLVSet option"

text \<open>
  \<^verbatim>\<open>EncodePDU\<close> stores the computed length in the PDU it was given, so the model returns
  the updated PDU with the bytes. The length is computed in \<^verbatim>\<open>int\<close> and truncated to
  \<^verbatim>\<open>uint32\<close>; a buffer of the truncated length is allocated, and the header writes and
  the copies into it are bounds-checked.
\<close>

definition EncodePDU :: "PDU \<Rightarrow> (PDU \<times> bytes) go" where
  "EncodePDU pdu = do {
     tlvBytes \<leftarrow> (case TLVs pdu of None \<Rightarrow> Some [] | Some t \<Rightarrow> Encode t);
     let commandLength = (of_nat (pduHeaderLen + length (Body pdu) + length tlvBytes) :: uint32);
     let buf = replicate (unat commandLength) (0 :: byte);
     buf \<leftarrow> put_at buf 0 (be32 commandLength);
     buf \<leftarrow> put_at buf 4 (be32 (CommandID pdu));
     buf \<leftarrow> put_at buf 8 (be32 (CommandStatus pdu));
     buf \<leftarrow> put_at buf 12 (be32 (SequenceNumber pdu));
     buf \<leftarrow> copy_at buf 16 (Body pdu);
     buf \<leftarrow> (if 0 < length tlvBytes then copy_at buf (16 + length (Body pdu)) tlvBytes
              else Some buf);
     Some (pdu\<lparr>CommandLength := commandLength\<rparr>, buf)
   }"

datatype pdu_error =
    HeaderTooShort nat nat
  | DataTooShort nat uint32

definition DecodePDU :: "bytes \<Rightarrow> (pdu_error + PDU) go" where
  "DecodePDU data =
     (if length data < pduHeaderLen then Some (Inl (HeaderTooShort (length data) pduHeaderLen))
      else do {
        cmdLen \<leftarrow> slice data 0 4 \<bind> Uint32;
        if (of_nat (length data) :: uint32) < cmdLen
        then Some (Inl (DataTooShort (length data) cmdLen))
        else do {
          commandID \<leftarrow> slice data 4 8 \<bind> Uint32;
          commandStatus \<leftarrow> slice data 8 12 \<bind> Uint32;
          sequenceNumber \<leftarrow> slice data 12 16 \<bind> Uint32;
          body \<leftarrow> (if of_nat pduHeaderLen < cmdLen then slice data pduHeaderLen (unat cmdLen)
                   else Some []);
          Some (Inr \<lparr>CommandLength = cmdLen, CommandID = commandID,
            CommandStatus = commandStatus, SequenceNumber = sequenceNumber,
            Body = body, TLVs = None\<rparr>)
        }
      })"

section \<open>C-strings\<close>

definition writeCString :: "bytes \<Rightarrow> gostring \<Rightarrow> bytes" where
  "writeCString buf s = buf @ s @ [0]"

text \<open>The scan of \<^verbatim>\<open>ReadCString\<close> for the terminator.\<close>

function cstring_end :: "bytes \<Rightarrow> nat \<Rightarrow> nat" where
  "cstring_end data e =
     (if e < length data \<and> data ! e \<noteq> 0 then cstring_end data (Suc e) else e)"
  by pat_completeness auto
termination
  by (relation "measure (\<lambda>(data, e). length data - e)") auto

declare cstring_end.simps [simp del]

definition ReadCString :: "bytes \<Rightarrow> nat \<Rightarrow> (gostring \<times> nat) go" where
  "ReadCString data offset =
     (if length data \<le> offset then Some ([], offset)
      else let e = cstring_end data offset in do {
        s \<leftarrow> slice data offset e;
        Some (s, if e < length data then e + 1 else e)
      })"

definition readCString :: "bytes \<Rightarrow> nat \<Rightarrow> (gostring \<times> nat) go" where
  "readCString data offset = ReadCString data offset"

definition WriteCStringBytes :: "gostring \<Rightarrow> bytes go" where
  "WriteCStringBytes s = copy_at (replicate (length s + 1) 0) 0 s"

section \<open>Bodies\<close>

definition EncodeSubmitSM ::
  "gostring \<Rightarrow> byte \<Rightarrow> byte \<Rightarrow> gostring \<Rightarrow> byte \<Rightarrow> byte \<Rightarrow> byte \<Rightarrow> byte \<Rightarrow> byte \<Rightarrow> byte \<Rightarrow> bytes \<Rightarrow> bytes" where
  "EncodeSubmitSM sourceAddr sourceTON sourceNPI destAddr destTON destNPI
      esmClass protocolID dataCoding registeredDelivery shortMessage =
     (let buf = writeCString [] [];
          buf = buf @ [sourceTON];
          buf = buf @ [sourceNPI];
          buf = writeCString buf sourceAddr;
          buf = buf @ [destTON];
          buf = buf @ [destNPI];
          buf = writeCString buf destAddr;
          buf = buf @ [esmClass];
          buf = buf @ [protocolID];
          buf = buf @ [0];
          buf = writeCString buf [];
          buf = writeCString buf [];
          buf = buf @ [registeredDelivery];
          buf = buf @ [0];
          buf = buf @ [dataCoding];
          buf = buf @ [0]
      in if 254 < length shortMessage
         then buf @ [0] @ be16 0x0424 @ be16 (of_nat (length shortMessage)) @ shortMessage
         else buf @ [of_nat (length shortMessage)] @ shortMessage)"

definition ParseSubmitSMResp :: "bytes \<Rightarrow> gostring go" where
  "ParseSubmitSMResp body =
     (if length body = 0 then Some []
      else do { (msgID, _) \<leftarrow> readCString body 0; Some msgID })"

text \<open>
  \<^verbatim>\<open>ParseDeliverSM\<close> returns its named results early when the body ends before a field:
  \<open>(sourceAddr, destAddr, esmClass, shortMessage)\<close> as far as they were read.
\<close>

definition ParseDeliverSM :: "bytes \<Rightarrow> (gostring \<times> gostring \<times> byte \<times> bytes) go" where
  "ParseDeliverSM body =
     (let n = length body in
      if n = 0 then Some ([], [], 0, []) else do {
      (_, offset) \<leftarrow> readCString body 0;
      if n \<le> offset then Some ([], [], 0, []) else do {
      let offset = offset + 1;
      if n \<le> offset then Some ([], [], 0, []) else do {
      let offset = offset + 1;
      (sourceAddr, offset) \<leftarrow> readCString body offset;
      if n \<le> offset then Some (sourceAddr, [], 0, []) else do {
      let offset = offset + 1;
      if n \<le> offset then Some (sourceAddr, [], 0, []) else do {
      let offset = offset + 1;
      (destAddr, offset) \<leftarrow> readCString body offset;
      if n \<le> offset then Some (sourceAddr, destAddr, 0, []) else do {
      let esmClass = body ! offset;
      let offset = offset + 1;
      if n \<le> offset then Some (sourceAddr, destAddr, esmClass, []) else do {
      let offset = offset + 1;
      if n \<le> offset then Some (sourceAddr, destAddr, esmClass, []) else do {
      let offset = offset + 1;
      (_, offset) \<leftarrow> readCString body offset;
      (_, offset) \<leftarrow> readCString body offset;
      if n \<le> offset then Some (sourceAddr, destAddr, esmClass, []) else do {
      let offset = offset + 1;
      if n \<le> offset then Some (sourceAddr, destAddr, esmClass, []) else do {
      let offset = offset + 1;
      if n \<le> offset then Some (sourceAddr, destAddr, esmClass, []) else do {
      let offset = offset + 1;
      if n \<le> offset then Some (sourceAddr, destAddr, esmClass, []) else do {
      let offset = offset + 1;
      if n \<le> offset then Some (sourceAddr, destAddr, esmClass, []) else do {
      let smLen = unat (body ! offset);
      let offset = offset + 1;
      shortMessage \<leftarrow> (if 0 < smLen \<and> offset + smLen \<le> n
                       then slice body offset (offset + smLen) else Some []);
      Some (sourceAddr, destAddr, esmClass, shortMessage)
      }}}}}}}}}}}}})"

definition EncodeDeliverSMRespWithStatus :: "uint32 \<Rightarrow> uint32 \<Rightarrow> PDU" where
  "EncodeDeliverSMRespWithStatus seqNum status =
     \<lparr>CommandLength = 0, CommandID = CmdDeliverSMResp, CommandStatus = status,
      SequenceNumber = seqNum, Body = [0], TLVs = None\<rparr>"

definition EncodeDeliverSMResp :: "uint32 \<Rightarrow> PDU" where
  "EncodeDeliverSMResp seqNum = EncodeDeliverSMRespWithStatus seqNum StatusOK"

section \<open>Header lemmas\<close>

definition pdu_tlv_bytes :: "PDU \<Rightarrow> bytes" where
  "pdu_tlv_bytes pdu = (case TLVs pdu of None \<Rightarrow> [] | Some t \<Rightarrow> tlv_wire (tlv_pairs t))"

definition pdu_size :: "PDU \<Rightarrow> nat" where
  "pdu_size pdu = pduHeaderLen + length (Body pdu) + length (pdu_tlv_bytes pdu)"

definition pdu_header :: "uint32 \<Rightarrow> PDU \<Rightarrow> bytes" where
  "pdu_header n pdu = be32 n @ be32 (CommandID pdu) @ be32 (CommandStatus pdu) @ be32 (SequenceNumber pdu)"

lemma length_pdu_header [simp]: "length (pdu_header n pdu) = 16"
  by (simp add: pdu_header_def)

lemma unat_of_nat32: "n < 2 ^ 32 \<Longrightarrow> unat (of_nat n :: uint32) = n"
  by (simp add: unat_of_nat)

lemma EncodePDU_eq:
  assumes "pdu_size pdu < 2 ^ 32"
  shows "EncodePDU pdu = Some (pdu\<lparr>CommandLength := of_nat (pdu_size pdu)\<rparr>,
    pdu_header (of_nat (pdu_size pdu)) pdu @ Body pdu @ pdu_tlv_bytes pdu)"
proof -
  have tb: "(case TLVs pdu of None \<Rightarrow> Some [] | Some t \<Rightarrow> Encode t) = Some (pdu_tlv_bytes pdu)"
    by (simp add: pdu_tlv_bytes_def Encode_eq split: option.splits)
  let ?n = "pdu_size pdu"
  have n: "unat (of_nat ?n :: uint32) = ?n" using assms by (rule unat_of_nat32)
  have len: "16 + length (Body pdu) + length (pdu_tlv_bytes pdu) = ?n" by (simp add: pdu_size_def)
  let ?z = "replicate ?n (0 :: byte)"
  let ?b = "length (Body pdu)" and ?t = "length (pdu_tlv_bytes pdu)"
  have z: "?z = replicate 4 0 @ replicate 4 0 @ replicate 4 0 @ replicate 4 0 @ replicate ?b 0 @ replicate ?t 0"
    unfolding len [symmetric] replicate_add [symmetric] by simp
  show ?thesis
    unfolding EncodePDU_def tb Option.bind.simps Let_def len n z pdu_header_def
    by (simp add: put_at_def copy_at_def)
qed

lemma DecodePDU_header:
  assumes "16 + length body + length rest < 2 ^ 32"
  shows "DecodePDU (pdu_header (of_nat (16 + length body)) pdu @ body @ rest) =
    Some (Inr (pdu\<lparr>CommandLength := of_nat (16 + length body), Body := body, TLVs := None\<rparr>))"
proof -
  let ?n = "of_nat (16 + length body) :: uint32"
  have n: "unat ?n = 16 + length body" using assms by (intro unat_of_nat32) simp
  have lt: "16 < ?n \<longleftrightarrow> body \<noteq> []"
    by (simp only: word_less_nat_alt n) simp
  have "unat (of_nat (16 + length body + length rest) :: uint32) = 16 + length body + length rest"
    using assms by (rule unat_of_nat32)
  then have le: "\<not> (of_nat (16 + length body + length rest) :: uint32) < ?n"
    unfolding word_less_nat_alt n by simp
  show ?thesis
    using lt n le
    by (cases "body = []") (simp_all add: DecodePDU_def pdu_header_def slice_def add.assoc)
qed

text \<open>What the decoder computes once the header is there.\<close>

lemma DecodePDU_fields:
  assumes "16 \<le> length data"
  obtains n cid st sq where
    "take 16 data = be32 n @ be32 cid @ be32 st @ be32 sq"
    "of_nat (length data) < n \<or> unat n \<le> length data"
    "DecodePDU data =
       (if of_nat (length data) < n then Some (Inl (DataTooShort (length data) n))
        else Some (Inr \<lparr>CommandLength = n, CommandID = cid, CommandStatus = st, SequenceNumber = sq,
          Body = take (unat n - 16) (drop 16 data), TLVs = None\<rparr>))"
proof -
  have r: "\<exists>x. Uint32 (take 4 (drop o' data)) = Some x" if "o' \<le> 12" for o'
    using Uint32_total [of "take 4 (drop o' data)"] that assms by auto
  obtain n cid st sq where
    n: "Uint32 (take 4 data) = Some n" and cid: "Uint32 (take 4 (drop 4 data)) = Some cid" and
    st: "Uint32 (take 4 (drop 8 data)) = Some st" and sq: "Uint32 (take 4 (drop 12 data)) = Some sq"
    using r [of 0] r [of 4] r [of 8] r [of 12] by auto
  have bound: "unat n \<le> length data" if "\<not> of_nat (length data) < n"
  proof -
    have "unat n \<le> unat (of_nat (length data) :: uint32)"
      using that by (simp add: word_le_nat_alt word_less_nat_alt)
    also have "\<dots> \<le> length data" by (simp add: unat_of_nat)
    finally show ?thesis .
  qed
  have body: "(if of_nat 16 < n then slice data 16 (unat n) else Some []) =
      Some (take (unat n - 16) (drop 16 data))" if "\<not> of_nat (length data) < n"
    using bound [OF that] by (auto simp: slice_def word_less_nat_alt)
  have "DecodePDU data =
       (if of_nat (length data) < n then Some (Inl (DataTooShort (length data) n))
        else Some (Inr \<lparr>CommandLength = n, CommandID = cid, CommandStatus = st, SequenceNumber = sq,
          Body = take (unat n - 16) (drop 16 data), TLVs = None\<rparr>))"
    using assms body by (cases "of_nat (length data) < n") (simp_all add: DecodePDU_def slice_def n cid st sq)
  moreover have "take 4 data = be32 n" "take 4 (drop 4 data) = be32 cid"
    "take 4 (drop 8 data) = be32 st" "take 4 (drop 12 data) = be32 sq"
    using be32_Uint32 [OF n] be32_Uint32 [OF cid] be32_Uint32 [OF st] be32_Uint32 [OF sq] assms
    by simp_all
  then have "data = be32 n @ be32 cid @ be32 st @ be32 sq @ drop 16 data"
    using drop_step [of 0 data 4] drop_step [of 4 data 4] drop_step [of 8 data 4] drop_step [of 12 data 4]
    by simp
  then have "take 16 data = take 16 (be32 n @ be32 cid @ be32 st @ be32 sq @ drop 16 data)"
    by (rule arg_cong)
  then have "take 16 data = be32 n @ be32 cid @ be32 st @ be32 sq"
    by simp
  ultimately show thesis using that bound by blast
qed

text \<open>A successful decode re-encodes to the bytes it read.\<close>

lemma DecodePDU_sound:
  assumes "DecodePDU data = Some (Inr pdu)" and "16 \<le> CommandLength pdu"
  shows "take (unat (CommandLength pdu)) data = pdu_header (CommandLength pdu) pdu @ Body pdu"
    and "length (Body pdu) + 16 = unat (CommandLength pdu)"
    and "unat (CommandLength pdu) \<le> length data"
    and "TLVs pdu = None"
proof -
  have len: "16 \<le> length data"
    using assms(1) by (auto simp: DecodePDU_def split: if_splits)
  then obtain n cid st sq where d:
    "take 16 data = be32 n @ be32 cid @ be32 st @ be32 sq"
    "of_nat (length data) < n \<or> unat n \<le> length data"
    "DecodePDU data =
       (if of_nat (length data) < n then Some (Inl (DataTooShort (length data) n))
        else Some (Inr \<lparr>CommandLength = n, CommandID = cid, CommandStatus = st, SequenceNumber = sq,
          Body = take (unat n - 16) (drop 16 data), TLVs = None\<rparr>))"
    by (rule DecodePDU_fields)
  have ok: "\<not> of_nat (length data) < n" using assms(1) d(3) by (auto split: if_splits)
  have p: "pdu = \<lparr>CommandLength = n, CommandID = cid, CommandStatus = st, SequenceNumber = sq,
      Body = take (unat n - 16) (drop 16 data), TLVs = None\<rparr>"
    using assms(1) d(3) ok by simp
  have bound: "unat n \<le> length data" using d(2) ok by blast
  have n16: "16 \<le> unat n" using assms(2) by (simp add: p word_le_nat_alt)
  have "take (unat n) data = take 16 data @ take (unat n - 16) (drop 16 data)"
    using take_add [of 16 "unat n - 16" data] n16 by simp
  then show "take (unat (CommandLength pdu)) data = pdu_header (CommandLength pdu) pdu @ Body pdu"
    by (simp add: p pdu_header_def d(1))
  show "length (Body pdu) + 16 = unat (CommandLength pdu)" "unat (CommandLength pdu) \<le> length data"
    "TLVs pdu = None"
    using bound n16 by (simp_all add: p)
qed

lemma DecodePDU_total: "DecodePDU data \<noteq> None"
proof (cases "16 \<le> length data")
  case True
  then show ?thesis by (rule DecodePDU_fields) auto
qed (simp add: DecodePDU_def)

section \<open>C-string lemmas\<close>

abbreviation no_nul :: "gostring \<Rightarrow> bool" where
  "no_nul s \<equiv> 0 \<notin> set s"

abbreviation cstr :: "bytes \<Rightarrow> gostring" where
  "cstr bs \<equiv> takeWhile (\<lambda>b. b \<noteq> 0) bs"

lemma cstring_end_eq:
  "e \<le> length data \<Longrightarrow> cstring_end data e = e + length (cstr (drop e data))"
proof (induction data e rule: cstring_end.induct)
  case (1 data e)
  show ?case
  proof (cases "e < length data")
    case True
    then have "drop e data = data ! e # drop (Suc e) data" by (rule Cons_nth_drop_Suc [symmetric])
    with 1 True show ?thesis by (simp add: cstring_end.simps [of data e])
  next
    case False
    then show ?thesis by (simp add: cstring_end.simps [of data e])
  qed
qed

lemma length_cstr_drop: "length (cstr (drop e data)) \<le> length data - e"
  using length_takeWhile_le [of "\<lambda>b. b \<noteq> 0" "drop e data"] by simp

lemma ReadCString_eq:
  "ReadCString data offset =
     Some (cstr (drop offset data),
       if offset + length (cstr (drop offset data)) < length data
       then offset + length (cstr (drop offset data)) + 1
       else max offset (length data))"
proof (cases "length data \<le> offset")
  case True
  then show ?thesis by (simp add: ReadCString_def)
next
  case False
  let ?k = "length (cstr (drop offset data))"
  have k: "offset + ?k \<le> length data" using length_cstr_drop [of offset data] False by simp
  have "take ?k (drop offset data) = cstr (drop offset data)"
    by (simp flip: takeWhile_eq_take)
  with False k show ?thesis
    by (auto simp: ReadCString_def Let_def cstring_end_eq slice_simps)
qed

lemma ReadCString_total: "ReadCString data offset \<noteq> None"
  by (simp add: ReadCString_eq)

lemma WriteCStringBytes_eq [simp]: "WriteCStringBytes s = Some (s @ [0])"
  by (simp add: WriteCStringBytes_def copy_at_def replicate_append_same [symmetric])

text \<open>
  The parsers walk a body by offset. \<open>rest_at data offset rest\<close> says what remains at an
  offset; a field at the front of what remains is read by one of the lemmas below, which
  also give what remains after it.
\<close>

definition rest_at :: "bytes \<Rightarrow> nat \<Rightarrow> bytes \<Rightarrow> bool" where
  "rest_at data offset rest \<longleftrightarrow> offset \<le> length data \<and> drop offset data = rest"

lemma rest_at_0 [simp]: "rest_at data 0 data"
  by (simp add: rest_at_def)

lemma rest_at_length: "rest_at data offset rest \<Longrightarrow> length data = offset + length rest"
  by (auto simp: rest_at_def)

lemma rest_at_append:
  assumes "rest_at data offset (xs @ rest)"
  shows "rest_at data (offset + length xs) rest"
proof -
  have "drop (length xs) (drop offset data) = rest" using assms by (simp add: rest_at_def)
  then have "drop (offset + length xs) data = rest" by (simp add: add.commute)
  then show ?thesis using rest_at_length [OF assms] by (simp add: rest_at_def)
qed

lemma rest_at_byte:
  assumes "rest_at data offset (b # rest)"
  shows "\<not> length data \<le> offset" "data ! offset = b" "rest_at data (offset + 1) rest"
proof -
  show 1: "\<not> length data \<le> offset" using rest_at_length [OF assms] by simp
  from 1 assms show "data ! offset = b" by (simp add: rest_at_def nth_via_drop)
  show "rest_at data (offset + 1) rest" using rest_at_append [of data offset "[b]" rest] assms by simp
qed

lemma rest_at_cstring:
  assumes "rest_at data offset (s @ 0 # rest)" and "no_nul s"
  shows "readCString data offset = Some (s, offset + length s + 1)"
    and "rest_at data (offset + length s + 1) rest"
proof -
  have d: "drop offset data = s @ 0 # rest" using assms(1) by (simp add: rest_at_def)
  have c: "cstr (drop offset data) = s"
    unfolding d using assms(2) by (subst takeWhile_append2) auto
  have "length data = offset + length s + 1 + length rest" using rest_at_length [OF assms(1)] by simp
  then show "readCString data offset = Some (s, offset + length s + 1)"
    by (simp add: readCString_def ReadCString_eq c)
  show "rest_at data (offset + length s + 1) rest"
    using rest_at_append [of data offset "s @ [0]" rest] assms(1) by simp
qed

lemma rest_at_short_message:
  assumes "rest_at data offset (m @ rest)"
  shows "(if 0 < length m \<and> offset + length m \<le> length data
          then slice data offset (offset + length m) else Some []) = Some m"
  using assms rest_at_length [OF assms] by (auto simp: rest_at_def slice_def)

lemma rest_at_slice:
  assumes "rest_at data offset (v @ rest)"
  shows "slice data offset (offset + length v) = Some v"
  using assms rest_at_length [OF assms] by (simp add: rest_at_def slice_def)

section \<open>The layout of submit_sm and deliver_sm\<close>

record sm_fields =
  service_type :: gostring
  source_addr_ton :: byte
  source_addr_npi :: byte
  source_addr :: gostring
  dest_addr_ton :: byte
  dest_addr_npi :: byte
  destination_addr :: gostring
  esm_class :: byte
  protocol_id :: byte
  priority_flag :: byte
  schedule_delivery_time :: gostring
  validity_period :: gostring
  registered_delivery :: byte
  replace_if_present_flag :: byte
  data_coding :: byte
  sm_default_msg_id :: byte
  short_message :: bytes

definition encode_sm :: "sm_fields \<Rightarrow> bytes" where
  "encode_sm f = service_type f @ 0 # source_addr_ton f # source_addr_npi f # source_addr f @
     0 # dest_addr_ton f # dest_addr_npi f # destination_addr f @
     0 # esm_class f # protocol_id f # priority_flag f # schedule_delivery_time f @
     0 # validity_period f @
     0 # registered_delivery f # replace_if_present_flag f # data_coding f # sm_default_msg_id f #
     of_nat (length (short_message f)) # short_message f"

definition wf_sm :: "sm_fields \<Rightarrow> bool" where
  "wf_sm f \<longleftrightarrow> no_nul (service_type f) \<and> no_nul (source_addr f) \<and> no_nul (destination_addr f) \<and>
     no_nul (schedule_delivery_time f) \<and> no_nul (validity_period f) \<and> length (short_message f) < 256"

lemma ParseDeliverSM_encode_sm:
  assumes "wf_sm f"
  shows "ParseDeliverSM (encode_sm f @ rest) =
    Some (source_addr f, destination_addr f, esm_class f, short_message f)"
proof -
  note wf = assms [unfolded wf_sm_def]
  let ?d = "encode_sm f @ rest"
  let ?m = "short_message f"
  have r0: "rest_at ?d 0 (service_type f @ 0 # source_addr_ton f # source_addr_npi f # source_addr f @
     0 # dest_addr_ton f # dest_addr_npi f # destination_addr f @
     0 # esm_class f # protocol_id f # priority_flag f # schedule_delivery_time f @
     0 # validity_period f @
     0 # registered_delivery f # replace_if_present_flag f # data_coding f # sm_default_msg_id f #
     of_nat (length ?m) # ?m @ rest)"
    by (simp add: rest_at_def encode_sm_def)
  have wf1: "no_nul (service_type f)" "no_nul (source_addr f)" "no_nul (destination_addr f)"
    "no_nul (schedule_delivery_time f)" "no_nul (validity_period f)" using wf by blast+
  note c1 = rest_at_cstring [OF r0 wf1(1)]
  note b1 = rest_at_byte [OF c1(2)]
  note b2 = rest_at_byte [OF b1(3)]
  note c2 = rest_at_cstring [OF b2(3) wf1(2)]
  note b3 = rest_at_byte [OF c2(2)]
  note b4 = rest_at_byte [OF b3(3)]
  note c3 = rest_at_cstring [OF b4(3) wf1(3)]
  note b5 = rest_at_byte [OF c3(2)]
  note b6 = rest_at_byte [OF b5(3)]
  note b7 = rest_at_byte [OF b6(3)]
  note c4 = rest_at_cstring [OF b7(3) wf1(4)]
  note c5 = rest_at_cstring [OF c4(2) wf1(5)]
  note b8 = rest_at_byte [OF c5(2)]
  note b9 = rest_at_byte [OF b8(3)]
  note b10 = rest_at_byte [OF b9(3)]
  note b11 = rest_at_byte [OF b10(3)]
  note b12 = rest_at_byte [OF b11(3)]
  have lm: "unat (of_nat (length ?m) :: byte) = length ?m" using wf by (simp add: unat_of_nat)
  have ne: "length ?d \<noteq> 0" by (simp add: encode_sm_def)
  show ?thesis
    unfolding ParseDeliverSM_def Let_def
    by (simp only: ne c1(1) c2(1) c3(1) c4(1) c5(1) b1(1) b2(1) b3(1) b4(1) b5(1,2) b6(1) b7(1) b8(1)
        b9(1) b10(1) b11(1) b12(1,2) if_False Option.bind.simps prod.case lm
        rest_at_short_message [OF b12(3)])
qed

lemma EncodeSubmitSM_layout:
  "EncodeSubmitSM src sTON sNPI dst dTON dNPI esm pid dc rd sm =
     encode_sm \<lparr>service_type = [], source_addr_ton = sTON, source_addr_npi = sNPI, source_addr = src,
       dest_addr_ton = dTON, dest_addr_npi = dNPI, destination_addr = dst, esm_class = esm,
       protocol_id = pid, priority_flag = 0, schedule_delivery_time = [], validity_period = [],
       registered_delivery = rd, replace_if_present_flag = 0, data_coding = dc,
       sm_default_msg_id = 0, short_message = (if 254 < length sm then [] else sm)\<rparr> @
     (if 254 < length sm then enc_tlv (TagMessagePayload, sm) else [])"
  by (simp add: EncodeSubmitSM_def encode_sm_def writeCString_def enc_tlv_def)

lemma ReadCString_no_panic [no_panic]: "ReadCString data offset \<noteq> None"
  using ReadCString_total [of data offset] by simp

lemma ParseDeliverSM_no_panic [no_panic]: "ParseDeliverSM body \<noteq> None"
  unfolding ParseDeliverSM_def readCString_def Let_def
  by (intro no_panic) auto

section \<open>Properties\<close>

text \<open>
  C14. Encoding a PDU whose size fits the 32-bit length field and decoding the bytes, with or
  without further bytes of the stream behind them, gives back the command, the status, the
  sequence number and a body made of the mandatory parameters followed by the encoded TLVs.
\<close>

theorem pdu_roundtrip:
  assumes "pdu_size pdu + length rest < 2 ^ 32"
  shows "\<exists>wire. EncodePDU pdu = Some (pdu\<lparr>CommandLength := of_nat (pdu_size pdu)\<rparr>, wire) \<and>
    length wire = pdu_size pdu \<and>
    DecodePDU (wire @ rest) = Some (Inr (pdu\<lparr>CommandLength := of_nat (pdu_size pdu),
      Body := Body pdu @ pdu_tlv_bytes pdu, TLVs := None\<rparr>))"
  using EncodePDU_eq [of pdu] DecodePDU_header [of "Body pdu @ pdu_tlv_bytes pdu" rest pdu] assms
  by (cases pdu) (simp add: pdu_size_def add.assoc)

theorem pdu_roundtrip_witness:
  "\<exists>wire. EncodePDU (EncodeDeliverSMResp 7) =
      Some ((EncodeDeliverSMResp 7)\<lparr>CommandLength := 17\<rparr>, wire) \<and> length wire = 17 \<and>
    DecodePDU (wire @ [1, 2, 3]) = Some (Inr ((EncodeDeliverSMResp 7)\<lparr>CommandLength := 17\<rparr>))"
  using pdu_roundtrip [of "EncodeDeliverSMResp 7" "[1, 2, 3]"]
  by (simp add: EncodeDeliverSMResp_def EncodeDeliverSMRespWithStatus_def pdu_size_def pdu_tlv_bytes_def)



text \<open>
  C18. Reading back a submit_sm body that \<^verbatim>\<open>EncodeSubmitSM\<close> built gives the addresses, the ESM
  class and the short message it was given. A message of more than 254 bytes travels in the
  message_payload TLV, which the reader does not look at: its short message is then empty.
\<close>

theorem submit_body_roundtrip:
  assumes "no_nul src" and "no_nul dst"
  shows "ParseDeliverSM (EncodeSubmitSM src sTON sNPI dst dTON dNPI esm pid dc rd sm) =
    Some (src, dst, esm, if 254 < length sm then [] else sm)"
  using assms by (simp add: EncodeSubmitSM_layout ParseDeliverSM_encode_sm wf_sm_def
    ParseDeliverSM_encode_sm [where rest = "[]", simplified])

theorem submit_body_roundtrip_witness:
  "ParseDeliverSM (EncodeSubmitSM [65] 5 0 [52, 53] 1 1 64 127 246 1 [2, 112, 0]) =
     Some ([65], [52, 53], 64, [2, 112, 0])"
  using submit_body_roundtrip [of "[65]" "[52, 53]" 5 0 1 1 64 127 246 1 "[2, 112, 0]"] by simp

text \<open>
  The readers of the package never panic: on any bytes at all the PDU decoder, the
  submit_sm/deliver_sm reader and the message-id reader return.
\<close>

theorem pdu_readers_no_panic:
  "DecodePDU data \<noteq> None \<and> ParseDeliverSM data \<noteq> None \<and> ParseSubmitSMResp data \<noteq> None"
  using DecodePDU_total [of data] ParseDeliverSM_no_panic [of data] ReadCString_no_panic [of data 0]
  by (auto simp: ParseSubmitSMResp_def readCString_def)

end
