(* ===== verification/Pdu_Fields.thy ===== *)
theory Pdu_Fields
  imports Pdu
begin

text \<open>
  The boundary between mandatory parameters and TLVs: \<^verbatim>\<open>smpp/pdu_fields.go\<close>.

  Every \<^verbatim>\<open>mandatoryLen*\<close> routine walks the body field by field and returns the offset it
  reaches, or \<^verbatim>\<open>-1\<close> as soon as a field does not fit. In the model the routines return an
  option, \<^term>\<open>None\<close> being the \<open>-1\<close>; \<open>MandatoryBodyLen\<close> itself returns the integer. Below
  the definitions, a layout language gives the documented sequence of fields of each
  command; the routines are shown to accept exactly the bodies that begin with a
  well-formed sequence of those fields, and to return its length.
\<close>

section \<open>Model\<close>

text \<open>The loop of \<^verbatim>\<open>skipCString\<close>.\<close>

function skip_scan :: "bytes \<Rightarrow> nat \<Rightarrow> nat option" where
  "skip_scan body i =
     (if i < length body then (if body ! i = 0 then Some (i + 1) else skip_scan body (i + 1))
      else None)"
  by auto
termination
  by (relation "measure (\<lambda>(body, i). length body - i)") auto

declare skip_scan.simps [simp del]

definition skipCString :: "bytes \<Rightarrow> nat \<Rightarrow> nat option" where
  "skipCString body offset = (if length body \<le> offset then None else skip_scan body offset)"

text \<open>The idiom \<^verbatim>\<open>if offset+k > n { return -1 }; offset += k\<close>.\<close>

definition advance :: "bytes \<Rightarrow> nat \<Rightarrow> nat \<Rightarrow> nat option" where
  "advance body k offset = (if length body < offset + k then None else Some (offset + k))"

definition mandatoryLenSubmitDeliverSM :: "bytes \<Rightarrow> nat option" where
  "mandatoryLenSubmitDeliverSM body = do {
     offset \<leftarrow> skipCString body 0;
     offset \<leftarrow> advance body 2 offset;
     offset \<leftarrow> skipCString body offset;
     offset \<leftarrow> advance body 2 offset;
     offset \<leftarrow> skipCString body offset;
     offset \<leftarrow> advance body 3 offset;
     offset \<leftarrow> skipCString body offset;
     offset \<leftarrow> skipCString body offset;
     offset \<leftarrow> advance body 4 offset;
     if length body \<le> offset then None else do {
       let smLen = unat (body ! offset);
       let offset = offset + 1;
       advance body smLen offset
     }
   }"

definition mandatoryLenCStringOnly :: "bytes \<Rightarrow> nat option" where
  "mandatoryLenCStringOnly body = (if length body = 0 then Some 0 else skipCString body 0)"

definition mandatoryLenBind :: "bytes \<Rightarrow> nat option" where
  "mandatoryLenBind body = do {
     offset \<leftarrow> skipCString body 0;
     offset \<leftarrow> skipCString body offset;
     offset \<leftarrow> skipCString body offset;
     offset \<leftarrow> advance body 3 offset;
     skipCString body offset
   }"

definition mandatoryLenQuerySM :: "bytes \<Rightarrow> nat option" where
  "mandatoryLenQuerySM body = do {
     offset \<leftarrow> skipCString body 0;
     offset \<leftarrow> advance body 2 offset;
     skipCString body offset
   }"

definition mandatoryLenQuerySMResp :: "bytes \<Rightarrow> nat option" where
  "mandatoryLenQuerySMResp body = do {
     offset \<leftarrow> skipCString body 0;
     offset \<leftarrow> skipCString body offset;
     advance body 2 offset
   }"

definition mandatoryLenCancelSM :: "bytes \<Rightarrow> nat option" where
  "mandatoryLenCancelSM body = do {
     offset \<leftarrow> skipCString body 0;
     offset \<leftarrow> skipCString body offset;
     offset \<leftarrow> advance body 2 offset;
     offset \<leftarrow> skipCString body offset;
     offset \<leftarrow> advance body 2 offset;
     skipCString body offset
   }"

definition mandatoryLenReplaceSM :: "bytes \<Rightarrow> nat option" where
  "mandatoryLenReplaceSM body = do {
     offset \<leftarrow> skipCString body 0;
     offset \<leftarrow> advance body 2 offset;
     offset \<leftarrow> skipCString body offset;
     offset \<leftarrow> skipCString body offset;
     offset \<leftarrow> skipCString body offset;
     offset \<leftarrow> advance body 2 offset;
     if length body \<le> offset then None else do {
       let smLen = unat (body ! offset);
       let offset = offset + 1;
       advance body smLen offset
     }
   }"

definition mandatoryLenDataSM :: "bytes \<Rightarrow> nat option" where
  "mandatoryLenDataSM body = do {
     offset \<leftarrow> skipCString body 0;
     offset \<leftarrow> advance body 2 offset;
     offset \<leftarrow> skipCString body offset;
     offset \<leftarrow> advance body 2 offset;
     offset \<leftarrow> skipCString body offset;
     advance body 3 offset
   }"

definition mandatoryLenAlertNotification :: "bytes \<Rightarrow> nat option" where
  "mandatoryLenAlertNotification body = do {
     offset \<leftarrow> advance body 2 0;
     offset \<leftarrow> skipCString body offset;
     offset \<leftarrow> advance body 2 offset;
     skipCString body offset
   }"

definition mandatoryLenBroadcastSM :: "bytes \<Rightarrow> nat option" where
  "mandatoryLenBroadcastSM body = do {
     offset \<leftarrow> skipCString body 0;
     offset \<leftarrow> advance body 2 offset;
     offset \<leftarrow> skipCString body offset;
     offset \<leftarrow> skipCString body offset;
     offset \<leftarrow> advance body 1 offset;
     offset \<leftarrow> skipCString body offset;
     offset \<leftarrow> skipCString body offset;
     advance body 3 offset
   }"

definition mandatoryLenQueryBroadcastSM :: "bytes \<Rightarrow> nat option" where
  "mandatoryLenQueryBroadcastSM body = do {
     offset \<leftarrow> skipCString body 0;
     offset \<leftarrow> advance body 2 offset;
     skipCString body offset
   }"

definition mandatoryLenQueryBroadcastSMResp :: "bytes \<Rightarrow> nat option" where
  "mandatoryLenQueryBroadcastSMResp body = do {
     offset \<leftarrow> skipCString body 0;
     advance body 1 offset
   }"

definition mandatoryLenCancelBroadcastSM :: "bytes \<Rightarrow> nat option" where
  "mandatoryLenCancelBroadcastSM body = do {
     offset \<leftarrow> skipCString body 0;
     offset \<leftarrow> skipCString body offset;
     offset \<leftarrow> advance body 2 offset;
     skipCString body offset
   }"

definition offset_or_neg :: "nat option \<Rightarrow> int" where
  "offset_or_neg r = (case r of None \<Rightarrow> -1 | Some n \<Rightarrow> int n)"

definition MandatoryBodyLen :: "uint32 \<Rightarrow> bytes \<Rightarrow> int" where
  "MandatoryBodyLen commandID body =
     (if commandID \<in> {CmdSubmitSM, CmdDeliverSM} then offset_or_neg (mandatoryLenSubmitDeliverSM body)
      else if commandID \<in> {CmdSubmitSMResp, CmdDeliverSMResp} then offset_or_neg (mandatoryLenCStringOnly body)
      else if commandID \<in> {CmdBindTransceiver, CmdBindTransmitter, CmdBindReceiver}
        then offset_or_neg (mandatoryLenBind body)
      else if commandID \<in> {CmdBindTransceiverResp, CmdBindTransmitterResp, CmdBindReceiverResp}
        then offset_or_neg (mandatoryLenCStringOnly body)
      else if commandID = CmdQuerySM then offset_or_neg (mandatoryLenQuerySM body)
      else if commandID = CmdQuerySMResp then offset_or_neg (mandatoryLenQuerySMResp body)
      else if commandID = CmdCancelSM then offset_or_neg (mandatoryLenCancelSM body)
      else if commandID = CmdReplaceSM then offset_or_neg (mandatoryLenReplaceSM body)
      else if commandID = CmdDataSM then offset_or_neg (mandatoryLenDataSM body)
      else if commandID = CmdDataSMResp then offset_or_neg (mandatoryLenCStringOnly body)
      else if commandID = CmdAlertNotification then offset_or_neg (mandatoryLenAlertNotification body)
      else if commandID = CmdBroadcastSM then offset_or_neg (mandatoryLenBroadcastSM body)
      else if commandID = CmdBroadcastSMResp then offset_or_neg (mandatoryLenCStringOnly body)
      else if commandID = CmdQueryBroadcastSM then offset_or_neg (mandatoryLenQueryBroadcastSM body)
      else if commandID = CmdQueryBroadcastSMResp then offset_or_neg (mandatoryLenQueryBroadcastSMResp body)
      else if commandID = CmdCancelBroadcastSM then offset_or_neg (mandatoryLenCancelBroadcastSM body)
      else if commandID = CmdCancelBroadcastSMResp then 0
      else if commandID \<in> {CmdCancelSMResp, CmdReplaceSMResp} then 0
      else if commandID \<in> {CmdEnquireLink, CmdEnquireLinkResp, CmdUnbind, CmdUnbindResp, CmdGenericNack} then 0
      else if commandID \<in> {CmdSubmitMulti, CmdSubmitMultiResp} then -1
      else -1)"

text \<open>
  \<^verbatim>\<open>ExtractTLVs\<close> returns a map that may be nil and an error: the nil map with a nil
  error is \<open>Inr None\<close>.
\<close>

definition ExtractTLVs :: "PDU \<Rightarrow> (tlv_error + TLVSet option) go" where
  "ExtractTLVs pdu =
     (let offset = MandatoryBodyLen (CommandID pdu) (Body pdu) in
      if offset < 0 then Some (Inr None)
      else if offset = int (length (Body pdu)) then Some (Inr (Some fmempty))
      else do {
        tlvBytes \<leftarrow> slice_from (Body pdu) (nat offset);
        r \<leftarrow> DecodeTLVs tlvBytes;
        Some (map_sum id Some r)
      })"

section \<open>Documented layouts\<close>

text \<open>
  A layout is a list of fields: a C-string, a run of bytes of fixed length, or a length byte
  followed by that many bytes. \<open>field_wf f bs\<close> says that \<open>bs\<close> is one encoded field.
\<close>

datatype field = CStr | Fixed nat | LenPrefixed

fun field_wf :: "field \<Rightarrow> bytes \<Rightarrow> bool" where
  "field_wf CStr bs = (bs \<noteq> [] \<and> last bs = 0 \<and> 0 \<notin> set (butlast bs))"
| "field_wf (Fixed k) bs = (length bs = k)"
| "field_wf LenPrefixed bs = (case bs of [] \<Rightarrow> False | b # m \<Rightarrow> length m = unat b)"

fun walk_field :: "bytes \<Rightarrow> nat \<Rightarrow> field \<Rightarrow> nat option" where
  "walk_field body offset CStr = skipCString body offset"
| "walk_field body offset (Fixed k) = advance body k offset"
| "walk_field body offset LenPrefixed =
     (if length body \<le> offset then None else advance body (unat (body ! offset)) (offset + 1))"

fun walk :: "bytes \<Rightarrow> nat \<Rightarrow> field list \<Rightarrow> nat option" where
  "walk body offset [] = Some offset"
| "walk body offset (f # fs) = walk_field body offset f \<bind> (\<lambda>offset. walk body offset fs)"

definition sm_layout :: "field list" where
  "sm_layout = [CStr, Fixed 2, CStr, Fixed 2, CStr, Fixed 3, CStr, CStr, Fixed 4, LenPrefixed]"

definition mandatory_layout :: "uint32 \<Rightarrow> field list option" where
  "mandatory_layout cmd = map_of [
     (CmdSubmitSM, sm_layout), (CmdDeliverSM, sm_layout),
     (CmdSubmitSMResp, [CStr]), (CmdDeliverSMResp, [CStr]),
     (CmdBindTransceiver, [CStr, CStr, CStr, Fixed 3, CStr]),
     (CmdBindTransmitter, [CStr, CStr, CStr, Fixed 3, CStr]),
     (CmdBindReceiver, [CStr, CStr, CStr, Fixed 3, CStr]),
     (CmdBindTransceiverResp, [CStr]), (CmdBindTransmitterResp, [CStr]), (CmdBindReceiverResp, [CStr]),
     (CmdQuerySM, [CStr, Fixed 2, CStr]), (CmdQuerySMResp, [CStr, CStr, Fixed 2]),
     (CmdCancelSM, [CStr, CStr, Fixed 2, CStr, Fixed 2, CStr]),
     (CmdReplaceSM, [CStr, Fixed 2, CStr, CStr, CStr, Fixed 2, LenPrefixed]),
     (CmdDataSM, [CStr, Fixed 2, CStr, Fixed 2, CStr, Fixed 3]), (CmdDataSMResp, [CStr]),
     (CmdAlertNotification, [Fixed 2, CStr, Fixed 2, CStr]),
     (CmdBroadcastSM, [CStr, Fixed 2, CStr, CStr, Fixed 1, CStr, CStr, Fixed 3]),
     (CmdBroadcastSMResp, [CStr]), (CmdQueryBroadcastSM, [CStr, Fixed 2, CStr]),
     (CmdQueryBroadcastSMResp, [CStr, Fixed 1]),
     (CmdCancelBroadcastSM, [CStr, CStr, Fixed 2, CStr]), (CmdCancelBroadcastSMResp, []),
     (CmdCancelSMResp, []), (CmdReplaceSMResp, []), (CmdEnquireLink, []), (CmdEnquireLinkResp, []),
     (CmdUnbind, []), (CmdUnbindResp, []), (CmdGenericNack, [])] cmd"

text \<open>The responses whose body may also be empty.\<close>

definition cstring_only :: "uint32 \<Rightarrow> bool" where
  "cstring_only cmd \<longleftrightarrow> mandatory_layout cmd = Some [CStr]"

lemmas mandatoryLen_defs =
  mandatoryLenSubmitDeliverSM_def mandatoryLenBind_def mandatoryLenQuerySM_def
  mandatoryLenQuerySMResp_def mandatoryLenCancelSM_def mandatoryLenReplaceSM_def
  mandatoryLenDataSM_def mandatoryLenAlertNotification_def mandatoryLenBroadcastSM_def
  mandatoryLenQueryBroadcastSM_def mandatoryLenQueryBroadcastSMResp_def
  mandatoryLenCancelBroadcastSM_def mandatoryLenCStringOnly_def sm_layout_def

lemma bind_Some_id [simp]: "m \<bind> (\<lambda>x. Some x) = m"
  by (cases m) simp_all

lemma MandatoryBodyLen_walk:
  "MandatoryBodyLen cmd body =
     (case mandatory_layout cmd of None \<Rightarrow> -1
      | Some fs \<Rightarrow> if cstring_only cmd \<and> body = [] then 0 else offset_or_neg (walk body 0 fs))"
  unfolding MandatoryBodyLen_def cstring_only_def mandatory_layout_def mandatoryLen_defs Let_def
  by (simp add: offset_or_neg_def)

lemma skip_scan_eq:
  "i \<le> length body \<Longrightarrow> skip_scan body i =
     (if 0 \<in> set (drop i body) then Some (i + length (cstr (drop i body)) + 1) else None)"
proof (induction body i rule: skip_scan.induct)
  case (1 body i)
  show ?case
  proof (cases "i < length body")
    case True
    then have d: "drop i body = body ! i # drop (i + 1) body"
      using Cons_nth_drop_Suc [of i body] by simp
    show ?thesis
    proof (cases "body ! i = 0")
      case True
      then show ?thesis using \<open>i < length body\<close> by (simp add: skip_scan.simps [of body i] d)
    next
      case False
      then show ?thesis
        using 1 \<open>i < length body\<close> by (simp add: skip_scan.simps [of body i] d)
    qed
  qed (use 1 in \<open>simp add: skip_scan.simps [of body "length body"]\<close>)
qed

lemma walk_field_complete:
  assumes "rest_at d off (bs @ rest)" and "field_wf f bs"
  shows "walk_field d off f = Some (off + length bs)"
proof (cases f)
  case CStr
  then obtain s where bs: "bs = s @ [0]" "no_nul s"
    using assms(2) by (metis append_butlast_last_id field_wf.simps(1))
  have d: "drop off d = s @ 0 # rest" "off < length d"
    using assms(1) rest_at_length [OF assms(1)] by (simp_all add: rest_at_def bs)
  have "cstr (s @ 0 # rest) = s" using bs(2) by (subst takeWhile_append2) auto
  then show ?thesis using d CStr by (simp add: skipCString_def skip_scan_eq bs)
next
  case (Fixed k)
  then show ?thesis using assms rest_at_length [OF assms(1)] by (simp add: advance_def)
next
  case LenPrefixed
  then obtain b m where bs: "bs = b # m" "length m = unat b"
    using assms(2) by (auto split: list.splits)
  then show ?thesis
    using assms(1) LenPrefixed rest_at_length [OF assms(1)] rest_at_byte [of d off b "m @ rest"]
    by (simp add: advance_def)
qed

lemma walk_field_sound:
  assumes "walk_field d off f = Some off'" and "off \<le> length d"
  shows "\<exists>bs. field_wf f bs \<and> off' = off + length bs \<and> rest_at d off (bs @ drop off' d)"
proof -
  have split: "drop off d = take k (drop off d) @ drop (off + k) d" for k
    by (metis append_take_drop_id drop_drop add.commute)
  have fixed: "\<exists>bs. field_wf f bs \<and> off' = off + length bs \<and> rest_at d off (bs @ drop off' d)"
    if "off' = off + k" "off + k \<le> length d" "field_wf f (take k (drop off d))" for k
    using that assms(2) split [of k]
    by (intro exI [of _ "take k (drop off d)"]) (simp add: rest_at_def)
  show ?thesis
  proof (cases f)
    case CStr
    let ?s = "cstr (drop off d)"
    have z: "0 \<in> set (drop off d)" "off' = off + length ?s + 1"
      using assms CStr by (auto simp: skipCString_def skip_scan_eq split: if_splits)
    then have nth: "length ?s < length (drop off d)" "drop off d ! length ?s = 0"
      using length_takeWhile_le [of "\<lambda>b. b \<noteq> 0" "drop off d"] takeWhile_eq_all_conv [of "\<lambda>b. b \<noteq> 0" "drop off d"]
        nth_length_takeWhile [of "\<lambda>b. b \<noteq> 0" "drop off d"]
      by (metis (mono_tags, lifting) le_neq_implies_less takeWhile_eq_take take_all_iff order_refl,
          metis (mono_tags, lifting) le_neq_implies_less takeWhile_eq_take take_all_iff order_refl)
    then have t: "take (length ?s + 1) (drop off d) = ?s @ [0]"
      using take_Suc_conv_app_nth [OF nth(1)] takeWhile_eq_take [of "\<lambda>b. b \<noteq> 0" "drop off d"] by simp
    show ?thesis
      using z nth(1) t CStr
      by (intro fixed [of "length ?s + 1"]) (auto dest: set_takeWhileD)
  next
    case (Fixed k)
    then show ?thesis using assms by (intro fixed [of k]) (auto simp: advance_def split: if_splits)
  next
    case LenPrefixed
    then have "off' = off + (unat (d ! off) + 1)" "off + (unat (d ! off) + 1) \<le> length d" "off < length d"
      using assms(1) by (auto simp: advance_def split: if_splits)
    moreover from this have "take (unat (d ! off) + 1) (drop off d) = d ! off # take (unat (d ! off)) (drop (off + 1) d)"
      by (simp flip: Cons_nth_drop_Suc)
    ultimately show ?thesis using LenPrefixed by (intro fixed [of "unat (d ! off) + 1"]) simp_all
  qed
qed

lemma walk_complete:
  "list_all2 field_wf fs bss \<Longrightarrow> rest_at d off (concat bss @ rest) \<Longrightarrow>
   walk d off fs = Some (off + length (concat bss))"
proof (induction fs bss arbitrary: off rule: list_all2_induct)
  case (Cons f fs bs bss)
  then show ?case
    using walk_field_complete [of d off bs "concat bss @ rest" f] rest_at_append [of d off bs]
    by (simp add: add.assoc)
qed simp

lemma walk_sound:
  "walk d off fs = Some off' \<Longrightarrow> off \<le> length d \<Longrightarrow>
   \<exists>bss. list_all2 field_wf fs bss \<and> off' = off + length (concat bss) \<and> rest_at d off (concat bss @ drop off' d)"
proof (induction fs arbitrary: off)
  case Nil
  then show ?case by (simp add: rest_at_def)
next
  case (Cons f fs)
  then obtain o1 where o1: "walk_field d off f = Some o1" "walk d o1 fs = Some off'"
    by (auto simp: bind_eq_Some_conv)
  obtain bs where bs: "field_wf f bs" "o1 = off + length bs" "rest_at d off (bs @ drop o1 d)"
    using walk_field_sound [OF o1(1) Cons.prems(2)] by blast
  have "o1 \<le> length d" using rest_at_append [OF bs(3)] bs(2) by (simp add: rest_at_def)
  then obtain bss where "list_all2 field_wf fs bss" "off' = o1 + length (concat bss)"
      "rest_at d o1 (concat bss @ drop off' d)"
    using Cons.IH [OF o1(2)] by blast
  then show ?case using bs by (intro exI [of _ "bs # bss"]) (simp add: rest_at_def)
qed

lemma walk_iff:
  "walk d 0 fs = Some n \<longleftrightarrow>
     (\<exists>bss. list_all2 field_wf fs bss \<and> n = length (concat bss) \<and> take n d = concat bss)"
proof
  assume "walk d 0 fs = Some n"
  then obtain bss where b: "list_all2 field_wf fs bss" "n = length (concat bss)" "d = concat bss @ drop n d"
    using walk_sound [of d 0 fs n] by (auto simp: rest_at_def)
  from b(3) have "take n d = take n (concat bss @ drop n d)" by (rule arg_cong)
  also have "\<dots> = concat bss" by (simp add: b(2))
  finally show "\<exists>bss. list_all2 field_wf fs bss \<and> n = length (concat bss) \<and> take n d = concat bss"
    using b(1,2) by blast
next
  assume "\<exists>bss. list_all2 field_wf fs bss \<and> n = length (concat bss) \<and> take n d = concat bss"
  then obtain bss where b: "list_all2 field_wf fs bss" "n = length (concat bss)" "take n d = concat bss"
    by blast
  have "rest_at d 0 (concat bss @ drop n d)"
    using append_take_drop_id [of n d] b(3) by (simp add: rest_at_def)
  then show "walk d 0 fs = Some n" using walk_complete [OF b(1)] b(2) by simp
qed

lemma offset_or_neg_eq [simp]: "offset_or_neg r = int n \<longleftrightarrow> r = Some n"
  by (auto simp: offset_or_neg_def split: option.splits)

lemma offset_or_neg_cases: "offset_or_neg r = -1 \<or> (\<exists>n. r = Some n \<and> offset_or_neg r = int n)"
  by (auto simp: offset_or_neg_def split: option.splits)

lemma MandatoryBodyLen_range:
  obtains "MandatoryBodyLen cmd body = -1"
  | n where "MandatoryBodyLen cmd body = int n" "n \<le> length body"
proof (cases "mandatory_layout cmd")
  case None
  then show ?thesis using that(1) by (simp add: MandatoryBodyLen_walk)
next
  case (Some fs)
  show ?thesis
  proof (cases "cstring_only cmd \<and> body = []")
    case True
    then show ?thesis using Some that(2) [of 0] by (simp add: MandatoryBodyLen_walk)
  next
    case False
    then have m: "MandatoryBodyLen cmd body = offset_or_neg (walk body 0 fs)"
      using Some by (auto simp: MandatoryBodyLen_walk)
    have "n \<le> length body" if w: "walk body 0 fs = Some n" for n
      using w unfolding walk_iff by (metis length_take min.cobounded1)
    then show ?thesis using offset_or_neg_cases [of "walk body 0 fs"] that m by auto
  qed
qed

lemma MandatoryBodyLen_fields:
  assumes "mandatory_layout cmd = Some fs" and "list_all2 field_wf fs bss"
  shows "MandatoryBodyLen cmd (concat bss @ rest) = int (length (concat bss))"
proof -
  have "walk (concat bss @ rest) 0 fs = Some (length (concat bss))"
    unfolding walk_iff using assms(2) by auto
  moreover have "concat bss \<noteq> []" if "cstring_only cmd"
    using that assms by (auto simp: cstring_only_def list_all2_Cons1)
  ultimately show ?thesis using assms(1) by (simp add: MandatoryBodyLen_walk offset_or_neg_def)
qed

lemma ExtractTLVs_no_panic [no_panic]: "ExtractTLVs pdu \<noteq> None"
proof -
  have "slice_from (Body pdu) (nat (MandatoryBodyLen (CommandID pdu) (Body pdu))) \<noteq> None"
    by (rule MandatoryBodyLen_range [of "CommandID pdu" "Body pdu"]) (simp_all add: slice_from_def)
  then show ?thesis
    unfolding ExtractTLVs_def Let_def DecodeTLVs_def
    by (intro no_panic) (simp_all add: decodeTLVs_from_total)
qed

lemma ExtractTLVs_at:
  assumes "MandatoryBodyLen (CommandID pdu) (m @ tlv_wire (tlv_pairs t)) = int (length m)"
    and "Body pdu = m @ tlv_wire (tlv_pairs t)" and "tlvs_fit t"
  shows "ExtractTLVs pdu = Some (Inr (Some t))"
  using assms DecodeTLVs_Encode [OF assms(3)] DecodeTLVs_wire [of "[]"]
  by (auto simp: ExtractTLVs_def Let_def slice_from_def)

section \<open>Properties\<close>



text \<open>
  The offset never lies outside the body, so slicing the TLVs off never panics:
  \<^verbatim>\<open>ExtractTLVs\<close> returns on every PDU, and \<^verbatim>\<open>MandatoryBodyLen\<close> is \<open>-1\<close> or at most the length of the body.
\<close>

theorem mandatory_boundary_in_range:
  "ExtractTLVs pdu \<noteq> None \<and> -1 \<le> MandatoryBodyLen cmd body \<and>
   MandatoryBodyLen cmd body \<le> int (length body)"
  using MandatoryBodyLen_range [of cmd body] ExtractTLVs_no_panic [of pdu]
  by (metis int_one_le_iff_zero_less le_minus_one_simps(1) of_nat_0_le_iff of_nat_le_iff order_refl order_trans)

text \<open>
  C16. TLVs survive the proxy: if the mandatory parameters of a PDU are well-formed for its
  command and TLVs were attached, then encoding the PDU, decoding the bytes and extracting the
  TLVs of what was decoded returns exactly the TLVs that were attached.
\<close>

theorem tlvs_survive_wire:
  assumes "mandatory_layout (CommandID pdu) = Some fs" and "list_all2 field_wf fs bss"
    and "Body pdu = concat bss" and "TLVs pdu = Some t" and "tlvs_fit t" and "pdu_size pdu < 2 ^ 32"
  shows "\<exists>pdu' wire got. EncodePDU pdu = Some (pdu', wire) \<and> DecodePDU wire = Some (Inr got) \<and>
    ExtractTLVs got = Some (Inr (Some t))"
proof -
  have tb: "pdu_tlv_bytes pdu = tlv_wire (tlv_pairs t)" using assms(4) by (simp add: pdu_tlv_bytes_def)
  have "DecodePDU (pdu_header (of_nat (pdu_size pdu)) pdu @ Body pdu @ pdu_tlv_bytes pdu) =
      Some (Inr (pdu\<lparr>CommandLength := of_nat (pdu_size pdu), Body := Body pdu @ pdu_tlv_bytes pdu, TLVs := None\<rparr>))"
    using DecodePDU_header [of "Body pdu @ pdu_tlv_bytes pdu" "[]" pdu] assms(6)
    by (simp add: pdu_size_def add.assoc)
  moreover have "ExtractTLVs (pdu\<lparr>CommandLength := of_nat (pdu_size pdu), Body := Body pdu @ pdu_tlv_bytes pdu,
      TLVs := None\<rparr>) = Some (Inr (Some t))"
    using MandatoryBodyLen_fields [OF assms(1,2)] assms(3,5) by (intro ExtractTLVs_at [of _ "Body pdu"]) (simp_all add: tb)
  ultimately show ?thesis using EncodePDU_eq [OF assms(6)] by auto
qed

theorem tlvs_survive_wire_witness:
  "\<exists>pdu' wire got. EncodePDU \<lparr>CommandLength = 0, CommandID = CmdQuerySM, CommandStatus = 0,
      SequenceNumber = 1, Body = [49, 50, 0, 1, 1, 65, 0], TLVs = Some (SetUint8 fmempty 0x0210 0x50)\<rparr> =
      Some (pdu', wire) \<and> DecodePDU wire = Some (Inr got) \<and>
    ExtractTLVs got = Some (Inr (Some (SetUint8 fmempty 0x0210 0x50)))"
  by (rule tlvs_survive_wire [where fs = "[CStr, Fixed 2, CStr]" and bss = "[[49, 50, 0], [1, 1], [65, 0]]"])
    (simp_all add: mandatory_layout_def tlvs_fit_def tlv_fits_def SetUint8_def pdu_size_def pdu_tlv_bytes_def
      tlv_pairs_def tlv_wire_def enc_tlv_def tlv_value_def sorted_list_of_fset.rep_eq)

end
