(* ===== verification/Utf8.thy ===== *)
theory Utf8
  imports Go_Prelude
begin

text \<open>
  What the program uses of Go's UTF-8 text handling: ranging over a string, the conversion of
  runes back to a string, and the functions of \<^verbatim>\<open>strings\<close> and \<^verbatim>\<open>encoding/json\<close> that see text as
  runes. A rune is a natural number. Ranging over bytes that are not valid UTF-8 gives the
  replacement rune \<open>U+FFFD\<close> for one byte at a time, as the language defines.
\<close>

type_synonym rune = nat

abbreviation RuneError :: rune where "RuneError \<equiv> 0xFFFD"

definition is_cont :: "byte \<Rightarrow> bool" where
  "is_cont b \<longleftrightarrow> unat b div 64 = 2"

definition cont_bits :: "byte \<Rightarrow> nat" where
  "cont_bits b = unat b mod 64"

text \<open>
  The first rune of a non-empty string and the number of bytes it takes. A sequence is valid
  only in its shortest form, and not for a surrogate or beyond \<open>U+10FFFF\<close>.
\<close>

definition valid_rune :: "rune \<Rightarrow> bool" where
  "valid_rune r \<longleftrightarrow> r < 0xD800 \<or> (0xE000 \<le> r \<and> r \<le> 0x10FFFF)"

fun decode2 :: "byte \<Rightarrow> bytes \<Rightarrow> rune option" where
  "decode2 b0 (b1 # _) =
     (let r = unat b0 mod 32 * 64 + cont_bits b1 in
      if unat b0 div 32 = 6 \<and> is_cont b1 \<and> 0x80 \<le> r then Some r else None)"
| "decode2 b0 _ = None"

fun decode3 :: "byte \<Rightarrow> bytes \<Rightarrow> rune option" where
  "decode3 b0 (b1 # b2 # _) =
     (let r = unat b0 mod 16 * 4096 + cont_bits b1 * 64 + cont_bits b2 in
      if unat b0 div 16 = 14 \<and> is_cont b1 \<and> is_cont b2 \<and> 0x800 \<le> r \<and> valid_rune r
      then Some r else None)"
| "decode3 b0 _ = None"

fun decode4 :: "byte \<Rightarrow> bytes \<Rightarrow> rune option" where
  "decode4 b0 (b1 # b2 # b3 # _) =
     (let r = unat b0 mod 8 * 262144 + cont_bits b1 * 4096 + cont_bits b2 * 64 + cont_bits b3 in
      if unat b0 div 8 = 30 \<and> is_cont b1 \<and> is_cont b2 \<and> is_cont b3 \<and> 0x10000 \<le> r \<and> valid_rune r
      then Some r else None)"
| "decode4 b0 _ = None"

definition decode_rune :: "byte \<Rightarrow> bytes \<Rightarrow> rune \<times> nat" where
  "decode_rune b0 bs =
     (if unat b0 < 0x80 then (unat b0, 1)
      else case decode2 b0 bs of Some r \<Rightarrow> (r, 2)
      | None \<Rightarrow> (case decode3 b0 bs of Some r \<Rightarrow> (r, 3)
      | None \<Rightarrow> (case decode4 b0 bs of Some r \<Rightarrow> (r, 4)
      | None \<Rightarrow> (RuneError, 1))))"

definition encode_rune :: "rune \<Rightarrow> bytes" where
  "encode_rune r =
     (if r < 0x80 then [of_nat r]
      else if r < 0x800 then [of_nat (0xC0 + r div 64), of_nat (0x80 + r mod 64)]
      else if \<not> valid_rune r then [0xEF, 0xBF, 0xBD]
      else if r < 0x10000 then
        [of_nat (0xE0 + r div 4096), of_nat (0x80 + r div 64 mod 64), of_nat (0x80 + r mod 64)]
      else
        [of_nat (0xF0 + r div 262144), of_nat (0x80 + r div 4096 mod 64),
         of_nat (0x80 + r div 64 mod 64), of_nat (0x80 + r mod 64)])"

text \<open>\<^verbatim>\<open>for _, r := range s\<close>: the runes of a string with the bytes each was read from.\<close>

function range_runes :: "gostring \<Rightarrow> (rune \<times> bytes) list" where
  "range_runes [] = []"
| "range_runes (b # bs) =
     (let (r, w) = decode_rune b bs in (r, b # take (w - 1) bs) # range_runes (drop (w - 1) bs))"
  by pat_completeness auto
termination
  by (relation "measure length") auto

declare range_runes.simps(2) [simp del]

definition runes :: "gostring \<Rightarrow> rune list" where
  "runes s = map fst (range_runes s)"

text \<open>\<^verbatim>\<open>string(rs)\<close> for a slice of runes.\<close>

definition string_of_runes :: "rune list \<Rightarrow> gostring" where
  "string_of_runes rs = concat (map encode_rune rs)"

text \<open>A string is valid UTF-8 when no byte of it decodes to the replacement of an error.\<close>

definition valid_utf8 :: "gostring \<Rightarrow> bool" where
  "valid_utf8 s = list_all (\<lambda>(r, bs). encode_rune r = bs) (range_runes s)"

text \<open>\<^verbatim>\<open>encoding/json\<close> writes a string as its runes, so invalid bytes come back as \<open>U+FFFD\<close>.\<close>

definition json_string :: "gostring \<Rightarrow> gostring" where
  "json_string s = string_of_runes (runes s)"

section \<open>Round trips\<close>

lemma unat_byte: "n < 256 \<Longrightarrow> unat (of_nat n :: byte) = n"
  by (simp add: unat_of_nat)

lemma unat_byte_less: "unat (b :: byte) < 256"
  using unsigned_less [where ?'a = nat, of b] by simp

lemma cont_byte:
  assumes "m < 64"
  shows "is_cont (of_nat (0x80 + m))" "cont_bits (of_nat (0x80 + m)) = m"
proof -
  have u: "unat (of_nat (0x80 + m) :: byte) = 0x80 + m" using assms by (intro unat_byte) simp
  have "(0x80 + m) div 64 = 2" "(0x80 + m) mod 64 = m"
    using assms by (simp_all add: div_nat_eqI mod_nat_eqI)
  then show "is_cont (of_nat (0x80 + m))" "cont_bits (of_nat (0x80 + m)) = m"
    unfolding is_cont_def cont_bits_def u by simp_all
qed

lemma base64_digits:
  fixes r :: nat
  shows "r div 64 * 64 + r mod 64 = r"
    and "r div 4096 * 4096 + r div 64 mod 64 * 64 + r mod 64 = r"
    and "r div 262144 * 262144 + r div 4096 mod 64 * 4096 + r div 64 mod 64 * 64 + r mod 64 = r"
proof -
  have d: "r = r div 64 * 64 + r mod 64" "r div 64 = r div 64 div 64 * 64 + r div 64 mod 64"
    "r div 64 div 64 = r div 64 div 64 div 64 * 64 + r div 64 div 64 mod 64"
    by simp_all
  have e: "r div 64 div 64 = r div 4096" "r div 4096 div 64 = r div 262144"
    by (simp_all add: div_mult2_eq [symmetric])
  show "r div 64 * 64 + r mod 64 = r" using d(1) by linarith
  show "r div 4096 * 4096 + r div 64 mod 64 * 64 + r mod 64 = r" using d(1,2) e by linarith
  show "r div 262144 * 262144 + r div 4096 mod 64 * 4096 + r div 64 mod 64 * 64 + r mod 64 = r"
    using d(1) d(2,3) [unfolded e] by linarith
qed

lemma encode_rune_cases:
  assumes "valid_rune r"
  obtains "r < 0x80" "encode_rune r = [of_nat r]"
  | "0x80 \<le> r" "r < 0x800" "encode_rune r = [of_nat (0xC0 + r div 64), of_nat (0x80 + r mod 64)]"
  | "0x800 \<le> r" "r < 0x10000" "encode_rune r =
      [of_nat (0xE0 + r div 4096), of_nat (0x80 + r div 64 mod 64), of_nat (0x80 + r mod 64)]"
  | "0x10000 \<le> r" "r \<le> 0x10FFFF" "encode_rune r =
      [of_nat (0xF0 + r div 262144), of_nat (0x80 + r div 4096 mod 64),
       of_nat (0x80 + r div 64 mod 64), of_nat (0x80 + r mod 64)]"
proof -
  consider "r < 0x80" | "0x80 \<le> r" "r < 0x800" | "0x800 \<le> r" "r < 0x10000" | "0x10000 \<le> r" by linarith
  then show thesis
    using assms that by cases (simp_all only: encode_rune_def valid_rune_def, auto)
qed

lemma decode_encode_rune:
  assumes "valid_rune r"
  shows "\<exists>b bs. encode_rune r = b # bs \<and> decode_rune b (bs @ rest) = (r, length (encode_rune r))"
  using assms
proof (cases rule: encode_rune_cases)
  case 1
  then show ?thesis using unat_byte [of r] by (simp add: decode_rune_def)
next
  case 2
  let ?q = "r div 64"
  have "?q < 32" using 2 by (simp add: div_less_iff_less_mult)
  then have u: "unat (of_nat (0xC0 + ?q) :: byte) = 0xC0 + ?q" by (intro unat_byte) simp
  have "(0xC0 + ?q) div 32 = 6" "(0xC0 + ?q) mod 32 = ?q" using \<open>?q < 32\<close> by (simp_all add: div_nat_eqI mod_nat_eqI)
  then have "decode2 (of_nat (0xC0 + ?q)) (of_nat (0x80 + r mod 64) # rest) = Some r"
    using cont_byte [of "r mod 64"] 2 by (simp only: decode2.simps u Let_def) simp
  then show ?thesis using 2(3) u by (simp add: decode_rune_def)
next
  case 3
  let ?q = "r div 4096"
  have "?q < 16" using 3 by (simp add: div_less_iff_less_mult)
  then have u: "unat (of_nat (0xE0 + ?q) :: byte) = 0xE0 + ?q" by (intro unat_byte) simp
  have q: "(0xE0 + ?q) div 32 = 7" "(0xE0 + ?q) div 16 = 14" "(0xE0 + ?q) mod 16 = ?q"
    using \<open>?q < 16\<close> by (simp_all add: div_nat_eqI mod_nat_eqI)
  note digits = base64_digits(2) [of r]
  have "decode3 (of_nat (0xE0 + ?q)) (of_nat (0x80 + r div 64 mod 64) # of_nat (0x80 + r mod 64) # rest) = Some r"
    using cont_byte [of "r mod 64"] cont_byte [of "r div 64 mod 64"] 3 q assms
    by (simp only: decode3.simps u Let_def) (simp add: digits)
  moreover have "decode2 (of_nat (0xE0 + ?q)) (x # ys) = None" for x ys
    by (simp only: decode2.simps u Let_def q) simp
  ultimately show ?thesis using 3(3) u by (simp add: decode_rune_def)
next
  case 4
  let ?q = "r div 262144"
  have "?q < 5" using 4 by (simp add: div_less_iff_less_mult)
  then have u: "unat (of_nat (0xF0 + ?q) :: byte) = 0xF0 + ?q" by (intro unat_byte) simp
  have q: "(0xF0 + ?q) div 32 = 7" "(0xF0 + ?q) div 16 = 15" "(0xF0 + ?q) div 8 = 30" "(0xF0 + ?q) mod 8 = ?q"
    using \<open>?q < 5\<close> by (simp_all add: div_nat_eqI mod_nat_eqI)
  note digits = base64_digits(3) [of r]
  have "decode4 (of_nat (0xF0 + ?q)) (of_nat (0x80 + r div 4096 mod 64) #
      of_nat (0x80 + r div 64 mod 64) # of_nat (0x80 + r mod 64) # rest) = Some r"
    using cont_byte [of "r mod 64"] cont_byte [of "r div 64 mod 64"] cont_byte [of "r div 4096 mod 64"] 4 q assms
    by (simp only: decode4.simps u Let_def) (simp add: digits)
  moreover have "decode2 (of_nat (0xF0 + ?q)) (x # ys) = None" "decode3 (of_nat (0xF0 + ?q)) (x # y # ys) = None" for x y ys
    by (simp_all only: decode2.simps decode3.simps u Let_def q) simp_all
  ultimately show ?thesis using 4(3) u by (simp add: decode_rune_def)
qed

lemma encode_rune_Cons: "\<exists>b bs. encode_rune r = b # bs"
  by (simp add: encode_rune_def)

lemma range_runes_encode:
  assumes "valid_rune r"
  shows "range_runes (encode_rune r @ s) = (r, encode_rune r) # range_runes s"
proof -
  obtain b bs where b: "encode_rune r = b # bs" "decode_rune b (bs @ s) = (r, length (encode_rune r))"
    using decode_encode_rune [OF assms, of s] by blast
  then show ?thesis by (simp add: range_runes.simps(2))
qed

lemma runes_string_of_runes: "list_all valid_rune rs \<Longrightarrow> runes (string_of_runes rs) = rs"
  by (induction rs) (simp_all add: runes_def string_of_runes_def range_runes_encode)

lemma concat_range_runes: "concat (map snd (range_runes s)) = s"
proof (induction s rule: range_runes.induct)
  case (2 b bs)
  then show ?case by (cases "decode_rune b bs") (simp add: range_runes.simps(2))
qed simp

lemma json_string_valid: "valid_utf8 s \<Longrightarrow> json_string s = s"
proof -
  assume "valid_utf8 s"
  then have "map encode_rune (map fst (range_runes s)) = map snd (range_runes s)"
    by (auto simp: valid_utf8_def list_all_iff)
  then show ?thesis
    using concat_range_runes [of s] unfolding json_string_def string_of_runes_def runes_def by metis
qed

lemma decode_rune_valid: "valid_rune (fst (decode_rune b bs))"
proof -
  have "valid_rune r" if "decode2 b bs = Some r" for r
    using that unat_byte_less [of b]
    by (cases bs) (auto simp: Let_def valid_rune_def cont_bits_def split: if_splits
        intro: order_less_le_trans [of _ "32 * 64"])
  moreover have "valid_rune r" if "decode3 b bs = Some r \<or> decode4 b bs = Some r" for r
    using that by (cases "(b, bs)" rule: decode3.cases; cases "(b, bs)" rule: decode4.cases)
      (auto simp: Let_def split: if_splits)
  ultimately show ?thesis
    by (auto simp: decode_rune_def valid_rune_def split: option.splits)
qed

lemma runes_valid: "list_all valid_rune (runes s)"
proof (induction s rule: range_runes.induct)
  case (2 b bs)
  then show ?case
    using decode_rune_valid [of b bs] by (cases "decode_rune b bs") (simp add: range_runes.simps(2) runes_def)
qed (simp add: runes_def)

lemma json_string_idem [simp]: "json_string (json_string s) = json_string s"
  by (simp add: json_string_def runes_string_of_runes runes_valid)

lemma range_runes_ascii:
  "list_all (\<lambda>b. unat b < 128) s \<Longrightarrow> range_runes s = map (\<lambda>b. (unat b, [b])) s"
  by (induction s) (simp_all add: range_runes.simps(2) decode_rune_def)

lemma json_string_ascii: "list_all (\<lambda>b. unat b < 128) s \<Longrightarrow> json_string s = s"
proof (induction s)
  case (Cons b s)
  then show ?case
    by (simp add: json_string_def string_of_runes_def runes_def range_runes_ascii encode_rune_def)
qed (simp add: json_string_def string_of_runes_def runes_def)

lemma json_string_Nil [simp]: "json_string [] = []"
  by (simp add: json_string_ascii)

section \<open>Synchronisation\<close>

text \<open>
  Decoding is self-synchronising: a rune that was read without an error is read the same
  whatever follows it, and a byte that does not continue a sequence starts a new one.
\<close>

lemma lead_noncont:
  assumes "unat b div 32 = 6 \<or> unat b div 16 = 14 \<or> unat b div 8 = 30"
  shows "\<not> is_cont b"
proof
  assume "is_cont b"
  then have "unat b div 64 = 2" by (simp add: is_cont_def)
  then have "unat b < 192"
    using div_mult_mod_eq [of "unat b" 64] mod_less_divisor [of 64 "unat b"] by linarith
  moreover have "192 \<le> unat b"
    using assms div_mult_mod_eq [of "unat b" 32] div_mult_mod_eq [of "unat b" 16] div_mult_mod_eq [of "unat b" 8]
    by linarith
  ultimately show False by simp
qed

lemma decode_rune_ok:
  assumes "decode_rune b bs = (r, w)" and "r \<noteq> RuneError"
  shows "w - 1 \<le> length bs \<and> decode_rune b (take (w - 1) bs @ y) = (r, w) \<and> \<not> is_cont b"
proof (cases "unat b < 0x80")
  case True
  then show ?thesis using assms by (auto simp: decode_rune_def is_cont_def)
next
  case False
  consider (two) "decode2 b bs = Some r" "w = 2" | (three) "decode2 b bs = None" "decode3 b bs = Some r" "w = 3"
    | (four) "decode2 b bs = None" "decode3 b bs = None" "decode4 b bs = Some r" "w = 4"
    using assms False by (auto simp: decode_rune_def split: option.splits)
  then show ?thesis
  proof cases
    case two
    then obtain b1 bs' where "bs = b1 # bs'" by (cases bs) auto
    with two False lead_noncont [of b] show ?thesis
      by (auto simp: decode_rune_def Let_def split: if_splits)
  next
    case three
    then obtain b1 b2 bs' where "bs = b1 # b2 # bs'" by (cases "(b, bs)" rule: decode3.cases) auto
    with three False lead_noncont [of b] show ?thesis
      by (auto simp: decode_rune_def Let_def split: if_splits)
  next
    case four
    then obtain b1 b2 b3 bs' where "bs = b1 # b2 # b3 # bs'" by (cases "(b, bs)" rule: decode4.cases) auto
    with four False lead_noncont [of b] show ?thesis
      by (auto simp: decode_rune_def Let_def split: if_splits)
  qed
qed

lemma decode_lengths:
  "decode2 b bs = Some r \<Longrightarrow> 1 \<le> length bs" "decode3 b bs = Some r \<Longrightarrow> 2 \<le> length bs"
  "decode4 b bs = Some r \<Longrightarrow> 3 \<le> length bs"
  by (cases "(b, bs)" rule: decode2.cases, simp_all) (cases "(b, bs)" rule: decode3.cases, simp_all,
    cases "(b, bs)" rule: decode4.cases, simp_all)

lemma decode_rune_width: "snd (decode_rune b bs) - 1 \<le> length bs"
  using decode_lengths [of b bs] by (auto simp: decode_rune_def split: option.splits)

lemma decode_rune_noncont:
  assumes "y = [] \<or> \<not> is_cont (hd y)"
  shows "decode_rune b (bs @ y) = decode_rune b bs"
proof -
  have "decode2 b (bs @ y) = decode2 b bs"
    using assms by (cases bs; cases y) (auto simp: Let_def)
  moreover have "decode3 b (bs @ y) = decode3 b bs"
    using assms by (cases "(b, bs)" rule: decode3.cases; cases y; cases "tl y") (auto simp: Let_def)
  moreover have "decode4 b (bs @ y) = decode4 b bs"
    using assms by (cases "(b, bs)" rule: decode4.cases; cases "(b, y)" rule: decode4.cases) (auto simp: Let_def)
  ultimately show ?thesis by (auto simp: decode_rune_def split: option.split)
qed

lemma range_runes_mem:
  "(r, bs) \<in> set (range_runes s) \<Longrightarrow> \<exists>b s' w. decode_rune b s' = (r, w) \<and> bs = b # take (w - 1) s'"
proof (induction s rule: range_runes.induct)
  case (2 b s')
  obtain r' w where d: "decode_rune b s' = (r', w)" by fastforce
  show ?case
  proof (cases "(r, bs) = (r', b # take (w - 1) s')")
    case True
    then show ?thesis using d by blast
  next
    case False
    then have "(r, bs) \<in> set (range_runes (drop (w - 1) s'))"
      using 2(2) d by (auto simp: range_runes.simps(2))
    then show ?thesis using 2(1) d by simp
  qed
qed simp

lemma range_runes_ok_append:
  assumes "(r, bs) \<in> set (range_runes s)" and "r \<noteq> RuneError"
  shows "range_runes (bs @ y) = (r, bs) # range_runes y" and "bs \<noteq> []" and "\<not> is_cont (hd bs)"
proof -
  obtain b s' w where d: "decode_rune b s' = (r, w)" "bs = b # take (w - 1) s'"
    using range_runes_mem [OF assms(1)] by blast
  note ok = decode_rune_ok [OF d(1) assms(2), of y]
  show "range_runes (bs @ y) = (r, bs) # range_runes y"
    using d ok by (simp add: range_runes.simps(2))
  show "bs \<noteq> []" "\<not> is_cont (hd bs)" using d ok by simp_all
qed

lemma range_runes_noncont:
  assumes "y = [] \<or> \<not> is_cont (hd y)"
  shows "range_runes (s @ y) = range_runes s @ range_runes y"
proof (induction s rule: range_runes.induct)
  case (2 b s')
  obtain r w where d: "decode_rune b s' = (r, w)" by fastforce
  have "decode_rune b (s' @ y) = (r, w)" "w - 1 \<le> length s'"
    using decode_rune_noncont [OF assms, of b s'] decode_rune_width [of b s'] d by simp_all
  then show ?case using 2 d by (simp add: range_runes.simps(2))
qed simp

lemma range_runes_list_append:
  "list_all (\<lambda>p. p \<in> set (range_runes s) \<and> fst p \<noteq> RuneError) L \<Longrightarrow>
   range_runes (concat (map snd L) @ y) = L @ range_runes y"
  by (induction L) (auto simp: range_runes_ok_append)

lemma range_runes_ascii_byte:
  assumes "(r, bs) \<in> set (range_runes s)" and "r \<noteq> RuneError" and "x \<in> set bs" and "unat x < 128"
  shows "r = unat x"
proof -
  obtain b s' w where d: "decode_rune b s' = (r, w)" "bs = b # take (w - 1) s'"
    using range_runes_mem [OF assms(1)] by blast
  have cont: "128 \<le> unat c" if "is_cont c" for c
    using that div_mult_mod_eq [of "unat c" 64] unfolding is_cont_def by linarith
  show ?thesis
  proof (cases "unat b < 128")
    case True
    then show ?thesis using d assms(3) by (simp add: decode_rune_def)
  next
    case False
    have "128 \<le> unat c" if "c \<in> set (take (w - 1) s')" for c
      using d(1) that False assms(2) cont
      by (cases "(b, s')" rule: decode4.cases; cases "(b, s')" rule: decode3.cases)
        (auto simp: decode_rune_def Let_def split: option.splits if_splits)
    then have "128 \<le> unat x" using assms(3) d(2) False by (metis not_less set_ConsD)
    then show ?thesis using assms(4) by simp
  qed
qed

end
