(* ===== verification/Pool_Manager.thy ===== *)
theory Pool_Manager
  imports Go_Prelude
begin

text \<open>
  The southbound pools by name: \<^verbatim>\<open>gateway/pool_manager.go\<close>, with the \<^verbatim>\<open>Submitter\<close> interface of
  \<^verbatim>\<open>gateway/submitter.go\<close> and its one implementation \<^verbatim>\<open>gateway/smpp_submitter.go\<close>.

  The manager holds pointers to connection pools, under a name, in two maps that share them.
  The type \<open>'p\<close> stands for such a pointer, and \<open>live\<close>, an argument of the operations that ask
  for it, is the number of bound connections the pool behind a pointer has at that moment.
  \<open>connect\<close>, an argument of \<open>Add\<close>, is the result of creating and connecting a pool. Go leaves
  the iteration order over a map open: \<open>ord\<close> is the order the runtime takes over the keys.
\<close>

section \<open>Submitters\<close>

datatype 'p Submitter = SMPPSubmitter 'p

definition NewSMPPSubmitter :: "'p \<Rightarrow> 'p Submitter" where
  "NewSMPPSubmitter pool = SMPPSubmitter pool"

fun sub_ActiveConnections :: "('p \<Rightarrow> nat) \<Rightarrow> 'p Submitter \<Rightarrow> nat" where
  "sub_ActiveConnections live (SMPPSubmitter pool) = live pool"

fun IsHealthy :: "('p \<Rightarrow> nat) \<Rightarrow> 'p Submitter \<Rightarrow> bool" where
  "IsHealthy live (SMPPSubmitter pool) = (0 < live pool)"

fun sub_pool :: "'p Submitter \<Rightarrow> 'p" where
  "sub_pool (SMPPSubmitter pool) = pool"

section \<open>Configuration\<close>

datatype BindMode = BindTransceiver | BindTransmitter | BindReceiver

record SouthboundPoolConfig =
  sp_Name :: gostring
  sp_Host :: gostring
  sp_Port :: int
  sp_SystemID :: gostring
  sp_Password :: gostring
  sp_SourceAddr :: gostring
  sp_Connections :: int
  sp_WindowSize :: int
  sp_TLSEnabled :: bool
  sp_TLSInsecureSkipVerify :: bool
  sp_BindMode :: gostring
  sp_InterfaceVersion :: gostring

record PoolHealth =
  ph_Name :: gostring
  ph_ActiveConnections :: nat
  Healthy :: bool

record 'p PoolManager =
  pools :: "(gostring, 'p) fmap"
  submitters :: "(gostring, 'p Submitter) fmap"
  configs :: "(gostring, SouthboundPoolConfig) fmap"

text \<open>The fields of \<^verbatim>\<open>smpp.Config\<close> and \<^verbatim>\<open>smpp.PoolConfig\<close> that \<^verbatim>\<open>addSMPP\<close> derives.\<close>

record smpp_pool_params =
  pp_config :: SouthboundPoolConfig
  pp_SourceAddrTON :: byte
  pp_SourceAddrNPI :: byte
  pp_EnquireLinkSec :: int
  pp_BindMode :: BindMode
  pp_InterfaceVersion :: byte
  pp_Connections :: int
  pp_WindowSize :: int
  pp_DeliverWorkers :: int
  pp_DeliverQueueSize :: int
  pp_SubmitTimeoutSec :: int

datatype pool_error =
    PoolExists gostring
  | ConnectPool gostring
  | PoolNotFound gostring

section \<open>Operations\<close>

definition NewPoolManager :: "'p PoolManager" where
  "NewPoolManager = \<lparr>pools = fmempty, submitters = fmempty, configs = fmempty\<rparr>"

definition smpp_params :: "SouthboundPoolConfig \<Rightarrow> smpp_pool_params" where
  "smpp_params cfg =
     \<lparr>pp_config = cfg, pp_SourceAddrTON = 0x05, pp_SourceAddrNPI = 0x00, pp_EnquireLinkSec = 30,
      pp_BindMode = (if sp_BindMode cfg = lit ''transmitter'' then BindTransmitter
                     else if sp_BindMode cfg = lit ''receiver'' then BindReceiver
                     else BindTransceiver),
      pp_InterfaceVersion = (if sp_InterfaceVersion cfg = lit ''5.0'' then 0x50 else 0x34),
      pp_Connections = (if sp_Connections cfg \<le> 0 then 2 else sp_Connections cfg),
      pp_WindowSize = (if sp_WindowSize cfg \<le> 0 then 10 else sp_WindowSize cfg),
      pp_DeliverWorkers = 16, pp_DeliverQueueSize = 25000, pp_SubmitTimeoutSec = 60\<rparr>"

definition addSMPP :: "(smpp_pool_params \<Rightarrow> 'p option) \<Rightarrow> 'p PoolManager \<Rightarrow> SouthboundPoolConfig \<Rightarrow>
    'p PoolManager \<times> pool_error option" where
  "addSMPP connect pm cfg =
     (case connect (smpp_params cfg) of
        None \<Rightarrow> (pm, Some (ConnectPool (sp_Name cfg)))
      | Some pool \<Rightarrow>
          (let sub = NewSMPPSubmitter pool in
           (pm\<lparr>pools := fmupd (sp_Name cfg) pool (pools pm),
               submitters := fmupd (sp_Name cfg) sub (submitters pm),
               configs := fmupd (sp_Name cfg) cfg (configs pm)\<rparr>, None)))"

definition Add :: "(smpp_pool_params \<Rightarrow> 'p option) \<Rightarrow> 'p PoolManager \<Rightarrow> SouthboundPoolConfig \<Rightarrow>
    'p PoolManager \<times> pool_error option" where
  "Add connect pm cfg =
     (if fmlookup (submitters pm) (sp_Name cfg) \<noteq> None then (pm, Some (PoolExists (sp_Name cfg)))
      else if fmlookup (pools pm) (sp_Name cfg) \<noteq> None then (pm, Some (PoolExists (sp_Name cfg)))
      else addSMPP connect pm cfg)"

definition pm_Get :: "'p PoolManager \<Rightarrow> gostring \<Rightarrow> 'p option" where
  "pm_Get pm name = fmlookup (pools pm) name"

definition GetSubmitter :: "'p PoolManager \<Rightarrow> gostring \<Rightarrow> 'p Submitter option" where
  "GetSubmitter pm name = fmlookup (submitters pm) name"

text \<open>\<open>Remove\<close> and \<open>Close\<close> also return the pools they close.\<close>

definition Remove :: "'p PoolManager \<Rightarrow> gostring \<Rightarrow> 'p PoolManager \<times> 'p list \<times> pool_error option" where
  "Remove pm name =
     (case fmlookup (submitters pm) name of
        None \<Rightarrow>
          (case fmlookup (pools pm) name of
             None \<Rightarrow> (pm, [], Some (PoolNotFound name))
           | Some p \<Rightarrow>
               (pm\<lparr>pools := fmdrop name (pools pm), configs := fmdrop name (configs pm)\<rparr>, [p], None))
      | Some sub \<Rightarrow>
          (pm\<lparr>submitters := fmdrop name (submitters pm), pools := fmdrop name (pools pm),
              configs := fmdrop name (configs pm)\<rparr>, [sub_pool sub], None))"

definition Health :: "('p \<Rightarrow> nat) \<Rightarrow> 'p PoolManager \<Rightarrow> gostring \<Rightarrow> PoolHealth" where
  "Health live pm name =
     (case fmlookup (submitters pm) name of
        Some sub \<Rightarrow> \<lparr>ph_Name = name, ph_ActiveConnections = sub_ActiveConnections live sub,
                     Healthy = IsHealthy live sub\<rparr>
      | None \<Rightarrow>
          (case fmlookup (pools pm) name of
             None \<Rightarrow> \<lparr>ph_Name = name, ph_ActiveConnections = 0, Healthy = False\<rparr>
           | Some p \<Rightarrow> \<lparr>ph_Name = name, ph_ActiveConnections = live p, Healthy = (0 < live p)\<rparr>))"

definition AllHealth :: "(gostring fset \<Rightarrow> gostring list) \<Rightarrow> ('p \<Rightarrow> nat) \<Rightarrow> 'p PoolManager \<Rightarrow> PoolHealth list" where
  "AllHealth ord live pm =
     map (\<lambda>name. \<lparr>ph_Name = name,
            ph_ActiveConnections = sub_ActiveConnections live (the (fmlookup (submitters pm) name)),
            Healthy = IsHealthy live (the (fmlookup (submitters pm) name))\<rparr>) (ord (fmdom (submitters pm))) @
     map (\<lambda>name. \<lparr>ph_Name = name, ph_ActiveConnections = live (the (fmlookup (pools pm) name)),
            Healthy = (0 < live (the (fmlookup (pools pm) name)))\<rparr>)
       (filter (\<lambda>name. name |\<notin>| fmdom (submitters pm)) (ord (fmdom (pools pm))))"

record PoolListEntry =
  pl_Name :: gostring
  pl_Host :: gostring
  pl_Port :: int
  pl_SystemID :: gostring
  pl_Connections :: int
  pl_WindowSize :: int
  pl_BindMode :: gostring
  pl_InterfaceVersion :: gostring
  pl_ActiveConnections :: nat
  pl_Healthy :: bool

text \<open>The entry for one pool: the zero values, overwritten when there is a configuration.\<close>

definition list_entry :: "gostring \<Rightarrow> nat \<Rightarrow> bool \<Rightarrow> SouthboundPoolConfig option \<Rightarrow> PoolListEntry" where
  "list_entry name active healthy cfg =
     (let entry = \<lparr>pl_Name = name, pl_Host = [], pl_Port = 0, pl_SystemID = [], pl_Connections = 0,
            pl_WindowSize = 0, pl_BindMode = [], pl_InterfaceVersion = [],
            pl_ActiveConnections = active, pl_Healthy = healthy\<rparr>
      in case cfg of None \<Rightarrow> entry
         | Some cfg \<Rightarrow> entry\<lparr>pl_Host := sp_Host cfg, pl_Port := sp_Port cfg, pl_SystemID := sp_SystemID cfg,
             pl_Connections := sp_Connections cfg, pl_WindowSize := sp_WindowSize cfg,
             pl_BindMode := sp_BindMode cfg, pl_InterfaceVersion := sp_InterfaceVersion cfg\<rparr>)"

definition ListWithHealth :: "(gostring fset \<Rightarrow> gostring list) \<Rightarrow> ('p \<Rightarrow> nat) \<Rightarrow> 'p PoolManager \<Rightarrow> PoolListEntry list" where
  "ListWithHealth ord live pm =
     (let result =
        map (\<lambda>name. let sub = the (fmlookup (submitters pm) name) in
              list_entry name (sub_ActiveConnections live sub) (IsHealthy live sub) (fmlookup (configs pm) name))
          (ord (fmdom (submitters pm))) @
        map (\<lambda>name. let p = the (fmlookup (pools pm) name) in
              list_entry name (live p) (0 < live p) (fmlookup (configs pm) name))
          (filter (\<lambda>name. name |\<notin>| fmdom (submitters pm)) (ord (fmdom (pools pm))))
      in sort_slice (\<lambda>a b. pl_Name a < pl_Name b) result)"

definition GetConfig :: "'p PoolManager \<Rightarrow> gostring \<Rightarrow> SouthboundPoolConfig option" where
  "GetConfig pm name = fmlookup (configs pm) name"

definition Names :: "(gostring fset \<Rightarrow> gostring list) \<Rightarrow> 'p PoolManager \<Rightarrow> gostring list" where
  "Names ord pm = ord (fmdom (submitters pm)) @
     filter (\<lambda>n. n |\<notin>| fmdom (submitters pm)) (ord (fmdom (pools pm)))"

definition PoolNames :: "(gostring fset \<Rightarrow> gostring list) \<Rightarrow> 'p PoolManager \<Rightarrow> gostring list" where
  "PoolNames ord pm = sort_slice (<) (Names ord pm)"

definition pm_Close :: "(gostring fset \<Rightarrow> gostring list) \<Rightarrow> 'p PoolManager \<Rightarrow> 'p PoolManager \<times> 'p list" where
  "pm_Close ord pm =
     (\<lparr>pools = fmempty, submitters = fmempty, configs = fmempty\<rparr>,
      map (\<lambda>n. sub_pool (the (fmlookup (submitters pm) n))) (ord (fmdom (submitters pm))) @
      map (\<lambda>n. the (fmlookup (pools pm) n))
        (filter (\<lambda>n. n |\<notin>| fmdom (submitters pm)) (ord (fmdom (pools pm)))))"

section \<open>Reachable managers\<close>

inductive pm_reachable :: "'p PoolManager \<Rightarrow> bool" where
  pm_new: "pm_reachable NewPoolManager"
| pm_add: "pm_reachable pm \<Longrightarrow> pm_reachable (fst (Add connect pm cfg))"
| pm_remove: "pm_reachable pm \<Longrightarrow> pm_reachable (fst (Remove pm name))"
| pm_close: "pm_reachable pm \<Longrightarrow> pm_reachable (fst (pm_Close ord pm))"

text \<open>The maps agree: a name has a pool exactly when it has a submitter, on that same pool.\<close>

definition wf_pm :: "'p PoolManager \<Rightarrow> bool" where
  "wf_pm pm \<longleftrightarrow> (\<forall>n. fmlookup (pools pm) n = map_option sub_pool (fmlookup (submitters pm) n)) \<and>
     fmdom (configs pm) = fmdom (submitters pm)"

lemma wf_pm_Add: "wf_pm pm \<Longrightarrow> wf_pm (fst (Add connect pm cfg))"
  by (auto simp: wf_pm_def Add_def addSMPP_def NewSMPPSubmitter_def Let_def split: option.splits)

lemma wf_pm_Remove: "wf_pm pm \<Longrightarrow> wf_pm (fst (Remove pm name))"
  by (auto simp: wf_pm_def Remove_def split: option.splits)

lemma pm_reachable_wf: "pm_reachable pm \<Longrightarrow> wf_pm pm"
  by (induction rule: pm_reachable.induct)
    (simp_all add: wf_pm_Add wf_pm_Remove, simp_all add: wf_pm_def NewPoolManager_def pm_Close_def)

lemma Health_iff:
  assumes "wf_pm pm"
  shows "Healthy (Health live pm name) \<longleftrightarrow>
    (\<exists>p. GetSubmitter pm name = Some (SMPPSubmitter p) \<and> pm_Get pm name = Some p \<and> 0 < live p)"
proof (cases "fmlookup (submitters pm) name")
  case None
  then have "fmlookup (pools pm) name = None" using assms by (simp add: wf_pm_def)
  then show ?thesis using None by (simp add: Health_def GetSubmitter_def)
next
  case (Some sub)
  then have "fmlookup (pools pm) name = Some (sub_pool sub)" using assms by (simp add: wf_pm_def)
  then show ?thesis using Some by (cases sub) (simp add: Health_def GetSubmitter_def pm_Get_def)
qed

definition map_key_order :: "(gostring fset \<Rightarrow> gostring list) \<Rightarrow> bool" where
  "map_key_order ord \<longleftrightarrow> (\<forall>S. set (ord S) = fset S \<and> distinct (ord S))"

lemma sort_slice_strict:
  assumes "distinct (xs :: gostring list)"
  shows "sort_slice (<) xs = sorted_list_of_set (set xs)"
proof (rule sorted_distinct_set_unique)
  have "sorted_wrt (\<lambda>x y. \<not> y < x) (sort_slice (<) xs)"
    using srt.srt_sorted [of "(<)" xs] weak_order_key [of "\<lambda>x :: gostring. x"] by simp
  then show "sorted (sort_slice (<) xs)" by (simp add: not_less)
  show "distinct (sort_slice (<) xs)" using srt.srt_distinct_map [of id "(<)" xs] assms by simp
qed simp_all

section \<open>Properties\<close>

text \<open>
  C28. In every manager that adds, removals and closing can reach, a name is reported healthy
  exactly when it has a submitter and that submitter's pool, which is also the pool
  registered under the name, has a bound connection.
\<close>

theorem pool_health_iff_bound:
  assumes "pm_reachable pm"
  shows "Healthy (Health live pm name) \<longleftrightarrow>
    (\<exists>p. GetSubmitter pm name = Some (SMPPSubmitter p) \<and> pm_Get pm name = Some p \<and> 0 < live p)"
  using Health_iff [OF pm_reachable_wf [OF assms]] .

definition example_pool_config :: SouthboundPoolConfig where
  "example_pool_config = \<lparr>sp_Name = lit ''A'', sp_Host = lit ''h'', sp_Port = 2775, sp_SystemID = lit ''s'',
     sp_Password = lit ''p'', sp_SourceAddr = lit ''1'', sp_Connections = 0, sp_WindowSize = 0,
     sp_TLSEnabled = False, sp_TLSInsecureSkipVerify = False, sp_BindMode = lit ''receiver'',
     sp_InterfaceVersion = lit ''5.0''\<rparr>"

theorem pool_health_iff_bound_witness:
  "Healthy (Health (\<lambda>p :: nat. p) (fst (Add (\<lambda>_. Some 3) NewPoolManager example_pool_config)) (lit ''A''))"
proof -
  have "pm_reachable (fst (Add (\<lambda>_. Some (3 :: nat)) NewPoolManager example_pool_config))"
    by (intro pm_add pm_new)
  then show ?thesis
    by (subst pool_health_iff_bound)
      (simp_all add: Add_def addSMPP_def NewPoolManager_def GetSubmitter_def pm_Get_def
        NewSMPPSubmitter_def example_pool_config_def Let_def)
qed

text \<open>
  The sorted list of pool names does not depend on the order in which the runtime iterates
  over the maps: it is the ascending list of the registered names, each once.
\<close>

theorem PoolNames_sorted:
  assumes "map_key_order ord"
  shows "PoolNames ord pm = sorted_list_of_set (fset (fmdom (submitters pm) |\<union>| fmdom (pools pm)))"
proof -
  have "distinct (Names ord pm)" "set (Names ord pm) = fset (fmdom (submitters pm) |\<union>| fmdom (pools pm))"
    using assms by (auto simp: map_key_order_def Names_def)
  then show ?thesis by (simp add: PoolNames_def sort_slice_strict)
qed

theorem PoolNames_sorted_witness:
  "PoolNames sorted_list_of_fset (fst (Add (\<lambda>_. Some (3 :: nat)) NewPoolManager example_pool_config)) =
     [lit ''A'']"
  by (subst PoolNames_sorted)
    (simp_all add: map_key_order_def sorted_list_of_fset.rep_eq Add_def addSMPP_def NewPoolManager_def
      NewSMPPSubmitter_def example_pool_config_def Let_def)

end
