(* ===== verification/Route_Table.thy ===== *)
theory Route_Table
  imports Pool_Manager
begin

text \<open>
  The routing tables of the gateway: \<^verbatim>\<open>gateway/route_table.go\<close>.

  The MT (mobile terminated) table maps a destination number to a southbound pool by longest
  prefix and a per-route strategy; the MO (mobile originated) table maps an incoming message to
  a northbound target by priority. The tables hold pointers to routes and the only field that
  changes in place is the round-robin counter, so a table is a list of routes and \<open>Resolve\<close>
  returns the table with the counter advanced. A cost is a rational number where the code has
  a \<^verbatim>\<open>float64\<close>; only its order is used.
\<close>

section \<open>MT routes\<close>

record RoutePool =
  rp_Name :: gostring
  Cost :: rat

record MTRoute =
  Prefix :: gostring
  Strategy :: gostring
  Pools :: "RoutePool list"
  rrIndex :: uint64

type_synonym MTRouteTable = "MTRoute list"

datatype strategy_error =
    NoHealthyFailover
  | NoPoolsConfigured
  | NoHealthyRoundRobin
  | NoHealthyLeastCost
  | UnknownStrategy gostring

datatype route_error =
    RouteMatchedBut gostring strategy_error
  | NoRouteForMSISDN gostring

definition star :: gostring where
  "star = lit ''*''"

definition NewMTRouteTable :: MTRouteTable where
  "NewMTRouteTable = []"

text \<open>The loop body the strategies share: the submitter of a pool that is healthy.\<close>

definition healthy_submitter :: "('p \<Rightarrow> nat) \<Rightarrow> 'p PoolManager \<Rightarrow> RoutePool \<Rightarrow> 'p Submitter option" where
  "healthy_submitter live pm rp =
     (if Healthy (Health live pm (rp_Name rp)) then GetSubmitter pm (rp_Name rp) else None)"

fun first_healthy :: "('p \<Rightarrow> nat) \<Rightarrow> 'p PoolManager \<Rightarrow> RoutePool list \<Rightarrow> ('p Submitter \<times> gostring) option" where
  "first_healthy live pm [] = None"
| "first_healthy live pm (rp # rps) =
     (case healthy_submitter live pm rp of
        Some sub \<Rightarrow> Some (sub, rp_Name rp)
      | None \<Rightarrow> first_healthy live pm rps)"

definition resolveFailover ::
  "('p \<Rightarrow> nat) \<Rightarrow> 'p PoolManager \<Rightarrow> MTRoute \<Rightarrow> strategy_error + 'p Submitter \<times> gostring" where
  "resolveFailover live pm route =
     (case first_healthy live pm (Pools route) of Some r \<Rightarrow> Inr r | None \<Rightarrow> Inl NoHealthyFailover)"

text \<open>
  \<^verbatim>\<open>(int(idx)+i)%n\<close>: the counter converted to a signed 64-bit integer, a wrapping addition, and
  a remainder with the sign of the dividend. A negative index panics.
\<close>

definition rr_position :: "uint64 \<Rightarrow> nat \<Rightarrow> nat \<Rightarrow> nat go" where
  "rr_position idx i n =
     (let j = sint (idx + of_nat i);
          r = (if 0 \<le> j then j mod int n else - ((- j) mod int n))
      in if r < 0 then None else Some (nat r))"

function rr_scan :: "('p \<Rightarrow> nat) \<Rightarrow> 'p PoolManager \<Rightarrow> RoutePool list \<Rightarrow> uint64 \<Rightarrow> nat \<Rightarrow>
    ('p Submitter \<times> gostring) option go" where
  "rr_scan live pm rps idx i =
     (if i < length rps then do {
        k \<leftarrow> rr_position idx i (length rps);
        let candidate = rps ! k;
        case healthy_submitter live pm candidate of
          Some sub \<Rightarrow> Some (Some (sub, rp_Name candidate))
        | None \<Rightarrow> rr_scan live pm rps idx (i + 1)
      } else Some None)"
  by auto
termination
  by (relation "measure (\<lambda>(live, pm, rps, idx, i). length rps - i)") auto

declare rr_scan.simps [simp del]

definition resolveRoundRobin :: "('p \<Rightarrow> nat) \<Rightarrow> 'p PoolManager \<Rightarrow> MTRoute \<Rightarrow>
    (MTRoute \<times> (strategy_error + 'p Submitter \<times> gostring)) go" where
  "resolveRoundRobin live pm route =
     (let n = length (Pools route) in
      if n = 0 then Some (route, Inl NoPoolsConfigured)
      else do {
        let idx = rrIndex route;
        let route = route\<lparr>rrIndex := rrIndex route + 1\<rparr>;
        r \<leftarrow> rr_scan live pm (Pools route) idx 0;
        Some (route, case r of Some s \<Rightarrow> Inr s | None \<Rightarrow> Inl NoHealthyRoundRobin)
      })"

definition resolveLeastCost ::
  "('p \<Rightarrow> nat) \<Rightarrow> 'p PoolManager \<Rightarrow> MTRoute \<Rightarrow> strategy_error + 'p Submitter \<times> gostring" where
  "resolveLeastCost live pm route =
     (let sorted_pools = sort_slice (\<lambda>a b. Cost a < Cost b) (Pools route) in
      case first_healthy live pm sorted_pools of Some r \<Rightarrow> Inr r | None \<Rightarrow> Inl NoHealthyLeastCost)"

definition applyStrategy :: "('p \<Rightarrow> nat) \<Rightarrow> 'p PoolManager \<Rightarrow> MTRoute \<Rightarrow>
    (MTRoute \<times> (strategy_error + 'p Submitter \<times> gostring)) go" where
  "applyStrategy live pm route =
     (if Strategy route = lit ''failover'' then Some (route, resolveFailover live pm route)
      else if Strategy route = lit ''round_robin'' then resolveRoundRobin live pm route
      else if Strategy route = lit ''least_cost'' then Some (route, resolveLeastCost live pm route)
      else Some (route, Inl (UnknownStrategy (Strategy route))))"

fun Resolve :: "('p \<Rightarrow> nat) \<Rightarrow> 'p PoolManager \<Rightarrow> MTRouteTable \<Rightarrow> gostring \<Rightarrow>
    (MTRouteTable \<times> (route_error + 'p Submitter \<times> gostring)) go" where
  "Resolve live pm [] msisdn = Some ([], Inl (NoRouteForMSISDN msisdn))"
| "Resolve live pm (route # routes) msisdn =
     (if Prefix route \<noteq> star \<and> \<not> HasPrefix msisdn (Prefix route) then do {
        (routes, r) \<leftarrow> Resolve live pm routes msisdn;
        Some (route # routes, r)
      } else do {
        (route, r) \<leftarrow> applyStrategy live pm route;
        Some (route # routes, map_sum (RouteMatchedBut (Prefix route)) id r)
      })"

fun removeByPrefixLocked :: "gostring \<Rightarrow> MTRouteTable \<Rightarrow> MTRouteTable \<times> bool" where
  "removeByPrefixLocked prefix [] = ([], False)"
| "removeByPrefixLocked prefix (r # routes) =
     (if Prefix r = prefix then (routes, True)
      else (case removeByPrefixLocked prefix routes of (routes, found) \<Rightarrow> (r # routes, found)))"

definition route_less :: "MTRoute \<Rightarrow> MTRoute \<Rightarrow> bool" where
  "route_less a b =
     (if Prefix a = star then False
      else if Prefix b = star then True
      else length (Prefix b) < length (Prefix a))"

definition AddRoute :: "MTRouteTable \<Rightarrow> MTRoute \<Rightarrow> MTRouteTable" where
  "AddRoute routes route =
     (let routes = fst (removeByPrefixLocked (Prefix route) routes);
          routes = routes @ [route]
      in sort_slice route_less routes)"

definition RemoveRoute :: "MTRouteTable \<Rightarrow> gostring \<Rightarrow> MTRouteTable \<times> bool" where
  "RemoveRoute routes prefix = removeByPrefixLocked prefix routes"

definition ListRoutes :: "MTRouteTable \<Rightarrow> MTRoute list" where
  "ListRoutes routes = routes"

section \<open>MO routes\<close>

record MOTarget =
  Type :: gostring
  mt_ConnID :: gostring
  CallbackURL :: gostring

record MORoute =
  DestPattern :: gostring
  SourcePrefix :: gostring
  Target :: MOTarget
  Priority :: int

type_synonym MORouteTable = "MORoute list"

definition NewMORouteTable :: MORouteTable where
  "NewMORouteTable = []"

text \<open>The two filters of \<open>MO_Resolve\<close>: \<^verbatim>\<open>continue\<close> is \<open>False\<close>.\<close>

definition mo_matches :: "gostring \<Rightarrow> gostring \<Rightarrow> MORoute \<Rightarrow> bool" where
  "mo_matches sourceAddr destAddr route =
     ((if HasSuffix (DestPattern route) star
       then HasPrefix destAddr (TrimSuffix (DestPattern route) star)
       else destAddr = DestPattern route) \<and>
      (SourcePrefix route = [] \<or> HasPrefix sourceAddr (SourcePrefix route)))"

fun MO_Resolve :: "MORouteTable \<Rightarrow> gostring \<Rightarrow> gostring \<Rightarrow> MOTarget option" where
  "MO_Resolve [] sourceAddr destAddr = None"
| "MO_Resolve (route # routes) sourceAddr destAddr =
     (if mo_matches sourceAddr destAddr route then Some (Target route)
      else MO_Resolve routes sourceAddr destAddr)"

definition MO_AddRoute :: "MORouteTable \<Rightarrow> MORoute \<Rightarrow> MORouteTable" where
  "MO_AddRoute routes route = sort_slice (\<lambda>a b. Priority b < Priority a) (routes @ [route])"

fun MO_RemoveRoute :: "MORouteTable \<Rightarrow> gostring \<Rightarrow> gostring \<Rightarrow> MORouteTable \<times> bool" where
  "MO_RemoveRoute [] destPattern sourcePrefix = ([], False)"
| "MO_RemoveRoute (r # routes) destPattern sourcePrefix =
     (if DestPattern r = destPattern \<and> SourcePrefix r = sourcePrefix then (routes, True)
      else (case MO_RemoveRoute routes destPattern sourcePrefix of (routes, found) \<Rightarrow> (r # routes, found)))"

definition MO_ListRoutes :: "MORouteTable \<Rightarrow> MORoute list" where
  "MO_ListRoutes routes = routes"

section \<open>Strategies\<close>

lemma first_healthy_find:
  "first_healthy live pm rps =
     (case find (\<lambda>rp. healthy_submitter live pm rp \<noteq> None) rps of
        None \<Rightarrow> None | Some rp \<Rightarrow> Some (the (healthy_submitter live pm rp), rp_Name rp))"
  by (induction rps) (auto split: option.splits)

lemma first_healthy_None:
  "first_healthy live pm rps = None \<longleftrightarrow> (\<forall>rp \<in> set rps. healthy_submitter live pm rp = None)"
  by (induction rps) (auto split: option.splits)

lemma first_healthy_SomeD:
  "first_healthy live pm rps = Some (sub, name) \<Longrightarrow>
     \<exists>rp \<in> set rps. rp_Name rp = name \<and> healthy_submitter live pm rp = Some sub"
  by (induction rps) (auto split: option.splits)

lemma first_healthy_nth:
  "first_healthy live pm rps = Some (sub, name) \<longleftrightarrow>
     (\<exists>i < length rps. rp_Name (rps ! i) = name \<and> healthy_submitter live pm (rps ! i) = Some sub \<and>
        (\<forall>j < i. healthy_submitter live pm (rps ! j) = None))"
  unfolding first_healthy_find
  by (auto simp: find_Some_iff find_None_iff split: option.splits)
    (metis linorder_neqE_nat option.discI option.inject)+

lemma rr_position_small:
  assumes "unat idx + i < 2 ^ 63" and "0 < n"
  shows "rr_position idx i n = Some ((unat idx + i) mod n)"
proof -
  have "unat (of_nat i :: uint64) = i" using assms(1) by (simp add: unat_of_nat)
  then have u: "unat (idx + of_nat i) = unat idx + i"
    using assms(1) by (simp add: unat_word_ariths)
  then have "sint (idx + of_nat i) = int (unat idx + i)"
    using assms(1) sint_of_small [of "idx + of_nat i"] by simp
  then show ?thesis
    using assms(2) by (simp add: rr_position_def Let_def nat_mod_distrib del: of_nat_add) (simp add: nat_int flip: zmod_int of_nat_add)
qed

lemma rr_scan_first_healthy:
  assumes "unat idx + length rps \<le> 2 ^ 63"
  shows "i \<le> length rps \<Longrightarrow> rr_scan live pm rps idx i =
    Some (first_healthy live pm (map (\<lambda>j. rps ! ((unat idx + j) mod length rps)) [i..<length rps]))"
proof (induction "length rps - i" arbitrary: i)
  case 0
  then show ?case by (simp add: rr_scan.simps [of _ _ _ _ i])
next
  case (Suc d)
  then have i: "i < length rps" "d = length rps - (i + 1)" "i + 1 \<le> length rps" by auto
  then have "rr_position idx i (length rps) = Some ((unat idx + i) mod length rps)"
    using assms by (intro rr_position_small) auto
  moreover have "[i..<length rps] = i # [i + 1..<length rps]" using i(1) by (simp add: upt_conv_Cons)
  ultimately show ?case
    using i Suc.hyps(1) [OF i(2,3)] by (simp add: rr_scan.simps [of _ _ _ _ i] Let_def split: option.splits)
qed

lemma map_nth_rotate: "map (\<lambda>j. xs ! ((k + j) mod length xs)) [0..<length xs] = rotate k xs"
  by (rule nth_equalityI) (simp_all add: nth_rotate)

lemma resolveRoundRobin_eq:
  assumes "Pools route \<noteq> []" and "unat (rrIndex route) + length (Pools route) \<le> 2 ^ 63"
  shows "resolveRoundRobin live pm route = Some (route\<lparr>rrIndex := rrIndex route + 1\<rparr>,
    case first_healthy live pm (rotate (unat (rrIndex route)) (Pools route)) of
      Some s \<Rightarrow> Inr s | None \<Rightarrow> Inl NoHealthyRoundRobin)"
  using assms by (simp add: resolveRoundRobin_def Let_def rr_scan_first_healthy map_nth_rotate)

section \<open>The MT table\<close>

definition route_matches :: "gostring \<Rightarrow> MTRoute \<Rightarrow> bool" where
  "route_matches msisdn r \<longleftrightarrow> Prefix r = star \<or> HasPrefix msisdn (Prefix r)"

text \<open>The specificity of a prefix: its length, the default route below everything.\<close>

definition prefix_rank :: "gostring \<Rightarrow> nat" where
  "prefix_rank p = (if p = star then 0 else length p + 1)"

definition wf_mt :: "MTRouteTable \<Rightarrow> bool" where
  "wf_mt routes \<longleftrightarrow> distinct (map Prefix routes) \<and>
     sorted_wrt (\<lambda>p q. prefix_rank q \<le> prefix_rank p) (map Prefix routes)"

lemma route_less_rank: "route_less = (\<lambda>a b. prefix_rank (Prefix b) < prefix_rank (Prefix a))"
  by (intro ext) (auto simp: route_less_def prefix_rank_def)

lemma removeByPrefix_filter:
  "distinct (map Prefix routes) \<Longrightarrow>
   removeByPrefixLocked p routes = (filter (\<lambda>r. Prefix r \<noteq> p) routes, p \<in> Prefix ` set routes)"
proof (induction routes)
  case (Cons r routes)
  then show ?case by (auto simp: image_iff intro!: filter_True [symmetric])
qed simp

lemma wf_mt_AddRoute: "wf_mt routes \<Longrightarrow> wf_mt (AddRoute routes route)"
proof -
  assume wf: "wf_mt routes"
  let ?rs = "filter (\<lambda>r. Prefix r \<noteq> Prefix route) routes @ [route]"
  have e: "AddRoute routes route = sort_slice route_less ?rs"
    using wf by (simp add: AddRoute_def Let_def removeByPrefix_filter wf_mt_def)
  have "distinct (map Prefix ?rs)" using wf by (auto simp: wf_mt_def distinct_map_filter)
  then have "distinct (map Prefix (sort_slice route_less ?rs))" by (simp only: srt.srt_distinct_map)
  moreover have "sorted_wrt (\<lambda>x y. \<not> route_less y x) (sort_slice route_less ?rs)"
    by (rule srt.srt_sorted) (simp add: route_less_rank weak_order_key_desc)
  ultimately show ?thesis by (simp add: wf_mt_def e sorted_wrt_map route_less_rank not_less)
qed

lemma wf_mt_RemoveRoute: "wf_mt routes \<Longrightarrow> wf_mt (fst (RemoveRoute routes p))"
  by (auto simp: wf_mt_def RemoveRoute_def removeByPrefix_filter distinct_map_filter sorted_wrt_map
      intro: sorted_wrt_filter)

lemma applyStrategy_prefix:
  "applyStrategy live pm route = Some (route', r) \<Longrightarrow> Prefix route' = Prefix route \<and> Pools route' = Pools route"
  by (auto simp: applyStrategy_def resolveRoundRobin_def Let_def bind_eq_Some_conv split: if_splits)

lemma Resolve_prefixes:
  "Resolve live pm routes msisdn = Some (routes', r) \<Longrightarrow> map Prefix routes' = map Prefix routes"
  by (induction routes arbitrary: routes' r)
    (auto simp: bind_eq_Some_conv dest: applyStrategy_prefix split: if_splits)

inductive mt_reachable :: "MTRouteTable \<Rightarrow> bool" where
  mt_new: "mt_reachable NewMTRouteTable"
| mt_add: "mt_reachable routes \<Longrightarrow> mt_reachable (AddRoute routes route)"
| mt_remove: "mt_reachable routes \<Longrightarrow> mt_reachable (fst (RemoveRoute routes p))"
| mt_resolve: "mt_reachable routes \<Longrightarrow> Resolve (live :: nat \<Rightarrow> nat) pm routes msisdn = Some (routes', r) \<Longrightarrow>
    mt_reachable routes'"

lemma mt_reachable_wf: "mt_reachable routes \<Longrightarrow> wf_mt routes"
proof (induction rule: mt_reachable.induct)
  case mt_new
  then show ?case by (simp add: wf_mt_def NewMTRouteTable_def)
next
  case (mt_resolve routes live pm msisdn routes' r)
  then show ?case using Resolve_prefixes by (metis wf_mt_def)
qed (simp_all add: wf_mt_AddRoute wf_mt_RemoveRoute)

lemma Resolve_none:
  "\<forall>r \<in> set routes. \<not> route_matches msisdn r \<Longrightarrow>
   Resolve live pm routes msisdn = Some (routes, Inl (NoRouteForMSISDN msisdn))"
  by (induction routes) (auto simp: route_matches_def)

lemma Resolve_first:
  "\<forall>x \<in> set pre. \<not> route_matches msisdn x \<Longrightarrow> route_matches msisdn r \<Longrightarrow>
   Resolve live pm (pre @ r # post) msisdn =
     applyStrategy live pm r \<bind> (\<lambda>(r', res).
       Some (pre @ r' # post, map_sum (RouteMatchedBut (Prefix r')) id res))"
proof (induction pre)
  case (Cons x pre)
  then show ?case by (cases "applyStrategy live pm r") (auto simp: route_matches_def)
qed (auto simp: route_matches_def)

lemma matching_split:
  assumes "\<exists>r \<in> set routes. route_matches msisdn r"
  obtains pre r post where "routes = pre @ r # post" "route_matches msisdn r"
    "\<forall>x \<in> set pre. \<not> route_matches msisdn x"
  using split_list_first_prop [OF assms] by blast

lemma first_match_longest:
  assumes "wf_mt (pre @ r # post)" and "\<forall>x \<in> set pre. \<not> route_matches msisdn x"
    and "r' \<in> set (pre @ r # post)" and "route_matches msisdn r'"
  shows "prefix_rank (Prefix r') \<le> prefix_rank (Prefix r)"
  using assms by (auto simp: wf_mt_def sorted_wrt_append)

lemma rr_position_less: "0 < n \<Longrightarrow> rr_position idx i n = Some k \<Longrightarrow> k < n"
  by (auto simp: rr_position_def Let_def nat_less_iff split: if_splits)

lemma rr_scan_SomeD:
  "rr_scan live pm rps idx i = Some (Some (sub, name)) \<Longrightarrow>
   \<exists>rp \<in> set rps. rp_Name rp = name \<and> healthy_submitter live pm rp = Some sub"
proof (induction live pm rps idx i rule: rr_scan.induct)
  case (1 live pm rps idx i)
  then have i: "i < length rps" by (simp add: rr_scan.simps [of _ _ _ _ i] split: if_splits)
  then obtain k where k: "rr_position idx i (length rps) = Some k"
    using 1(2) by (simp add: rr_scan.simps [of _ _ _ _ i] bind_eq_Some_conv) blast
  then have "k < length rps" using i by (intro rr_position_less [OF _ k]) auto
  then show ?case
    using 1 i k by (auto simp: rr_scan.simps [of _ _ _ _ i] Let_def split: option.splits)
qed

lemma applyStrategy_sound:
  "applyStrategy live pm route = Some (route', Inr (sub, name)) \<Longrightarrow>
   \<exists>rp \<in> set (Pools route). rp_Name rp = name \<and> healthy_submitter live pm rp = Some sub"
  unfolding applyStrategy_def resolveFailover_def resolveLeastCost_def resolveRoundRobin_def Let_def
  by (auto simp: bind_eq_Some_conv dest!: first_healthy_SomeD rr_scan_SomeD split: if_splits option.splits)

definition known_strategy :: "gostring \<Rightarrow> bool" where
  "known_strategy s \<longleftrightarrow> s \<in> {lit ''failover'', lit ''round_robin'', lit ''least_cost''}"

definition rr_in_range :: "MTRoute \<Rightarrow> bool" where
  "rr_in_range r \<longleftrightarrow> unat (rrIndex r) + length (Pools r) \<le> 2 ^ 63"

lemma applyStrategy_available:
  assumes "known_strategy (Strategy route)" and "rr_in_range route"
    and "rp \<in> set (Pools route)" and "healthy_submitter live pm rp \<noteq> None"
  shows "\<exists>route' s. applyStrategy live pm route = Some (route', Inr s)"
proof -
  have "first_healthy live pm xs \<noteq> None" if "set xs = set (Pools route)" for xs
    using assms(3,4) that unfolding first_healthy_None by metis
  then have h: "\<exists>s. first_healthy live pm (Pools route) = Some s"
    "\<exists>s. first_healthy live pm (rotate k (Pools route)) = Some s"
    "\<exists>s. first_healthy live pm (sort_slice (\<lambda>a b. Cost a < Cost b) (Pools route)) = Some s" for k
    by auto
  have "Pools route \<noteq> []" using assms(3) by auto
  then show ?thesis
    using assms(1,2) h(1,3) h(2) [of "unat (rrIndex route)"] unfolding known_strategy_def rr_in_range_def
    by (auto simp: applyStrategy_def resolveFailover_def resolveLeastCost_def Let_def resolveRoundRobin_eq
        split: option.splits)
qed

lemma healthy_submitter_iff:
  "wf_pm pm \<Longrightarrow> healthy_submitter live pm rp = Some sub \<longleftrightarrow>
     (\<exists>p. sub = SMPPSubmitter p \<and> GetSubmitter pm (rp_Name rp) = Some sub \<and> 0 < live p)"
  by (auto simp: healthy_submitter_def Health_iff) (auto simp: wf_pm_def GetSubmitter_def pm_Get_def)

section \<open>The MO table\<close>

inductive mo_reachable :: "MORouteTable \<Rightarrow> bool" where
  mo_new: "mo_reachable NewMORouteTable"
| mo_add: "mo_reachable routes \<Longrightarrow> mo_reachable (MO_AddRoute routes route)"
| mo_remove: "mo_reachable routes \<Longrightarrow> mo_reachable (fst (MO_RemoveRoute routes d s))"

definition wf_mo :: "MORouteTable \<Rightarrow> bool" where
  "wf_mo routes \<longleftrightarrow> sorted_wrt (\<lambda>a b. Priority b \<le> Priority a) routes"

lemma MO_RemoveRoute_set: "set (fst (MO_RemoveRoute routes d s)) \<subseteq> set routes"
  by (induction routes) (auto split: prod.splits)

lemma wf_mo_RemoveRoute: "wf_mo routes \<Longrightarrow> wf_mo (fst (MO_RemoveRoute routes d s))"
proof (induction routes)
  case (Cons r routes)
  then show ?case
    using MO_RemoveRoute_set [of routes d s] by (auto simp: wf_mo_def split: prod.splits)
qed simp

lemma wf_mo_AddRoute: "wf_mo (MO_AddRoute routes route)"
  using srt.srt_sorted [of "\<lambda>a b. Priority b < Priority a" "routes @ [route]"]
  by (simp add: wf_mo_def MO_AddRoute_def weak_order_key_desc not_less)

lemma mo_reachable_wf: "mo_reachable routes \<Longrightarrow> wf_mo routes"
  by (induction rule: mo_reachable.induct)
    (simp_all add: wf_mo_AddRoute wf_mo_RemoveRoute, simp add: wf_mo_def NewMORouteTable_def)

lemma MO_Resolve_find:
  "MO_Resolve routes src dst = map_option Target (find (mo_matches src dst) routes)"
  by (induction routes) auto

lemma same_rank_same_prefix:
  assumes "route_matches msisdn a" and "route_matches msisdn b"
    and "prefix_rank (Prefix a) = prefix_rank (Prefix b)"
  shows "Prefix a = Prefix b"
proof (cases "Prefix a = star \<or> Prefix b = star")
  case True
  then show ?thesis using assms(3) by (auto simp: prefix_rank_def split: if_splits)
next
  case False
  then have "HasPrefix msisdn (Prefix a)" "HasPrefix msisdn (Prefix b)"
    using assms(1,2) by (simp_all add: route_matches_def)
  moreover have "length (Prefix a) = length (Prefix b)"
    using assms(3) False by (simp add: prefix_rank_def)
  ultimately show ?thesis unfolding HasPrefix_def by metis
qed

lemma Resolve_at_longest:
  assumes "wf_mt routes" and "r \<in> set routes" and "route_matches msisdn r"
    and "\<forall>r' \<in> set routes. route_matches msisdn r' \<longrightarrow> prefix_rank (Prefix r') \<le> prefix_rank (Prefix r)"
  obtains pre post where "routes = pre @ r # post" "\<forall>x \<in> set pre. \<not> route_matches msisdn x"
proof -
  obtain pre r0 post where sp: "routes = pre @ r0 # post" "route_matches msisdn r0"
      "\<forall>x \<in> set pre. \<not> route_matches msisdn x"
    using matching_split [of routes msisdn] assms(2,3) by blast
  have "prefix_rank (Prefix r) \<le> prefix_rank (Prefix r0)"
    using first_match_longest [of pre r0 post msisdn r] assms(1,2,3) sp by simp
  moreover have "prefix_rank (Prefix r0) \<le> prefix_rank (Prefix r)" using assms(4) sp by simp
  ultimately have "Prefix r0 = Prefix r"
    using same_rank_same_prefix [OF sp(2) assms(3)] by simp
  moreover have "inj_on Prefix (set routes)" using assms(1) by (simp add: wf_mt_def distinct_map)
  ultimately have "r0 = r" using assms(2) sp(1) by (auto dest: inj_onD)
  then show ?thesis using that sp by blast
qed

text \<open>A table with a default route and a route for \<open>27\<close>, and a manager with one pool, used as examples.\<close>

definition example_default_route :: MTRoute where
  "example_default_route = \<lparr>Prefix = lit ''*'', Strategy = lit ''failover'',
     Pools = [\<lparr>rp_Name = lit ''B'', Cost = 0\<rparr>], rrIndex = 0\<rparr>"

definition example_za_route :: MTRoute where
  "example_za_route = \<lparr>Prefix = lit ''27'', Strategy = lit ''round_robin'',
     Pools = [\<lparr>rp_Name = lit ''B'', Cost = 1\<rparr>, \<lparr>rp_Name = lit ''A'', Cost = 2\<rparr>], rrIndex = 0\<rparr>"

definition example_table :: MTRouteTable where
  "example_table = AddRoute (AddRoute NewMTRouteTable example_default_route) example_za_route"

definition example_pm :: "nat PoolManager" where
  "example_pm = fst (Add (\<lambda>_. Some 3) NewPoolManager example_pool_config)"

lemma example_table_eq: "example_table = [example_za_route, example_default_route]"
  by (simp add: example_table_def AddRoute_def NewMTRouteTable_def Let_def sort_slice_def route_less_def
      example_za_route_def example_default_route_def star_def lit_def)

lemma example_reachable: "mt_reachable example_table" "pm_reachable example_pm"
  unfolding example_table_def example_pm_def by (intro mt_reachable.intros pm_reachable.intros)+

lemma example_healthy:
  "healthy_submitter (\<lambda>p. p) example_pm \<lparr>rp_Name = lit ''A'', Cost = 2\<rparr> = Some (SMPPSubmitter 3)"
  "healthy_submitter (\<lambda>p. p) example_pm \<lparr>rp_Name = lit ''B'', Cost = c\<rparr> = None"
  by (simp_all add: healthy_submitter_def Health_def GetSubmitter_def example_pm_def Add_def addSMPP_def
      NewPoolManager_def NewSMPPSubmitter_def example_pool_config_def Let_def lit_def)

lemma example_resolve:
  "Resolve (\<lambda>p. p) example_pm example_table (lit ''2782'') =
     Some ([example_za_route\<lparr>rrIndex := 1\<rparr>, example_default_route], Inr (SMPPSubmitter 3, lit ''A''))"
proof -
  have "resolveRoundRobin (\<lambda>p. p) example_pm example_za_route =
      Some (example_za_route\<lparr>rrIndex := 1\<rparr>, Inr (SMPPSubmitter 3, lit ''A''))"
    by (subst resolveRoundRobin_eq) (simp_all add: example_za_route_def example_healthy)
  then show ?thesis
    by (simp add: example_table_eq applyStrategy_def) (simp add: example_za_route_def star_def)
qed

section \<open>Properties\<close>

text \<open>
  C21. Longest-prefix match: when a lookup in a table reached by any sequence of additions,
  removals and lookups returns a submitter, it is that of a pool of a route that matches the
  number, no route that matches has a longer prefix (the default route counting as shortest),
  and the pool has a bound connection at that moment.
\<close>

theorem mt_longest_prefix:
  assumes "mt_reachable routes" and "pm_reachable pm"
    and "Resolve live pm routes msisdn = Some (routes', Inr (sub, name))"
  shows "\<exists>r \<in> set routes. route_matches msisdn r \<and>
    (\<forall>r' \<in> set routes. route_matches msisdn r' \<longrightarrow> prefix_rank (Prefix r') \<le> prefix_rank (Prefix r)) \<and>
    name \<in> rp_Name ` set (Pools r) \<and>
    (\<exists>p. sub = SMPPSubmitter p \<and> GetSubmitter pm name = Some sub \<and> 0 < live p)"
proof -
  have "\<exists>r \<in> set routes. route_matches msisdn r"
    using assms(3) Resolve_none [of routes msisdn live pm] by auto
  then obtain pre r post where sp: "routes = pre @ r # post" "route_matches msisdn r"
      "\<forall>x \<in> set pre. \<not> route_matches msisdn x"
    by (rule matching_split)
  have "\<exists>route'. applyStrategy live pm r = Some (route', Inr (sub, name))"
    using assms(3) Resolve_first [OF sp(3,2), of live pm post]
    by (auto simp: sp(1) bind_eq_Some_conv)
  then obtain rp where "rp \<in> set (Pools r)" "rp_Name rp = name" "healthy_submitter live pm rp = Some sub"
    using applyStrategy_sound by blast
  moreover have "\<forall>r' \<in> set routes. route_matches msisdn r' \<longrightarrow> prefix_rank (Prefix r') \<le> prefix_rank (Prefix r)"
    using first_match_longest [of pre r post msisdn] mt_reachable_wf [OF assms(1)] sp by auto
  ultimately show ?thesis
    using sp healthy_submitter_iff [OF pm_reachable_wf [OF assms(2)], of live rp sub]
    by (intro bexI [of _ r]) auto
qed

theorem mt_longest_prefix_witness:
  "\<exists>r \<in> set example_table. route_matches (lit ''2782'') r \<and>
    (\<forall>r' \<in> set example_table. route_matches (lit ''2782'') r' \<longrightarrow> prefix_rank (Prefix r') \<le> prefix_rank (Prefix r)) \<and>
    lit ''A'' \<in> rp_Name ` set (Pools r) \<and>
    (\<exists>p. SMPPSubmitter (3 :: nat) = SMPPSubmitter p \<and> GetSubmitter example_pm (lit ''A'') = Some (SMPPSubmitter 3) \<and> 0 < p)"
  by (rule mt_longest_prefix [OF example_reachable example_resolve])

text \<open>
  C22. Availability: if the most specific route that matches a number has a known strategy and
  any of its pools is registered and bound, the lookup returns a submitter. The round-robin
  counter has to be below the point where its conversion to a signed integer turns negative.
\<close>

theorem mt_resolve_available:
  assumes "mt_reachable routes" and "r \<in> set routes" and "route_matches msisdn r"
    and "\<forall>r' \<in> set routes. route_matches msisdn r' \<longrightarrow> prefix_rank (Prefix r') \<le> prefix_rank (Prefix r)"
    and "known_strategy (Strategy r)" and "rr_in_range r"
    and "rp \<in> set (Pools r)" and "GetSubmitter pm (rp_Name rp) = Some (SMPPSubmitter p)" and "0 < live p"
  shows "\<exists>routes' sub name. Resolve live pm routes msisdn = Some (routes', Inr (sub, name))"
proof -
  obtain pre post where sp: "routes = pre @ r # post" "\<forall>x \<in> set pre. \<not> route_matches msisdn x"
    using Resolve_at_longest [OF mt_reachable_wf [OF assms(1)] assms(2,3,4)] .
  have "healthy_submitter live pm rp \<noteq> None"
    using assms(8,9) by (simp add: healthy_submitter_def Health_def GetSubmitter_def)
  then obtain r' s where "applyStrategy live pm r = Some (r', Inr s)"
    using applyStrategy_available [OF assms(5,6,7)] by blast
  then show ?thesis
    using Resolve_first [OF sp(2) assms(3), of live pm post] by (cases s) (simp add: sp(1))
qed

theorem mt_resolve_available_witness:
  "\<exists>routes' sub name. Resolve (\<lambda>p. p) example_pm example_table (lit ''2782'') = Some (routes', Inr (sub, name))"
  by (rule mt_resolve_available [where r = example_za_route and rp = "\<lparr>rp_Name = lit ''A'', Cost = 2\<rparr>" and p = 3])
    (rule example_reachable, simp_all add: example_table_eq,
     simp_all add: example_za_route_def example_default_route_def route_matches_def prefix_rank_def star_def
       lit_def HasPrefix_def known_strategy_def rr_in_range_def GetSubmitter_def example_pm_def Add_def
       addSMPP_def NewPoolManager_def NewSMPPSubmitter_def example_pool_config_def Let_def)

text \<open>
  C23. Round robin: a lookup on a round-robin route behaves as failover on the pool list rotated
  to the counter, and advances the counter by one; so with all pools healthy consecutive
  lookups take the pools in turn.
\<close>

theorem round_robin_rotates:
  assumes "Pools route \<noteq> []" and "rr_in_range route"
  shows "\<exists>route'. resolveRoundRobin live pm route = Some (route',
      (case resolveFailover live pm (route\<lparr>Pools := rotate (unat (rrIndex route)) (Pools route)\<rparr>) of
         Inr s \<Rightarrow> Inr s | Inl _ \<Rightarrow> Inl NoHealthyRoundRobin)) \<and>
    route' = route\<lparr>rrIndex := rrIndex route + 1\<rparr>"
  using assms resolveRoundRobin_eq [of route live pm]
  by (auto simp: rr_in_range_def resolveFailover_def split: option.splits)

theorem round_robin_rotates_witness:
  "\<exists>route'. resolveRoundRobin (\<lambda>p. p) example_pm example_za_route = Some (route',
      (case resolveFailover (\<lambda>p. p) example_pm
          (example_za_route\<lparr>Pools := rotate (unat (rrIndex example_za_route)) (Pools example_za_route)\<rparr>) of
         Inr s \<Rightarrow> Inr s | Inl _ \<Rightarrow> Inl NoHealthyRoundRobin)) \<and>
    route' = example_za_route\<lparr>rrIndex := rrIndex example_za_route + 1\<rparr>"
  by (rule round_robin_rotates) (simp_all add: example_za_route_def rr_in_range_def)

text \<open>
  C24. Least cost: the pool a least-cost route picks is healthy and no healthy pool of the route
  is cheaper; the lookup fails only when no pool of the route is healthy.
\<close>

theorem least_cost_minimal:
  "case resolveLeastCost live pm route of
     Inr (sub, name) \<Rightarrow> \<exists>rp \<in> set (Pools route). rp_Name rp = name \<and> healthy_submitter live pm rp = Some sub \<and>
       (\<forall>rp' \<in> set (Pools route). healthy_submitter live pm rp' \<noteq> None \<longrightarrow> Cost rp \<le> Cost rp')
   | Inl _ \<Rightarrow> \<forall>rp \<in> set (Pools route). healthy_submitter live pm rp = None"
proof -
  let ?P = "\<lambda>rp. healthy_submitter live pm rp \<noteq> None"
  let ?s = "sort_slice (\<lambda>a b. Cost a < Cost b) (Pools route)"
  show ?thesis
  proof (cases "find ?P ?s")
    case None
    then have "first_healthy live pm ?s = None" by (simp only: first_healthy_find option.case)
    then show ?thesis
      using first_healthy_None [of live pm ?s] by (simp add: resolveLeastCost_def Let_def)
  next
    case (Some rp)
    then have fh: "first_healthy live pm ?s = Some (the (healthy_submitter live pm rp), rp_Name rp)"
      by (simp only: first_healthy_find option.case)
    from Some have "?P rp \<and> rp \<in> set (Pools route) \<and> (\<forall>y \<in> set (Pools route). ?P y \<longrightarrow> \<not> Cost y < Cost rp)"
      by (intro srt.find_srt_least) (simp_all add: weak_order_key)
    then show ?thesis
      using fh by (auto simp: resolveLeastCost_def Let_def not_less intro!: bexI [of _ rp])
  qed
qed

theorem least_cost_minimal_witness:
  "resolveLeastCost (\<lambda>p. p) example_pm example_za_route = Inr (SMPPSubmitter 3, lit ''A'') \<and>
   (\<exists>rp \<in> set (Pools example_za_route). rp_Name rp = lit ''A'' \<and>
      healthy_submitter (\<lambda>p. p) example_pm rp = Some (SMPPSubmitter 3) \<and>
      (\<forall>rp' \<in> set (Pools example_za_route). healthy_submitter (\<lambda>p. p) example_pm rp' \<noteq> None \<longrightarrow> Cost rp \<le> Cost rp'))"
proof -
  have r: "resolveLeastCost (\<lambda>p. p) example_pm example_za_route = Inr (SMPPSubmitter 3, lit ''A'')"
    by (simp add: resolveLeastCost_def Let_def sort_slice_def example_za_route_def example_healthy)
  then show ?thesis
    using least_cost_minimal [where live = "\<lambda>p. p" and pm = example_pm and route = example_za_route] by auto
qed

text \<open>
  C25. MO routing: in a table reached by any sequence of additions and removals a lookup returns
  the target of a matching route of the highest priority, and returns nothing only when no
  route matches.
\<close>

theorem mo_highest_priority:
  assumes "mo_reachable routes"
  shows "case MO_Resolve routes src dst of
     Some t \<Rightarrow> \<exists>r \<in> set routes. mo_matches src dst r \<and> Target r = t \<and>
       (\<forall>r' \<in> set routes. mo_matches src dst r' \<longrightarrow> Priority r' \<le> Priority r)
   | None \<Rightarrow> \<forall>r \<in> set routes. \<not> mo_matches src dst r"
proof (cases "find (mo_matches src dst) routes")
  case None
  then have "MO_Resolve routes src dst = None" by (simp only: MO_Resolve_find option.map)
  then show ?thesis using None by (simp add: find_None_iff)
next
  case (Some r)
  then obtain i where i: "i < length routes" "mo_matches src dst (routes ! i)" "r = routes ! i"
      "\<And>j. j < i \<Longrightarrow> \<not> mo_matches src dst (routes ! j)"
    by (auto simp: find_Some_iff)
  have "Priority (routes ! j) \<le> Priority (routes ! i)"
    if j: "j < length routes" "mo_matches src dst (routes ! j)" for j
  proof (cases "i = j")
    case False
    then have "i < j" using i(4) [of j] j(2) by (meson linorder_neqE_nat)
    then show ?thesis
      using sorted_wrt_nth_less [OF mo_reachable_wf [OF assms, unfolded wf_mo_def] _ j(1)] by simp
  qed simp
  then have "\<forall>r' \<in> set routes. mo_matches src dst r' \<longrightarrow> Priority r' \<le> Priority (routes ! i)"
    by (auto simp: in_set_conv_nth)
  then show ?thesis using Some i by (auto simp: MO_Resolve_find intro!: bexI [of _ "routes ! i"])
qed

theorem mo_highest_priority_witness:
  "\<exists>r \<in> set (MO_AddRoute NewMORouteTable \<lparr>DestPattern = lit ''12*'', SourcePrefix = [],
      Target = \<lparr>Type = lit ''smpp'', mt_ConnID = lit ''c'', CallbackURL = []\<rparr>, Priority = 5\<rparr>).
    Target r = \<lparr>Type = lit ''smpp'', mt_ConnID = lit ''c'', CallbackURL = []\<rparr>"
proof -
  let ?r = "\<lparr>DestPattern = lit ''12*'', SourcePrefix = [],
      Target = \<lparr>Type = lit ''smpp'', mt_ConnID = lit ''c'', CallbackURL = []\<rparr>, Priority = 5\<rparr>"
  have "MO_Resolve (MO_AddRoute NewMORouteTable ?r) (lit ''27'') (lit ''123'') = Some (Target ?r)"
    by (simp add: MO_AddRoute_def NewMORouteTable_def sort_slice_def mo_matches_def star_def lit_def
        HasSuffix_def HasPrefix_def TrimSuffix_def)
  then show ?thesis
    using mo_highest_priority [OF mo_add [OF mo_new], of ?r "lit ''27''" "lit ''123''"] by auto
qed

end
