(* ===== verification/Database.thy ===== *)
theory Database
  imports Utf8 Route_Table
begin

text \<open>
  What the message store keeps and where: time stamps and their formatting, the stored records of
  \<^verbatim>\<open>gateway/store.go\<close>, \<^verbatim>\<open>gateway/callback.go\<close> and \<^verbatim>\<open>gateway/conn_config.go\<close>, their
  JSON form, and the Pebble database.

  Pebble is a third-party component: the operations take it as the argument \<open>P\<close>, a
  record of the calls the code makes, over an abstract type \<open>'d\<close> of database states. Calls can
  fail. \<open>pebble_ok\<close> states the documented behaviour of a database that does not: a get sees
  the last set or delete, a batch applies its operations in order, and an iterator visits the
  keys between its bounds in byte order.

  A stored value is the record the code marshals to JSON, tagged with its type; every
  namespace of keys is read back with the type it was written with. JSON replaces invalid
  UTF-8 in strings, so the strings of a stored record went through \<open>json_string\<close>. A time is a
  number of nanoseconds since 1970 in UTC. Each operation takes the time at which it runs.
\<close>

section \<open>Time and formatting\<close>

type_synonym Time = int

text \<open>The zero \<^verbatim>\<open>time.Time\<close>, midnight on January 1 of the year 1.\<close>

definition zero_time :: Time where
  "zero_time = -62135596800 * 1000000000"

definition IsZero :: "Time \<Rightarrow> bool" where
  "IsZero t \<longleftrightarrow> t = zero_time"

abbreviation second :: int where "second \<equiv> 1000000000"

text \<open>\<^verbatim>\<open>%d\<close>, and a number padded with zeros to a width.\<close>

definition digit :: "nat \<Rightarrow> byte" where
  "digit n = of_nat (48 + n)"

fun dec :: "nat \<Rightarrow> gostring" where
  "dec n = (if n < 10 then [digit n] else dec (n div 10) @ [digit (n mod 10)])"

declare dec.simps [simp del]

definition dec_int :: "int \<Rightarrow> gostring" where
  "dec_int i = (if i < 0 then lit ''-'' @ dec (nat (- i)) else dec (nat i))"

definition zero_pad :: "nat \<Rightarrow> gostring \<Rightarrow> gostring" where
  "zero_pad w s = replicate (w - length s) (digit 0) @ s"

text \<open>\<^verbatim>\<open>%020d\<close>: the sign counts towards the width.\<close>

definition fmt020d :: "int \<Rightarrow> gostring" where
  "fmt020d i = (if i < 0 then lit ''-'' @ zero_pad 19 (dec (nat (- i))) else zero_pad 20 (dec (nat i)))"

text \<open>
  \<^verbatim>\<open>t.Format(time.RFC3339Nano)\<close> in UTC: the date by the proleptic Gregorian calendar, and a
  fraction of a second without its trailing zeros.
\<close>

definition civil_from_days :: "int \<Rightarrow> int \<times> int \<times> int" where
  "civil_from_days z0 =
     (let z = z0 + 719468;
          era = z div 146097;
          doe = z mod 146097;
          yoe = (doe - doe div 1460 + doe div 36524 - doe div 146096) div 365;
          doy = doe - (365 * yoe + yoe div 4 - yoe div 100);
          mp = (5 * doy + 2) div 153;
          d = doy - (153 * mp + 2) div 5 + 1;
          m = (if mp < 10 then mp + 3 else mp - 9);
          y = yoe + era * 400 + (if m \<le> 2 then 1 else 0)
      in (y, m, d))"

definition pad_int :: "nat \<Rightarrow> int \<Rightarrow> gostring" where
  "pad_int w i = zero_pad w (dec (nat i))"

definition trim_zeros :: "gostring \<Rightarrow> gostring" where
  "trim_zeros s = rev (dropWhile (\<lambda>b. b = digit 0) (rev s))"

definition rfc3339nano :: "Time \<Rightarrow> gostring" where
  "rfc3339nano t =
     (let secs = t div second; frac = t mod second;
          (y, m, d) = civil_from_days (secs div 86400);
          s = secs mod 86400
      in pad_int 4 y @ lit ''-'' @ pad_int 2 m @ lit ''-'' @ pad_int 2 d @ lit ''T'' @
         pad_int 2 (s div 3600) @ lit '':'' @ pad_int 2 (s div 60 mod 60) @ lit '':'' @ pad_int 2 (s mod 60) @
         (if frac = 0 then [] else lit ''.'' @ trim_zeros (pad_int 9 frac)) @ lit ''Z'')"

section \<open>Records\<close>

record SubmitRecord =
  sr_GwMsgID :: gostring
  sr_SmscMsgID :: gostring
  sr_NorthConnID :: gostring
  sr_OrigSeqNum :: uint32
  sr_MSISDN :: gostring
  sr_SourceAddr :: gostring
  sr_Payload :: bytes
  sr_SubmittedAt :: Time

record PendingSubmit =
  ps_GwMsgID :: gostring
  ps_ConnID :: gostring
  ps_MSISDN :: gostring
  ps_SourceAddr :: gostring
  ps_RawBody :: bytes
  ps_RetryCount :: int
  ps_EnqueuedAt :: Time

record PendingDeliver =
  pd_TargetConnID :: gostring
  pd_MSISDN :: gostring
  pd_PDUBody :: bytes
  pd_ESMClass :: byte
  pd_SourceAddr :: gostring
  pd_DestAddr :: gostring
  pd_EnqueuedAt :: Time

record MessageStatus =
  ms_GwMsgID :: gostring
  ms_To :: gostring
  ms_From :: gostring
  ms_Reference :: gostring
  ms_Status :: gostring
  ms_DLRStatus :: gostring
  ms_SmscMsgID :: gostring
  ms_UpdatedAt :: Time

record MessageLogEntry =
  ml_GwMsgID :: gostring
  ml_SmscMsgID :: gostring
  ml_ConnID :: gostring
  ml_SourceAddr :: gostring
  ml_DestAddr :: gostring
  ml_Status :: gostring
  ml_DLRStatus :: gostring
  ml_Cost :: rat
  ml_CreatedAt :: Time
  ml_UpdatedAt :: Time

record MessageFilter =
  mf_ConnID :: gostring
  mf_Status :: gostring
  mf_From :: gostring
  mf_To :: gostring
  mf_After :: Time
  mf_Before :: Time
  mf_Limit :: int

record CallbackRecord =
  cb_GwMsgID :: gostring
  cb_CallbackURL :: gostring
  cb_Reference :: gostring
  cb_Retries :: int
  cb_NextAttempt :: Time

record ConnectionConfig =
  cc_SystemID :: gostring
  cc_Password :: gostring
  cc_Description :: gostring
  cc_Enabled :: bool
  cc_AllowedIPs :: "gostring list"
  cc_MaxTPS :: int
  cc_CostPerSMS :: rat
  cc_AllowedPrefixes :: "gostring list"
  cc_DefaultSourceAddr :: gostring
  cc_DefaultSourceTON :: byte
  cc_DefaultSourceNPI :: byte
  cc_SourceAddrMode :: gostring
  cc_ForceSourceAddr :: gostring
  cc_ForceSourceTON :: byte
  cc_ForceSourceNPI :: byte
  cc_AllowedSourceAddrs :: "gostring list"
  cc_MaxBinds :: int
  cc_AllowedBindModes :: "gostring list"
  cc_CreatedAt :: Time
  cc_UpdatedAt :: Time

datatype dbval =
    VSubmit SubmitRecord
  | VPendingSubmit PendingSubmit
  | VPendingDeliver PendingDeliver
  | VStatus MessageStatus
  | VLog MessageLogEntry
  | VCallback CallbackRecord
  | VConnConfig ConnectionConfig
  | VMTRoute MTRoute
  | VMORoute MORoute
  | VPoolConfig SouthboundPoolConfig
  | VRaw gostring

text \<open>\<^verbatim>\<open>json.Marshal\<close> of the records; an MT route's counter is not exported and is not written.\<close>

definition marshal_SubmitRecord :: "SubmitRecord \<Rightarrow> dbval" where
  "marshal_SubmitRecord r = VSubmit (r\<lparr>sr_GwMsgID := json_string (sr_GwMsgID r),
     sr_SmscMsgID := json_string (sr_SmscMsgID r), sr_NorthConnID := json_string (sr_NorthConnID r),
     sr_MSISDN := json_string (sr_MSISDN r), sr_SourceAddr := json_string (sr_SourceAddr r)\<rparr>)"

definition marshal_PendingSubmit :: "PendingSubmit \<Rightarrow> dbval" where
  "marshal_PendingSubmit p = VPendingSubmit (p\<lparr>ps_GwMsgID := json_string (ps_GwMsgID p),
     ps_ConnID := json_string (ps_ConnID p), ps_MSISDN := json_string (ps_MSISDN p),
     ps_SourceAddr := json_string (ps_SourceAddr p)\<rparr>)"

definition marshal_PendingDeliver :: "PendingDeliver \<Rightarrow> dbval" where
  "marshal_PendingDeliver p = VPendingDeliver (p\<lparr>pd_TargetConnID := json_string (pd_TargetConnID p),
     pd_MSISDN := json_string (pd_MSISDN p), pd_SourceAddr := json_string (pd_SourceAddr p),
     pd_DestAddr := json_string (pd_DestAddr p)\<rparr>)"

definition marshal_MessageStatus :: "MessageStatus \<Rightarrow> dbval" where
  "marshal_MessageStatus m = VStatus (m\<lparr>ms_GwMsgID := json_string (ms_GwMsgID m), ms_To := json_string (ms_To m),
     ms_From := json_string (ms_From m), ms_Reference := json_string (ms_Reference m),
     ms_Status := json_string (ms_Status m), ms_DLRStatus := json_string (ms_DLRStatus m),
     ms_SmscMsgID := json_string (ms_SmscMsgID m)\<rparr>)"

definition marshal_MessageLogEntry :: "MessageLogEntry \<Rightarrow> dbval" where
  "marshal_MessageLogEntry m = VLog (m\<lparr>ml_GwMsgID := json_string (ml_GwMsgID m),
     ml_SmscMsgID := json_string (ml_SmscMsgID m), ml_ConnID := json_string (ml_ConnID m),
     ml_SourceAddr := json_string (ml_SourceAddr m), ml_DestAddr := json_string (ml_DestAddr m),
     ml_Status := json_string (ml_Status m), ml_DLRStatus := json_string (ml_DLRStatus m)\<rparr>)"

definition marshal_CallbackRecord :: "CallbackRecord \<Rightarrow> dbval" where
  "marshal_CallbackRecord c = VCallback (c\<lparr>cb_GwMsgID := json_string (cb_GwMsgID c),
     cb_CallbackURL := json_string (cb_CallbackURL c), cb_Reference := json_string (cb_Reference c)\<rparr>)"

definition marshal_ConnectionConfig :: "ConnectionConfig \<Rightarrow> dbval" where
  "marshal_ConnectionConfig c = VConnConfig (c\<lparr>cc_SystemID := json_string (cc_SystemID c),
     cc_Password := json_string (cc_Password c), cc_Description := json_string (cc_Description c),
     cc_AllowedIPs := map json_string (cc_AllowedIPs c),
     cc_AllowedPrefixes := map json_string (cc_AllowedPrefixes c),
     cc_DefaultSourceAddr := json_string (cc_DefaultSourceAddr c),
     cc_SourceAddrMode := json_string (cc_SourceAddrMode c),
     cc_ForceSourceAddr := json_string (cc_ForceSourceAddr c),
     cc_AllowedSourceAddrs := map json_string (cc_AllowedSourceAddrs c),
     cc_AllowedBindModes := map json_string (cc_AllowedBindModes c)\<rparr>)"

definition marshal_MTRoute :: "MTRoute \<Rightarrow> dbval" where
  "marshal_MTRoute r = VMTRoute \<lparr>Prefix = json_string (Prefix r), Strategy = json_string (Strategy r),
     Pools = map (\<lambda>p. p\<lparr>rp_Name := json_string (rp_Name p)\<rparr>) (Pools r), rrIndex = 0\<rparr>"

definition marshal_MORoute :: "MORoute \<Rightarrow> dbval" where
  "marshal_MORoute r = VMORoute (r\<lparr>DestPattern := json_string (DestPattern r),
     SourcePrefix := json_string (SourcePrefix r),
     Target := \<lparr>Type = json_string (Type (Target r)), mt_ConnID = json_string (mt_ConnID (Target r)),
       CallbackURL = json_string (CallbackURL (Target r))\<rparr>\<rparr>)"

definition marshal_PoolConfig :: "SouthboundPoolConfig \<Rightarrow> dbval" where
  "marshal_PoolConfig c = VPoolConfig (c\<lparr>sp_Name := json_string (sp_Name c), sp_Host := json_string (sp_Host c),
     sp_SystemID := json_string (sp_SystemID c), sp_Password := json_string (sp_Password c),
     sp_SourceAddr := json_string (sp_SourceAddr c), sp_BindMode := json_string (sp_BindMode c),
     sp_InterfaceVersion := json_string (sp_InterfaceVersion c)\<rparr>)"

section \<open>The database interface\<close>

datatype get_result = Found dbval | NotFound | GetError

datatype batch_op = BSet gostring dbval | BDelete gostring

record 'd pebble =
  pb_get :: "'d \<Rightarrow> gostring \<Rightarrow> get_result"
  pb_set :: "'d \<Rightarrow> gostring \<Rightarrow> dbval \<Rightarrow> 'd option"
  pb_delete :: "'d \<Rightarrow> gostring \<Rightarrow> 'd option"
  pb_commit :: "'d \<Rightarrow> batch_op list \<Rightarrow> 'd option"
  pb_scan :: "'d \<Rightarrow> gostring \<Rightarrow> gostring option \<Rightarrow> (gostring \<times> dbval option) list option"

fun batch_apply :: "(gostring, dbval) fmap \<Rightarrow> batch_op \<Rightarrow> (gostring, dbval) fmap" where
  "batch_apply m (BSet k v) = fmupd k v m"
| "batch_apply m (BDelete k) = fmdrop k m"

definition in_bounds :: "gostring \<Rightarrow> gostring option \<Rightarrow> gostring \<Rightarrow> bool" where
  "in_bounds lower upper k \<longleftrightarrow> lower \<le> k \<and> (case upper of None \<Rightarrow> True | Some u \<Rightarrow> k < u)"

definition scan_map :: "(gostring, dbval) fmap \<Rightarrow> gostring \<Rightarrow> gostring option \<Rightarrow> (gostring \<times> dbval option) list" where
  "scan_map m lower upper =
     map (\<lambda>k. (k, fmlookup m k)) (filter (in_bounds lower upper) (sorted_list_of_fset (fmdom m)))"

definition pebble_ok :: "'d pebble \<Rightarrow> ('d \<Rightarrow> (gostring, dbval) fmap) \<Rightarrow> bool" where
  "pebble_ok P contents \<longleftrightarrow>
     (\<forall>d k. pb_get P d k = (case fmlookup (contents d) k of Some v \<Rightarrow> Found v | None \<Rightarrow> NotFound)) \<and>
     (\<forall>d k v. \<exists>d'. pb_set P d k v = Some d' \<and> contents d' = fmupd k v (contents d)) \<and>
     (\<forall>d k. \<exists>d'. pb_delete P d k = Some d' \<and> contents d' = fmdrop k (contents d)) \<and>
     (\<forall>d ops. \<exists>d'. pb_commit P d ops = Some d' \<and> contents d' = foldl batch_apply (contents d) ops) \<and>
     (\<forall>d lower upper. pb_scan P d lower upper = Some (scan_map (contents d) lower upper))"

text \<open>A database in memory, which satisfies the assumption.\<close>

definition mem_pebble :: "(gostring, dbval) fmap pebble" where
  "mem_pebble = \<lparr>pb_get = (\<lambda>m k. case fmlookup m k of Some v \<Rightarrow> Found v | None \<Rightarrow> NotFound),
     pb_set = (\<lambda>m k v. Some (fmupd k v m)), pb_delete = (\<lambda>m k. Some (fmdrop k m)),
     pb_commit = (\<lambda>m ops. Some (foldl batch_apply m ops)),
     pb_scan = (\<lambda>m lower upper. Some (scan_map m lower upper))\<rparr>"

lemma mem_pebble_ok: "pebble_ok mem_pebble (\<lambda>m. m)"
  by (simp add: pebble_ok_def mem_pebble_def)

section \<open>Byte order of keys\<close>

lemma less_append_same [simp]: "(p @ x < p @ (y :: byte list)) \<longleftrightarrow> x < y"
  by (induction p) simp_all

lemma le_append_same [simp]: "(p @ x \<le> p @ (y :: byte list)) \<longleftrightarrow> x \<le> y"
  by (induction p) simp_all

lemma less_same_length:
  "length x = length y \<Longrightarrow> x < y \<Longrightarrow> x @ u < y @ (v :: byte list)"
proof (induction x y rule: list_induct2)
  case Nil
  then show ?case by simp
next
  case (Cons a x b y)
  then show ?case by auto
qed

lemma prefix_le: "p \<le> p @ (x :: byte list)"
  using le_append_same [of p "[]" x] by (simp del: le_append_same)

lemma less_app_snoc:
  assumes "length x = length (y :: byte list)" "a < b"
  shows "x @ [a] < y @ [b] \<longleftrightarrow> x \<le> y"
  using assms by (induction x y rule: list_induct2) auto

lemma less_app_snoc2:
  assumes "length x = length (y :: byte list)" "b \<le> a"
  shows "x @ [a] < y @ [b] \<longleftrightarrow> x < y"
  using assms by (induction x y rule: list_induct2) auto

section \<open>Decimal numbers of a fixed width sort like the numbers\<close>

fun digits :: "nat \<Rightarrow> nat \<Rightarrow> gostring" where
  "digits 0 n = []"
| "digits (Suc w) n = digits w (n div 10) @ [digit (n mod 10)]"

lemma length_digits [simp]: "length (digits w n) = w"
  by (induction w arbitrary: n) simp_all

lemma digits_0: "digits w 0 = replicate w (digit 0)"
  by (induction w) (simp_all add: replicate_append_same)

lemma length_dec: "n < 10 ^ Suc w \<Longrightarrow> length (dec n) \<le> Suc w"
proof (induction w arbitrary: n)
  case 0
  then show ?case by (simp add: dec.simps)
next
  case (Suc w)
  show ?case
  proof (cases "n < 10")
    case False
    have "n div 10 < 10 ^ Suc w" using Suc.prems by (simp add: div_less_iff_less_mult)
    then show ?thesis using Suc.IH [of "n div 10"] False by (subst dec.simps) simp
  qed (simp add: dec.simps)
qed

lemma zero_pad_dec: "n < 10 ^ w \<Longrightarrow> 0 < w \<Longrightarrow> zero_pad w (dec n) = digits w n"
proof (induction w arbitrary: n)
  case (Suc w)
  show ?case
  proof (cases "n < 10")
    case True
    then show ?thesis by (simp add: zero_pad_def dec.simps digits_0 flip: replicate_append_same)
  next
    case False
    have lt: "n div 10 < 10 ^ w" using Suc.prems(1) by (simp add: div_less_iff_less_mult)
    have w: "0 < w" using False Suc.prems(1) by (cases w) auto
    have "zero_pad (Suc w) (dec n) = zero_pad w (dec (n div 10)) @ [digit (n mod 10)]"
      using False by (subst dec.simps) (simp add: zero_pad_def)
    then show ?thesis using Suc.IH [OF lt w] by simp
  qed
qed simp

lemma unat_digit: "a < 10 \<Longrightarrow> unat (digit a) = 48 + a"
  by (simp add: digit_def unat_of_nat del: of_nat_add)

lemma digit_less: "a < 10 \<Longrightarrow> b < 10 \<Longrightarrow> digit a < digit b \<longleftrightarrow> a < b"
  by (simp add: word_less_nat_alt unat_digit)

lemma digits_less: "n < 10 ^ w \<Longrightarrow> m < 10 ^ w \<Longrightarrow> digits w n < digits w m \<longleftrightarrow> n < m"
proof (induction w arbitrary: n m)
  case (Suc w)
  have d: "n div 10 < 10 ^ w" "m div 10 < 10 ^ w" using Suc.prems by (simp_all add: div_less_iff_less_mult)
  have le: "digits w (n div 10) \<le> digits w (m div 10) \<longleftrightarrow> n div 10 \<le> m div 10"
    using Suc.IH [OF d(2,1)] by (simp flip: not_less)
  have n: "n = 10 * (n div 10) + n mod 10" and m: "m = 10 * (m div 10) + m mod 10" by simp_all
  have b: "n mod 10 < 10" "m mod 10 < 10" by simp_all
  show ?case
  proof (cases "n mod 10 < m mod 10")
    case True
    then have "digits (Suc w) n < digits (Suc w) m \<longleftrightarrow> n div 10 \<le> m div 10"
      using less_app_snoc [of "digits w (n div 10)" "digits w (m div 10)"] le by (simp add: digit_less)
    moreover have "n < m \<longleftrightarrow> n div 10 \<le> m div 10" using n m b True by linarith
    ultimately show ?thesis by simp
  next
    case False
    then have "digits (Suc w) n < digits (Suc w) m \<longleftrightarrow> n div 10 < m div 10"
      using less_app_snoc2 [of "digits w (n div 10)" "digits w (m div 10)"] Suc.IH [OF d]
      by (simp add: digit_less flip: not_less)
    moreover have "n < m \<longleftrightarrow> n div 10 < m div 10" using n m b False by linarith
    ultimately show ?thesis by simp
  qed
qed simp

text \<open>The times whose \<^verbatim>\<open>UnixNano\<close> is not negative and fits its 64-bit result.\<close>

definition unix_nano :: "Time \<Rightarrow> bool" where
  "unix_nano t \<longleftrightarrow> 0 \<le> t \<and> t < 2 ^ 63"

lemma fmt020d_digits: "unix_nano t \<Longrightarrow> fmt020d t = digits 20 (nat t)"
  unfolding unix_nano_def fmt020d_def by (subst zero_pad_dec) (simp_all add: nat_less_iff)

lemma fmt020d_less: "unix_nano t \<Longrightarrow> unix_nano t' \<Longrightarrow> fmt020d t @ x < fmt020d t' @ y \<longleftrightarrow> t < t' \<or> t = t' \<and> x < y"
proof -
  assume t: "unix_nano t" "unix_nano t'"
  have b: "nat t < 10 ^ 20" "nat t' < 10 ^ 20" using t by (auto simp: unix_nano_def nat_less_iff)
  have lt: "digits 20 (nat t) @ x < digits 20 (nat t') @ y" if "t < t'"
    using that t b by (intro less_same_length) (simp_all add: digits_less unix_nano_def)
  have gt: "digits 20 (nat t') @ y < digits 20 (nat t) @ x" if "t' < t"
    using that t b by (intro less_same_length) (simp_all add: digits_less unix_nano_def)
  show ?thesis
    using lt gt by (cases t t' rule: linorder_cases) (auto simp: fmt020d_digits t)
qed

lemma digits_head: "\<exists>a r. a < 10 \<and> digits (Suc w) n = digit a # r"
proof (induction w arbitrary: n)
  case (Suc w)
  then obtain a r where "a < 10" "digits (Suc w) (n div 10) = digit a # r" by blast
  then show ?case by auto
next
  case 0
  have "n mod 10 < 10 \<and> digits (Suc 0) n = digit (n mod 10) # []" by simp
  then show ?case by blast
qed

lemma fmt020d_head: "unix_nano t \<Longrightarrow> \<exists>a r. a < 10 \<and> fmt020d t = digit a # r"
  using digits_head [of 19 "nat t"] by (simp add: fmt020d_digits)

end
