(* ===== verification/Store.thy ===== *)
theory Store
  imports Database
begin

text \<open>
  The message store \<^verbatim>\<open>gateway/store.go\<close>: submit records with their asynchronous batch writer, the
  two retry queues, the message log and its index, message status, cleanup; and the route
  configuration store \<^verbatim>\<open>gateway/route_config.go\<close> on top of it.

  The background writer is a sequence of steps over the store's state: \<open>writeCh\<close> is the
  content of the channel, \<open>batch\<close> the writes of the current Pebble batch.
\<close>

section \<open>The store\<close>

record 'd MessageStore =
  db :: 'd
  msgCount :: int
  retryCount :: int
  submitRetryCount :: int
  logCount :: int
  writeCh :: "(gostring \<times> dbval) list"
  batch :: "(gostring \<times> dbval) list"
  closed :: bool

datatype store_error = DbError | UnmarshalError | ErrNotFound

abbreviation writeCh_cap :: nat where "writeCh_cap \<equiv> 4096"

definition NewMessageStore :: "'d \<Rightarrow> 'd MessageStore" where
  "NewMessageStore d = \<lparr>db = d, msgCount = 0, retryCount = 0, submitRetryCount = 0, logCount = 0,
     writeCh = [], batch = [], closed = False\<rparr>"

text \<open>\<^verbatim>\<open>s.db.Set\<close> and \<^verbatim>\<open>s.db.Delete\<close> followed by an update that happens only without an error.\<close>

definition set_then :: "'d pebble \<Rightarrow> 'd MessageStore \<Rightarrow> gostring \<Rightarrow> dbval \<Rightarrow>
    ('d MessageStore \<Rightarrow> 'd MessageStore) \<Rightarrow> 'd MessageStore \<times> store_error option" where
  "set_then P s key v upd =
     (case pb_set P (db s) key v of
        None \<Rightarrow> (s, Some DbError) | Some d \<Rightarrow> (upd (s\<lparr>db := d\<rparr>), None))"

definition delete_then :: "'d pebble \<Rightarrow> 'd MessageStore \<Rightarrow> gostring \<Rightarrow>
    ('d MessageStore \<Rightarrow> 'd MessageStore) \<Rightarrow> 'd MessageStore \<times> store_error option" where
  "delete_then P s key upd =
     (case pb_delete P (db s) key of
        None \<Rightarrow> (s, Some DbError) | Some d \<Rightarrow> (upd (s\<lparr>db := d\<rparr>), None))"

definition msg_key :: "gostring \<Rightarrow> gostring" where "msg_key i = lit ''msg:'' @ i"
definition gw_key :: "gostring \<Rightarrow> gostring" where "gw_key i = lit ''gw:'' @ i"

definition StoreSubmit :: "'d pebble \<Rightarrow> 'd MessageStore \<Rightarrow> SubmitRecord \<Rightarrow> 'd MessageStore \<times> store_error option" where
  "StoreSubmit P s record =
     (let data = marshal_SubmitRecord record;
          key = (if sr_SmscMsgID record \<noteq> [] then msg_key (sr_SmscMsgID record) else gw_key (sr_GwMsgID record));
          sync = set_then P s key data (\<lambda>s. s\<lparr>msgCount := msgCount s + 1\<rparr>)
      in if closed s then sync
         else if length (writeCh s) < writeCh_cap
         then (s\<lparr>writeCh := writeCh s @ [(key, data)], msgCount := msgCount s + 1\<rparr>, None)
         else sync)"

text \<open>A get of a submit record: a nil record without an error is \<open>Inr None\<close>.\<close>

definition get_submit_at :: "'d pebble \<Rightarrow> 'd MessageStore \<Rightarrow> gostring \<Rightarrow> store_error + SubmitRecord option" where
  "get_submit_at P s key =
     (case pb_get P (db s) key of
        NotFound \<Rightarrow> Inr None | GetError \<Rightarrow> Inl DbError
      | Found v \<Rightarrow> (case v of VSubmit r \<Rightarrow> Inr (Some r) | _ \<Rightarrow> Inl UnmarshalError))"

definition GetSubmit :: "'d pebble \<Rightarrow> 'd MessageStore \<Rightarrow> gostring \<Rightarrow> store_error + SubmitRecord option" where
  "GetSubmit P s smppMsgID = get_submit_at P s (msg_key smppMsgID)"

definition GetSubmitByGwID :: "'d pebble \<Rightarrow> 'd MessageStore \<Rightarrow> gostring \<Rightarrow> store_error + SubmitRecord option" where
  "GetSubmitByGwID P s gwMsgID = get_submit_at P s (gw_key gwMsgID)"

definition DeleteSubmit :: "'d pebble \<Rightarrow> 'd MessageStore \<Rightarrow> gostring \<Rightarrow> 'd MessageStore \<times> store_error option" where
  "DeleteSubmit P s smscMsgID =
     delete_then P s (msg_key smscMsgID) (\<lambda>s. s\<lparr>msgCount := msgCount s - 1\<rparr>)"

definition DeleteSubmitByGwID :: "'d pebble \<Rightarrow> 'd MessageStore \<Rightarrow> gostring \<Rightarrow> 'd MessageStore \<times> store_error option" where
  "DeleteSubmitByGwID P s gwMsgID =
     delete_then P s (gw_key gwMsgID) (\<lambda>s. s\<lparr>msgCount := msgCount s - 1\<rparr>)"

subsection \<open>Retry queues\<close>

definition retry_key :: "Time \<Rightarrow> gostring \<Rightarrow> gostring" where
  "retry_key t i = lit ''retry:'' @ fmt020d t @ lit '':'' @ i"

definition submit_retry_key :: "Time \<Rightarrow> gostring \<Rightarrow> gostring" where
  "submit_retry_key t i = lit ''submit-retry:'' @ fmt020d t @ lit '':'' @ i"

definition EnqueueRetry :: "'d pebble \<Rightarrow> 'd MessageStore \<Rightarrow> gostring \<Rightarrow> PendingDeliver \<Rightarrow>
    'd MessageStore \<times> store_error option" where
  "EnqueueRetry P s i pending =
     set_then P s (retry_key (pd_EnqueuedAt pending) i) (marshal_PendingDeliver pending)
       (\<lambda>s. s\<lparr>retryCount := retryCount s + 1\<rparr>)"

text \<open>
  The loop of \<^verbatim>\<open>DrainRetries\<close> over the iterator: the results and the keys to delete. An entry that
  cannot be read or parsed is skipped and stays; a stale one is deleted but not returned.
\<close>

fun drain_retries_loop :: "int \<Rightarrow> Time \<Rightarrow> int \<Rightarrow> (gostring \<times> dbval option) list \<Rightarrow> PendingDeliver list \<times> gostring list" where
  "drain_retries_loop limit staleThreshold deleted [] = ([], [])"
| "drain_retries_loop limit staleThreshold deleted ((key, val) # entries) =
     (if 0 < limit \<and> limit \<le> deleted then ([], [])
      else case val of
        Some (VPendingDeliver pending) \<Rightarrow>
          (case drain_retries_loop limit staleThreshold (deleted + 1) entries of (results, keys) \<Rightarrow>
             (if pd_EnqueuedAt pending < staleThreshold then results else pending # results, key # keys))
      | _ \<Rightarrow> drain_retries_loop limit staleThreshold deleted entries)"

definition DrainRetries :: "'d pebble \<Rightarrow> 'd MessageStore \<Rightarrow> Time \<Rightarrow> int \<Rightarrow> int \<Rightarrow>
    'd MessageStore \<times> (store_error + PendingDeliver list)" where
  "DrainRetries P s now maxAge limit =
     (let upperKey = retry_key now []; staleThreshold = now - maxAge in
      case pb_scan P (db s) (lit ''retry:'') (Some upperKey) of
        None \<Rightarrow> (s, Inl DbError)
      | Some entries \<Rightarrow>
          (let (results, keys) = drain_retries_loop limit staleThreshold 0 entries in
           case pb_commit P (db s) (map BDelete keys) of
             None \<Rightarrow> (s, Inl DbError)
           | Some d \<Rightarrow> (s\<lparr>db := d, retryCount := retryCount s - int (length keys)\<rparr>, Inr results)))"

definition EnqueueSubmitRetry :: "'d pebble \<Rightarrow> 'd MessageStore \<Rightarrow> PendingSubmit \<Rightarrow>
    'd MessageStore \<times> store_error option" where
  "EnqueueSubmitRetry P s pending =
     set_then P s (submit_retry_key (ps_EnqueuedAt pending) (ps_GwMsgID pending)) (marshal_PendingSubmit pending)
       (\<lambda>s. s\<lparr>submitRetryCount := submitRetryCount s + 1\<rparr>)"

fun drain_submits_loop :: "int \<Rightarrow> int \<Rightarrow> (gostring \<times> dbval option) list \<Rightarrow> PendingSubmit list \<times> gostring list" where
  "drain_submits_loop limit deleted [] = ([], [])"
| "drain_submits_loop limit deleted ((key, val) # entries) =
     (if 0 < limit \<and> limit \<le> deleted then ([], [])
      else case val of
        Some (VPendingSubmit pending) \<Rightarrow>
          (case drain_submits_loop limit (deleted + 1) entries of (results, keys) \<Rightarrow>
             (pending # results, key # keys))
      | _ \<Rightarrow> drain_submits_loop limit deleted entries)"

definition DrainSubmitRetries :: "'d pebble \<Rightarrow> 'd MessageStore \<Rightarrow> int \<Rightarrow>
    'd MessageStore \<times> (store_error + PendingSubmit list)" where
  "DrainSubmitRetries P s limit =
     (case pb_scan P (db s) (lit ''submit-retry:'') (Some (lit ''submit-retry:'' @ [0xFF])) of
        None \<Rightarrow> (s, Inl DbError)
      | Some entries \<Rightarrow>
          (let (results, keys) = drain_submits_loop limit 0 entries in
           case pb_commit P (db s) (map BDelete keys) of
             None \<Rightarrow> (s, Inl DbError)
           | Some d \<Rightarrow> (s\<lparr>db := d, submitRetryCount := submitRetryCount s - int (length keys)\<rparr>, Inr results)))"

definition PendingRetryCount :: "'d MessageStore \<Rightarrow> int" where
  "PendingRetryCount s = retryCount s"

definition PendingSubmitRetryCount :: "'d MessageStore \<Rightarrow> int" where
  "PendingSubmitRetryCount s = submitRetryCount s"

definition MessageCount :: "'d MessageStore \<Rightarrow> int" where
  "MessageCount s = msgCount s"

definition MessageLogCount :: "'d MessageStore \<Rightarrow> int" where
  "MessageLogCount s = logCount s"

subsection \<open>Cleanup\<close>

text \<open>
  The two timestamps \<^verbatim>\<open>submitted_at\<close> and \<^verbatim>\<open>updated_at\<close> of a stored value, absent ones being the
  zero time; a plain string is not JSON.
\<close>

fun timestamps :: "dbval \<Rightarrow> (Time \<times> Time) option" where
  "timestamps (VSubmit r) = Some (sr_SubmittedAt r, zero_time)"
| "timestamps (VStatus m) = Some (zero_time, ms_UpdatedAt m)"
| "timestamps (VLog m) = Some (zero_time, ml_UpdatedAt m)"
| "timestamps (VConnConfig c) = Some (zero_time, cc_UpdatedAt c)"
| "timestamps (VRaw _) = None"
| "timestamps _ = Some (zero_time, zero_time)"

definition expired :: "Time \<Rightarrow> dbval \<Rightarrow> bool" where
  "expired cutoff v =
     (case timestamps v of None \<Rightarrow> False
      | Some (submitted, updated) \<Rightarrow>
          (let t = (if \<not> IsZero updated then updated else submitted) in t < cutoff))"

text \<open>An index entry goes when the log entry it names is gone or expired.\<close>

definition index_expired :: "'d pebble \<Rightarrow> 'd \<Rightarrow> Time \<Rightarrow> dbval \<Rightarrow> bool" where
  "index_expired P d cutoff v =
     (case v of
        VRaw logKey \<Rightarrow>
          (case pb_get P d logKey of
             Found logv \<Rightarrow>
               (case timestamps logv of None \<Rightarrow> False
                | Some (_, updated) \<Rightarrow> \<not> IsZero updated \<and> updated < cutoff)
           | _ \<Rightarrow> True)
      | _ \<Rightarrow> True)"

definition cleanup_keys :: "'d pebble \<Rightarrow> 'd \<Rightarrow> Time \<Rightarrow> gostring \<Rightarrow> gostring list option" where
  "cleanup_keys P d cutoff prefix =
     (case pb_scan P d prefix (Some (prefix @ [0xFF])) of
        None \<Rightarrow> None
      | Some entries \<Rightarrow>
          Some (map fst (filter (\<lambda>(k, val). case val of None \<Rightarrow> False
            | Some v \<Rightarrow> if prefix = lit ''logidx:'' then index_expired P d cutoff v else expired cutoff v) entries)))"

definition cleanup_prefixes :: "gostring list" where
  "cleanup_prefixes = [lit ''msg:'', lit ''gw:'', lit ''status:'', lit ''log:'', lit ''logidx:'']"

fun cleanup_scan :: "'d pebble \<Rightarrow> 'd \<Rightarrow> Time \<Rightarrow> gostring list \<Rightarrow> gostring list \<Rightarrow> int \<Rightarrow>
    (int + gostring list \<times> int)" where
  "cleanup_scan P d cutoff [] keys logDeleted = Inr (keys, logDeleted)"
| "cleanup_scan P d cutoff (prefix # prefixes) keys logDeleted =
     (case cleanup_keys P d cutoff prefix of
        None \<Rightarrow> Inl (int (length keys))
      | Some ks \<Rightarrow> cleanup_scan P d cutoff prefixes (keys @ ks)
          (if prefix = lit ''log:'' then logDeleted + int (length ks) else logDeleted))"

text \<open>\<open>Cleanup\<close> returns the number of deletions and an error.\<close>

definition Cleanup :: "'d pebble \<Rightarrow> 'd MessageStore \<Rightarrow> Time \<Rightarrow> int \<Rightarrow> 'd MessageStore \<times> int \<times> store_error option" where
  "Cleanup P s now ttl =
     (let cutoff = now - ttl in
      case cleanup_scan P (db s) cutoff cleanup_prefixes [] 0 of
        Inl deleted \<Rightarrow> (s, deleted, Some DbError)
      | Inr (keys, logDeleted) \<Rightarrow>
          (let deleted = int (length keys) in
           if 0 < deleted then
             (case pb_commit P (db s) (map BDelete keys) of
                None \<Rightarrow> (s, 0, Some DbError)
              | Some d \<Rightarrow> (s\<lparr>db := d, msgCount := msgCount s - (deleted - logDeleted),
                           logCount := logCount s - logDeleted\<rparr>, deleted, None))
           else (s, deleted, None)))"

subsection \<open>The batch writer\<close>

abbreviation maxBatch :: nat where "maxBatch \<equiv> 500"

definition writer_flush :: "'d pebble \<Rightarrow> 'd MessageStore \<Rightarrow> 'd MessageStore" where
  "writer_flush P s =
     (if batch s = [] then s
      else case pb_commit P (db s) (map (\<lambda>(k, v). BSet k v) (batch s)) of
        None \<Rightarrow> s\<lparr>batch := []\<rparr>
      | Some d \<Rightarrow> s\<lparr>db := d, batch := []\<rparr>)"

text \<open>The case of the loop that receives one write; nothing happens on an empty channel.\<close>

definition writer_receive :: "'d pebble \<Rightarrow> 'd MessageStore \<Rightarrow> 'd MessageStore" where
  "writer_receive P s =
     (case writeCh s of [] \<Rightarrow> s
      | op # ops \<Rightarrow>
          (let s = s\<lparr>writeCh := ops, batch := batch s @ [op]\<rparr>
           in if maxBatch \<le> length (batch s) then writer_flush P s else s))"

text \<open>The case of the loop after \<^verbatim>\<open>stopCh\<close> is closed: drain the channel and flush once.\<close>

definition writer_drain :: "'d pebble \<Rightarrow> 'd MessageStore \<Rightarrow> 'd MessageStore" where
  "writer_drain P s = writer_flush P (s\<lparr>writeCh := [], batch := batch s @ writeCh s\<rparr>)"

definition store_Close :: "'d pebble \<Rightarrow> 'd MessageStore \<Rightarrow> 'd MessageStore" where
  "store_Close P s = writer_drain P (s\<lparr>closed := True\<rparr>)"

subsection \<open>JSON values under keys\<close>

definition SetJSON :: "'d pebble \<Rightarrow> 'd MessageStore \<Rightarrow> gostring \<Rightarrow> dbval \<Rightarrow> 'd MessageStore \<times> store_error option" where
  "SetJSON P s key v = set_then P s key v (\<lambda>s. s)"

definition GetJSON :: "'d pebble \<Rightarrow> 'd MessageStore \<Rightarrow> gostring \<Rightarrow> (dbval \<Rightarrow> 'a option) \<Rightarrow> store_error + 'a" where
  "GetJSON P s key unmarshal =
     (case pb_get P (db s) key of
        NotFound \<Rightarrow> Inl ErrNotFound | GetError \<Rightarrow> Inl DbError
      | Found data \<Rightarrow> (case unmarshal data of None \<Rightarrow> Inl UnmarshalError | Some v \<Rightarrow> Inr v))"

definition DeleteKey :: "'d pebble \<Rightarrow> 'd MessageStore \<Rightarrow> gostring \<Rightarrow> 'd MessageStore \<times> store_error option" where
  "DeleteKey P s key = delete_then P s key (\<lambda>s. s)"

text \<open>
  The loop runs on the reversed prefix, from its last byte: a byte that wraps to zero carries into the
  one before it. All bytes \<^verbatim>\<open>0xFF\<close> give no bound.
\<close>

fun carry_up :: "bytes \<Rightarrow> bytes option" where
  "carry_up [] = None"
| "carry_up (b # bs) = (if b + 1 \<noteq> 0 then Some ((b + 1) # bs) else map_option ((#) 0) (carry_up bs))"

definition prefixUpperBound :: "bytes \<Rightarrow> bytes option" where
  "prefixUpperBound prefix = map_option rev (carry_up (rev prefix))"

text \<open>The callback folds a state; an error of the iterator or of the callback ends the scan.\<close>

fun scan_loop :: "(gostring \<Rightarrow> dbval \<Rightarrow> 's \<Rightarrow> store_error + 's) \<Rightarrow> (gostring \<times> dbval option) list \<Rightarrow> 's \<Rightarrow>
    's \<times> store_error option" where
  "scan_loop fn [] st = (st, None)"
| "scan_loop fn ((key, None) # entries) st = (st, Some DbError)"
| "scan_loop fn ((key, Some val) # entries) st =
     (case fn key val st of Inl e \<Rightarrow> (st, Some e) | Inr st' \<Rightarrow> scan_loop fn entries st')"

definition ScanPrefix :: "'d pebble \<Rightarrow> 'd MessageStore \<Rightarrow> gostring \<Rightarrow>
    (gostring \<Rightarrow> dbval \<Rightarrow> 's \<Rightarrow> store_error + 's) \<Rightarrow> 's \<Rightarrow> 's \<times> store_error option" where
  "ScanPrefix P s prefix fn st =
     (case pb_scan P (db s) prefix (prefixUpperBound prefix) of
        None \<Rightarrow> (st, Some DbError)
      | Some entries \<Rightarrow> scan_loop fn entries st)"

subsection \<open>Message status\<close>

definition status_key :: "gostring \<Rightarrow> gostring" where "status_key i = lit ''status:'' @ i"

fun as_status :: "dbval \<Rightarrow> MessageStatus option" where
  "as_status (VStatus m) = Some m"
| "as_status _ = None"

definition SetMessageStatus :: "'d pebble \<Rightarrow> 'd MessageStore \<Rightarrow> MessageStatus \<Rightarrow> 'd MessageStore \<times> store_error option" where
  "SetMessageStatus P s st = SetJSON P s (status_key (ms_GwMsgID st)) (marshal_MessageStatus st)"

definition nil_if_absent :: "store_error + 'a \<Rightarrow> store_error + 'a option" where
  "nil_if_absent r = (case r of Inr v \<Rightarrow> Inr (Some v) | Inl ErrNotFound \<Rightarrow> Inr None | Inl e \<Rightarrow> Inl e)"

definition GetMessageStatus :: "'d pebble \<Rightarrow> 'd MessageStore \<Rightarrow> gostring \<Rightarrow> store_error + MessageStatus option" where
  "GetMessageStatus P s gwMsgID = nil_if_absent (GetJSON P s (status_key gwMsgID) as_status)"

subsection \<open>The message log\<close>

definition log_key :: "Time \<Rightarrow> gostring \<Rightarrow> gostring" where
  "log_key t i = lit ''log:'' @ rfc3339nano t @ lit '':'' @ i"

definition logidx_key :: "gostring \<Rightarrow> gostring" where "logidx_key i = lit ''logidx:'' @ i"

definition LogMessage :: "'d pebble \<Rightarrow> 'd MessageStore \<Rightarrow> Time \<Rightarrow> MessageLogEntry \<Rightarrow> 'd MessageStore \<times> store_error option" where
  "LogMessage P s now entry =
     (let entry = (if IsZero (ml_CreatedAt entry) then entry\<lparr>ml_CreatedAt := now\<rparr> else entry);
          entry = entry\<lparr>ml_UpdatedAt := now\<rparr>;
          key = log_key (ml_CreatedAt entry) (ml_GwMsgID entry)
      in case set_then P s key (marshal_MessageLogEntry entry) (\<lambda>s. s) of
           (s, Some e) \<Rightarrow> (s, Some e)
         | (s, None) \<Rightarrow> set_then P s (logidx_key (ml_GwMsgID entry)) (VRaw key) (\<lambda>s. s\<lparr>logCount := logCount s + 1\<rparr>))"

definition UpdateMessageLog :: "'d pebble \<Rightarrow> 'd MessageStore \<Rightarrow> Time \<Rightarrow> gostring \<Rightarrow>
    (MessageLogEntry \<Rightarrow> MessageLogEntry) \<Rightarrow> 'd MessageStore \<times> store_error option" where
  "UpdateMessageLog P s now gwMsgID updater =
     (case pb_get P (db s) (logidx_key gwMsgID) of
        NotFound \<Rightarrow> (s, None) | GetError \<Rightarrow> (s, Some DbError)
      | Found (VRaw logKey) \<Rightarrow>
          (case pb_get P (db s) logKey of
             NotFound \<Rightarrow> (s, None) | GetError \<Rightarrow> (s, Some DbError)
           | Found (VLog entry) \<Rightarrow>
               set_then P s logKey (marshal_MessageLogEntry ((updater entry)\<lparr>ml_UpdatedAt := now\<rparr>)) (\<lambda>s. s)
           | Found _ \<Rightarrow> (s, Some UnmarshalError))
      | Found _ \<Rightarrow> (s, None))"

text \<open>\<^verbatim>\<open>strings.Contains\<close>.\<close>

fun Contains :: "gostring \<Rightarrow> gostring \<Rightarrow> bool" where
  "Contains [] sub = (sub = [])"
| "Contains (b # s) sub = (HasPrefix (b # s) sub \<or> Contains s sub)"

definition filter_entry :: "MessageFilter \<Rightarrow> MessageLogEntry \<Rightarrow> bool" where
  "filter_entry f entry \<longleftrightarrow>
     \<not> (mf_ConnID f \<noteq> [] \<and> ml_ConnID entry \<noteq> mf_ConnID f) \<and>
     \<not> (mf_Status f \<noteq> [] \<and> ml_Status entry \<noteq> mf_Status f) \<and>
     \<not> (mf_From f \<noteq> [] \<and> \<not> Contains (ml_SourceAddr entry) (mf_From f)) \<and>
     \<not> (mf_To f \<noteq> [] \<and> \<not> Contains (ml_DestAddr entry) (mf_To f))"

fun query_loop :: "MessageFilter \<Rightarrow> int \<Rightarrow> (gostring \<times> dbval option) list \<Rightarrow> MessageLogEntry list \<Rightarrow> MessageLogEntry list" where
  "query_loop f limit [] results = results"
| "query_loop f limit ((key, val) # entries) results =
     (if limit \<le> int (length results) then results
      else case val of
        Some (VLog entry) \<Rightarrow>
          query_loop f limit entries (if filter_entry f entry then results @ [entry] else results)
      | _ \<Rightarrow> query_loop f limit entries results)"

definition QueryMessages :: "'d pebble \<Rightarrow> 'd MessageStore \<Rightarrow> MessageFilter \<Rightarrow> store_error + MessageLogEntry list" where
  "QueryMessages P s f =
     (let limit = (if mf_Limit f \<le> 0 then 50 else mf_Limit f);
          limit = (if 200 < limit then 200 else limit);
          lower = (if \<not> IsZero (mf_After f) then lit ''log:'' @ rfc3339nano (mf_After f) else lit ''log:'');
          upper = (if \<not> IsZero (mf_Before f) then lit ''log:'' @ rfc3339nano (mf_Before f) @ [0xFF] else lit ''log:'' @ [0xFF])
      in case pb_scan P (db s) lower (Some upper) of
           None \<Rightarrow> Inl DbError
         | Some entries \<Rightarrow> Inr (query_loop f limit (rev entries) []))"

end
