(* ===== verification/Store_Queue.thy ===== *)
theory Store_Queue
  imports Store
begin

text \<open>
  The retry queues of the message store as time-ordered queues. The loops that drain them share a
  shape (locale \<open>drain_loop\<close>); the queues share a contract (locale \<open>retry_queue\<close>): a drain takes
  the oldest entries first, takes each entry once, and leaves the others in place. Both
  locales are interpreted on \<open>DrainRetries\<close> and on \<open>DrainSubmitRetries\<close>.
\<close>

section \<open>Facts about the database\<close>

lemma pebble_get: "pebble_ok P contents \<Longrightarrow>
    pb_get P d k = (case fmlookup (contents d) k of Some v \<Rightarrow> Found v | None \<Rightarrow> NotFound)"
  by (simp add: pebble_ok_def)

lemma pebble_setE:
  assumes "pebble_ok P contents"
  obtains d' where "pb_set P d k v = Some d'" "contents d' = fmupd k v (contents d)"
  using assms by (meson pebble_ok_def)

lemma pebble_deleteE:
  assumes "pebble_ok P contents"
  obtains d' where "pb_delete P d k = Some d'" "contents d' = fmdrop k (contents d)"
  using assms by (meson pebble_ok_def)

lemma pebble_commitE:
  assumes "pebble_ok P contents"
  obtains d' where "pb_commit P d ops = Some d'" "contents d' = foldl batch_apply (contents d) ops"
  using assms by (meson pebble_ok_def)

lemma pebble_scan: "pebble_ok P contents \<Longrightarrow> pb_scan P d lower upper = Some (scan_map (contents d) lower upper)"
  by (simp add: pebble_ok_def)

lemma batch_deletes: "foldl batch_apply m (map BDelete keys) = fmdrop_set (set keys) m"
proof (induction keys arbitrary: m)
  case (Cons k keys)
  then show ?case by (auto intro!: fmap_ext)
qed (auto intro!: fmap_ext)

lemma scan_map_fst: "map fst (scan_map m lower upper) = filter (in_bounds lower upper) (sorted_list_of_fset (fmdom m))"
  by (simp add: scan_map_def comp_def)

lemma scan_map_sorted: "sorted_wrt (<) (map fst (scan_map m lower upper))"
  unfolding scan_map_fst sorted_list_of_fset.rep_eq
  by (intro sorted_wrt_filter) simp

lemma scan_map_set: "(k, v) \<in> set (scan_map m lower upper) \<longleftrightarrow>
    in_bounds lower upper k \<and> k |\<in>| fmdom m \<and> v = fmlookup m k"
  by (auto simp: scan_map_def sorted_list_of_fset.rep_eq)

lemma scan_map_drop: "scan_map (fmdrop_set A m) lower upper = filter (\<lambda>(k, v). k \<notin> A) (scan_map m lower upper)"
proof -
  let ?D = "sorted_list_of_fset (fmdom m)"
  have "sorted_list_of_fset (fmdom (fmdrop_set A m)) = filter (\<lambda>k. k \<notin> A) ?D"
    by (intro sorted_distinct_set_unique sorted_wrt_filter)
      (auto simp: sorted_list_of_fset.rep_eq fmlookup_dom_iff split: if_splits)
  then show ?thesis
    by (simp add: scan_map_def filter_map comp_def conj_commute)
qed

section \<open>The loop that drains a queue\<close>

definition parsed :: "(dbval \<Rightarrow> 'p option) \<Rightarrow> (gostring \<times> dbval option) list \<Rightarrow> (gostring \<times> 'p) list" where
  "parsed parse es = List.map_filter (\<lambda>(k, v). map_option (Pair k) (Option.bind v parse)) es"

definition drained :: "int \<Rightarrow> 'a list \<Rightarrow> 'a list" where
  "drained limit xs = (if 0 < limit then take (nat limit) xs else xs)"

definition kept :: "int \<Rightarrow> 'a list \<Rightarrow> 'a list" where
  "kept limit xs = (if 0 < limit then drop (nat limit) xs else [])"

lemma drained_kept: "drained limit xs @ kept limit xs = xs"
  by (simp add: drained_def kept_def)

lemma parsed_simps [simp]:
  "parsed parse [] = []"
  "parsed parse ((k, v) # es) = (case Option.bind v parse of None \<Rightarrow> parsed parse es | Some p \<Rightarrow> (k, p) # parsed parse es)"
  by (simp_all add: parsed_def map_filter_simps split: option.split)

lemma parsed_filter: "parsed parse (filter (\<lambda>(k, v). k \<notin> A) es) = filter (\<lambda>(k, p). k \<notin> A) (parsed parse es)"
proof (induction es)
  case (Cons e es)
  then show ?case by (cases e; cases "Option.bind (snd e) parse") auto
qed simp

lemma parsed_set: "(k, p) \<in> set (parsed parse es) \<longleftrightarrow> (\<exists>v. (k, Some v) \<in> set es \<and> parse v = Some p)"
proof (induction es)
  case (Cons e es)
  then show ?case by (cases e) (auto split: option.splits bind_splits)
qed simp

lemma parsed_sorted:
  "sorted_wrt (<) (map fst es) \<Longrightarrow> sorted_wrt (<) (map fst (parsed parse es))"
proof (induction es)
  case (Cons e es)
  have "k \<in> fst ` set es" if "k \<in> fst ` set (parsed parse es)" for k
    using that by (force simp: parsed_set)
  then show ?case using Cons by (cases e) (fastforce split: option.split)
qed simp

locale drain_loop =
  fixes loop :: "int \<Rightarrow> int \<Rightarrow> (gostring \<times> dbval option) list \<Rightarrow> 'p list \<times> gostring list"
    and parse :: "dbval \<Rightarrow> 'p option"
    and keep :: "'p \<Rightarrow> bool"
  assumes loop_nil: "loop limit n [] = ([], [])"
    and loop_cons: "loop limit n ((k, v) # es) =
      (if 0 < limit \<and> limit \<le> n then ([], [])
       else case Option.bind v parse of
         Some p \<Rightarrow> (case loop limit (n + 1) es of (rs, ks) \<Rightarrow> (if keep p then p # rs else rs, k # ks))
       | None \<Rightarrow> loop limit n es)"
begin

lemma loop_unlimited:
  "limit \<le> 0 \<Longrightarrow> loop limit n es = (filter keep (map snd (parsed parse es)), map fst (parsed parse es))"
proof (induction es arbitrary: n)
  case (Cons e es)
  then show ?case by (cases e) (simp add: loop_cons split: option.split)
qed (simp add: loop_nil)

lemma loop_limited:
  "0 < limit \<Longrightarrow> loop limit n es =
    (filter keep (map snd (take (nat (limit - n)) (parsed parse es))), map fst (take (nat (limit - n)) (parsed parse es)))"
proof (induction es arbitrary: n)
  case (Cons e es)
  have "nat (limit - n) = Suc (nat (limit - (n + 1)))" if "n < limit" using that by simp
  then show ?case using Cons by (cases e) (auto simp: loop_cons split: option.split)
qed (simp add: loop_nil)

lemma loop_drained:
  "loop limit 0 es = (filter keep (map snd (drained limit (parsed parse es))), map fst (drained limit (parsed parse es)))"
  using loop_unlimited [of limit 0 es] loop_limited [of limit 0 es] by (simp add: drained_def)

end

fun as_pending_deliver :: "dbval \<Rightarrow> PendingDeliver option" where
  "as_pending_deliver (VPendingDeliver p) = Some p"
| "as_pending_deliver _ = None"

fun as_pending_submit :: "dbval \<Rightarrow> PendingSubmit option" where
  "as_pending_submit (VPendingSubmit p) = Some p"
| "as_pending_submit _ = None"

interpretation dl: drain_loop "\<lambda>limit. drain_retries_loop limit st" as_pending_deliver "\<lambda>p. \<not> pd_EnqueuedAt p < st" for st
  by unfold_locales (auto split: option.split dbval.split prod.split)

interpretation sl: drain_loop drain_submits_loop as_pending_submit "\<lambda>p. True"
  by unfold_locales (auto split: option.split dbval.split prod.split)

section \<open>The contract of a retry queue\<close>

text \<open>
  \<open>backlog s\<close> lists the entries a drain can take, in the order of their keys. A drain with a positive
  \<open>limit\<close> takes that many, one with another limit takes all; it drops entries that are not
  \<open>keep\<close> (too old).
\<close>

fun drain_rounds :: "('s \<Rightarrow> int \<Rightarrow> 's \<times> ('e + 'p list)) \<Rightarrow> nat \<Rightarrow> int \<Rightarrow> 's \<Rightarrow> 's \<times> 'p list" where
  "drain_rounds drain 0 limit s = (s, [])"
| "drain_rounds drain (Suc n) limit s =
     (case drain s limit of
        (s', Inl e) \<Rightarrow> (s', [])
      | (s', Inr rs) \<Rightarrow> (case drain_rounds drain n limit s' of (s'', rs') \<Rightarrow> (s'', rs @ rs')))"

locale retry_queue =
  fixes invar :: "'s \<Rightarrow> bool"
    and backlog :: "'s \<Rightarrow> (gostring \<times> 'p) list"
    and stamp :: "'p \<Rightarrow> Time"
    and keep :: "'p \<Rightarrow> bool"
    and due :: "'p \<Rightarrow> bool"
    and key :: "gostring \<Rightarrow> 'p \<Rightarrow> gostring"
    and stored :: "'p \<Rightarrow> 'p"
    and enqueue :: "'s \<Rightarrow> gostring \<Rightarrow> 'p \<Rightarrow> 's \<times> 'e option"
    and drain :: "'s \<Rightarrow> int \<Rightarrow> 's \<times> ('e + 'p list)"
  assumes backlog_chrono: "invar s \<Longrightarrow> sorted (map (\<lambda>e. stamp (snd e)) (backlog s))"
    and backlog_keys: "invar s \<Longrightarrow> distinct (map fst (backlog s))"
    and drain_law: "invar s \<Longrightarrow> \<exists>s'. drain s limit = (s', Inr (filter keep (map snd (drained limit (backlog s))))) \<and>
      backlog s' = kept limit (backlog s) \<and> invar s'"
    and enqueue_law: "invar s \<Longrightarrow> unix_nano (stamp p) \<Longrightarrow> \<exists>s'. enqueue s i p = (s', None) \<and> invar s' \<and>
      set (backlog s') = (if due p then {(key i p, stored p)} else {}) \<union> {e \<in> set (backlog s). fst e \<noteq> key i p}"
begin

lemma drain_rounds_all:
  "invar s \<Longrightarrow> 0 < limit \<Longrightarrow> length (backlog s) \<le> n * nat limit \<Longrightarrow>
   \<exists>s'. drain_rounds drain n limit s = (s', filter keep (map snd (backlog s))) \<and> backlog s' = [] \<and> invar s'"
proof (induction n arbitrary: s)
  case (Suc n)
  obtain s1 where s1: "drain s limit = (s1, Inr (filter keep (map snd (drained limit (backlog s)))))"
      "backlog s1 = kept limit (backlog s)" "invar s1"
    using drain_law [OF Suc.prems(1)] by blast
  have "length (backlog s1) \<le> n * nat limit" using Suc.prems(2,3) by (simp add: s1(2) kept_def)
  then obtain s2 where s2: "drain_rounds drain n limit s1 = (s2, filter keep (map snd (backlog s1)))"
      "backlog s2 = []" "invar s2"
    using Suc.IH [OF s1(3) Suc.prems(2)] by blast
  have "filter keep (map snd (backlog s)) =
      filter keep (map snd (drained limit (backlog s))) @ filter keep (map snd (kept limit (backlog s)))"
    using drained_kept [of limit "backlog s"] by (metis filter_append map_append)
  then show ?case using s1 s2 by simp
qed simp

lemma drain_oldest_first:
  assumes "invar s" "drain s limit = (s', Inr rs)"
  shows "sorted (map stamp rs) \<and> (\<forall>r \<in> set rs. \<forall>e \<in> set (backlog s'). stamp r \<le> stamp (snd e))"
proof -
  let ?t = "\<lambda>e. stamp (snd e)"
  have rs: "rs = filter keep (map snd (drained limit (backlog s)))" and b: "backlog s' = kept limit (backlog s)"
    using drain_law [OF assms(1), of limit] assms(2) by auto
  have "sorted (map ?t (drained limit (backlog s) @ kept limit (backlog s)))"
    using backlog_chrono [OF assms(1)] by (simp only: drained_kept)
  then have "sorted (map ?t (drained limit (backlog s)))"
      "\<forall>x \<in> set (drained limit (backlog s)). \<forall>y \<in> set (kept limit (backlog s)). ?t x \<le> ?t y"
    by (auto simp: sorted_append)
  then show ?thesis
    unfolding rs b by (auto simp: comp_def intro: sorted_filter)
qed

lemma enqueue_then_drain:
  assumes "invar s" "unix_nano (stamp p)" "due p" "keep (stored p)" "limit \<le> 0"
  shows "\<exists>s' s'' rs. enqueue s i p = (s', None) \<and> drain s' limit = (s'', Inr rs) \<and> stored p \<in> set rs"
proof -
  obtain s' where s': "enqueue s i p = (s', None)" "invar s'" "(key i p, stored p) \<in> set (backlog s')"
    using enqueue_law [OF assms(1,2), of i] assms(3) by auto
  obtain s'' where "drain s' limit = (s'', Inr (filter keep (map snd (backlog s'))))"
    using drain_law [OF s'(2), of limit] assms(5) by (auto simp: drained_def)
  then show ?thesis using s' assms(4) by force
qed

end

section \<open>Queues under a key prefix\<close>

lemma prefix_bounds: "p \<le> k \<and> k < p @ y \<longleftrightarrow> (\<exists>x. k = p @ x \<and> x < (y :: byte list))"
proof (induction p arbitrary: k)
  case Nil
  then show ?case by simp
next
  case (Cons a p)
  show ?case
  proof (cases k)
    case (Cons b k')
    then show ?thesis using Cons.IH [of k'] by auto
  qed auto
qed

definition queue_ns :: "gostring \<Rightarrow> (dbval \<Rightarrow> 'p option) \<Rightarrow> ('p \<Rightarrow> Time) \<Rightarrow> (gostring, dbval) fmap \<Rightarrow> bool" where
  "queue_ns pre parse stamp m \<longleftrightarrow> (\<forall>k v. fmlookup m k = Some v \<longrightarrow> HasPrefix k pre \<longrightarrow>
     (\<exists>p i. parse v = Some p \<and> k = pre @ fmt020d (stamp p) @ lit '':'' @ i \<and> unix_nano (stamp p)))"

definition queue_log :: "gostring \<Rightarrow> gostring \<Rightarrow> (dbval \<Rightarrow> 'p option) \<Rightarrow> (gostring, dbval) fmap \<Rightarrow> (gostring \<times> 'p) list" where
  "queue_log pre upper parse m = parsed parse (scan_map m pre (Some (pre @ upper)))"

lemma queue_set: "(k, p) \<in> set (queue_log pre upper parse m) \<longleftrightarrow>
    (\<exists>x. k = pre @ x \<and> x < upper) \<and> (\<exists>v. fmlookup m k = Some v \<and> parse v = Some p)"
  by (auto simp: queue_log_def parsed_set scan_map_set in_bounds_def prefix_bounds fmlookup_dom_iff)

lemma queue_sorted: "sorted_wrt (<) (map fst (queue_log pre upper parse m))"
  unfolding queue_log_def by (rule parsed_sorted [OF scan_map_sorted])

lemma queue_distinct: "distinct (map fst (queue_log pre upper parse m))"
  using queue_sorted [of pre upper parse m] by (simp add: strict_sorted_iff)

lemma queue_chrono:
  assumes "queue_ns pre parse stamp m"
  shows "sorted (map (\<lambda>e. stamp (snd e)) (queue_log pre upper parse m))"
proof -
  have typed: "\<exists>i. fst e = pre @ fmt020d (stamp (snd e)) @ lit '':'' @ i \<and> unix_nano (stamp (snd e))"
    if "e \<in> set (queue_log pre upper parse m)" for e
  proof -
    obtain k p where e: "e = (k, p)" by force
    from that have "(\<exists>x. k = pre @ x \<and> x < upper) \<and> (\<exists>v. fmlookup m k = Some v \<and> parse v = Some p)"
      unfolding e queue_set .
    then obtain x v where "k = pre @ x" "fmlookup m k = Some v" "parse v = Some p" by blast
    then show ?thesis using assms [unfolded queue_ns_def, rule_format, of k v] by (auto simp: e HasPrefix_iff)
  qed
  have "stamp (snd x) \<le> stamp (snd y)"
    if h: "x \<in> set (queue_log pre upper parse m)" "y \<in> set (queue_log pre upper parse m)" "fst x < fst y" for x y
  proof -
    obtain i where x: "fst x = pre @ fmt020d (stamp (snd x)) @ lit '':'' @ i" "unix_nano (stamp (snd x))"
      using typed [OF h(1)] by blast
    obtain j where y: "fst y = pre @ fmt020d (stamp (snd y)) @ lit '':'' @ j" "unix_nano (stamp (snd y))"
      using typed [OF h(2)] by blast
    show ?thesis using h(3) unfolding x(1) y(1) less_append_same fmt020d_less [OF x(2) y(2)] by auto
  qed
  then show ?thesis
    using queue_sorted [of pre upper parse m] unfolding sorted_map sorted_wrt_map
    by (rule sorted_wrt_mono_rel)
qed

lemma filter_not_taken:
  "distinct (map fst xs) \<Longrightarrow> filter (\<lambda>(k, p). k \<notin> set (map fst (drained limit xs))) xs = kept limit xs"
proof -
  assume d: "distinct (map fst xs)"
  let ?f = "\<lambda>(k, p). k \<notin> set (map fst (drained limit xs))"
  have "set (map fst (drained limit xs)) \<inter> set (map fst (kept limit xs)) = {}"
    using d drained_kept [of limit xs] by (metis distinct_append map_append)
  then have "filter ?f (drained limit xs) = []" "filter ?f (kept limit xs) = kept limit xs"
    by (force simp: filter_empty_conv filter_id_conv)+
  then show ?thesis
    using drained_kept [of limit xs] by (metis append_Nil filter_append)
qed

lemma queue_drain: "queue_log pre upper parse (fmdrop_set (set (map fst (drained limit (queue_log pre upper parse m)))) m) =
    kept limit (queue_log pre upper parse m)"
  using filter_not_taken [OF queue_distinct [of pre upper parse m], of limit]
  by (simp add: queue_log_def scan_map_drop parsed_filter)

lemma queue_ns_drop: "queue_ns pre parse stamp m \<Longrightarrow> queue_ns pre parse stamp (fmdrop_set A m)"
  by (simp add: queue_ns_def)

lemma queue_ns_upd:
  "queue_ns pre parse stamp m \<Longrightarrow> parse v = Some p \<Longrightarrow> unix_nano (stamp p) \<Longrightarrow>
   queue_ns pre parse stamp (fmupd (pre @ fmt020d (stamp p) @ lit '':'' @ i) v m)"
  by (auto simp: queue_ns_def)

lemma queue_upd_set:
  "parse v = Some p \<Longrightarrow> set (queue_log pre upper parse (fmupd (pre @ x) v m)) =
    (if x < upper then {(pre @ x, p)} else {}) \<union> {e \<in> set (queue_log pre upper parse m). fst e \<noteq> pre @ x}"
  by (auto simp: queue_set split: if_splits)

section \<open>The southbound queue\<close>

abbreviation submit_log :: "(gostring, dbval) fmap \<Rightarrow> (gostring \<times> PendingSubmit) list" where
  "submit_log \<equiv> queue_log (lit ''submit-retry:'') [0xFF] as_pending_submit"

abbreviation submit_ns :: "(gostring, dbval) fmap \<Rightarrow> bool" where
  "submit_ns \<equiv> queue_ns (lit ''submit-retry:'') as_pending_submit ps_EnqueuedAt"

definition json_PendingSubmit :: "PendingSubmit \<Rightarrow> PendingSubmit" where
  "json_PendingSubmit p = p\<lparr>ps_GwMsgID := json_string (ps_GwMsgID p),
     ps_ConnID := json_string (ps_ConnID p), ps_MSISDN := json_string (ps_MSISDN p),
     ps_SourceAddr := json_string (ps_SourceAddr p)\<rparr>"

lemma DrainSubmitRetries_law:
  assumes "pebble_ok P contents"
  shows "\<exists>s'. DrainSubmitRetries P s limit = (s', Inr (map snd (drained limit (submit_log (contents (db s)))))) \<and>
    contents (db s') = fmdrop_set (set (map fst (drained limit (submit_log (contents (db s)))))) (contents (db s))"
proof -
  let ?Q = "submit_log (contents (db s))"
  obtain d' where d: "pb_commit P (db s) (map BDelete (map fst (drained limit ?Q))) = Some d'"
      "contents d' = foldl batch_apply (contents (db s)) (map BDelete (map fst (drained limit ?Q)))"
    using pebble_commitE [OF assms] .
  have "drain_submits_loop limit 0 (scan_map (contents (db s)) (lit ''submit-retry:'') (Some (lit ''submit-retry:'' @ [0xFF]))) =
      (map snd (drained limit ?Q), map fst (drained limit ?Q))"
    by (simp add: sl.loop_drained queue_log_def)
  then show ?thesis
    using d by (simp add: DrainSubmitRetries_def pebble_scan [OF assms] batch_deletes del: map_map)
qed

lemma EnqueueSubmitRetry_law:
  assumes "pebble_ok P contents"
  shows "\<exists>s'. EnqueueSubmitRetry P s p = (s', None) \<and> contents (db s') =
    fmupd (submit_retry_key (ps_EnqueuedAt p) (ps_GwMsgID p)) (VPendingSubmit (json_PendingSubmit p)) (contents (db s))"
proof -
  obtain d' where "pb_set P (db s) (submit_retry_key (ps_EnqueuedAt p) (ps_GwMsgID p)) (marshal_PendingSubmit p) = Some d'"
      "contents d' = fmupd (submit_retry_key (ps_EnqueuedAt p) (ps_GwMsgID p)) (marshal_PendingSubmit p) (contents (db s))"
    using pebble_setE [OF assms] .
  then show ?thesis
    by (simp add: EnqueueSubmitRetry_def set_then_def marshal_PendingSubmit_def json_PendingSubmit_def)
qed

lemma fmt020d_below_FF: "unix_nano t \<Longrightarrow> fmt020d t @ x < [0xFF]"
  using fmt020d_head [of t] by (auto simp: word_less_nat_alt unat_digit)

interpretation sq: retry_queue
  "\<lambda>s. pebble_ok P contents \<and> submit_ns (contents (db s))" "\<lambda>s. submit_log (contents (db s))"
  ps_EnqueuedAt "\<lambda>_. True" "\<lambda>_. True" "\<lambda>i p. submit_retry_key (ps_EnqueuedAt p) (ps_GwMsgID p)" json_PendingSubmit
  "\<lambda>s i p. EnqueueSubmitRetry P s p" "DrainSubmitRetries P" for P contents
proof (unfold_locales, goal_cases)
  case (1 s)
  then show ?case by (blast intro: queue_chrono)
next
  case (2 s)
  show ?case by (rule queue_distinct)
next
  case (3 s limit)
  obtain s' where s': "DrainSubmitRetries P s limit = (s', Inr (map snd (drained limit (submit_log (contents (db s))))))"
      "contents (db s') = fmdrop_set (set (map fst (drained limit (submit_log (contents (db s)))))) (contents (db s))"
    using DrainSubmitRetries_law 3 by blast
  have "submit_log (contents (db s')) = kept limit (submit_log (contents (db s)))" "submit_ns (contents (db s'))"
    unfolding s'(2) by (rule queue_drain) (use 3 in \<open>blast intro: queue_ns_drop\<close>)
  then show ?case using s'(1) 3 by simp
next
  case (4 s p i)
  let ?k = "submit_retry_key (ps_EnqueuedAt p) (ps_GwMsgID p)" and ?v = "VPendingSubmit (json_PendingSubmit p)"
  obtain s' where s': "EnqueueSubmitRetry P s p = (s', None)" "contents (db s') = fmupd ?k ?v (contents (db s))"
    using EnqueueSubmitRetry_law 4 by blast
  have v: "as_pending_submit ?v = Some (json_PendingSubmit p)" and t: "ps_EnqueuedAt (json_PendingSubmit p) = ps_EnqueuedAt p"
    by (simp_all add: json_PendingSubmit_def)
  have k: "?k = lit ''submit-retry:'' @ fmt020d (ps_EnqueuedAt p) @ lit '':'' @ ps_GwMsgID p"
    by (simp add: submit_retry_key_def)
  have "submit_ns (contents (db s'))"
    using queue_ns_upd [where parse = as_pending_submit and v = ?v and p = "json_PendingSubmit p" and stamp = ps_EnqueuedAt
        and pre = "lit ''submit-retry:''" and m = "contents (db s)" and i = "ps_GwMsgID p"] 4
    by (simp add: s'(2) k t)
  moreover have "set (submit_log (contents (db s'))) =
      {(?k, json_PendingSubmit p)} \<union> {e \<in> set (submit_log (contents (db s))). fst e \<noteq> ?k}"
    using queue_upd_set [where parse = as_pending_submit and v = ?v, OF v, of "lit ''submit-retry:''"] fmt020d_below_FF 4 by (simp add: s'(2) k)
  ultimately show ?case using s' 4 by auto
qed

section \<open>The northbound queue\<close>

abbreviation deliver_log :: "Time \<Rightarrow> (gostring, dbval) fmap \<Rightarrow> (gostring \<times> PendingDeliver) list" where
  "deliver_log now \<equiv> queue_log (lit ''retry:'') (fmt020d now @ lit '':'') as_pending_deliver"

abbreviation deliver_ns :: "(gostring, dbval) fmap \<Rightarrow> bool" where
  "deliver_ns \<equiv> queue_ns (lit ''retry:'') as_pending_deliver pd_EnqueuedAt"

definition json_PendingDeliver :: "PendingDeliver \<Rightarrow> PendingDeliver" where
  "json_PendingDeliver p = p\<lparr>pd_TargetConnID := json_string (pd_TargetConnID p),
     pd_MSISDN := json_string (pd_MSISDN p), pd_SourceAddr := json_string (pd_SourceAddr p),
     pd_DestAddr := json_string (pd_DestAddr p)\<rparr>"

lemma DrainRetries_law:
  assumes "pebble_ok P contents"
  shows "\<exists>s'. DrainRetries P s now maxAge limit =
      (s', Inr (filter (\<lambda>p. \<not> pd_EnqueuedAt p < now - maxAge) (map snd (drained limit (deliver_log now (contents (db s))))))) \<and>
    contents (db s') = fmdrop_set (set (map fst (drained limit (deliver_log now (contents (db s)))))) (contents (db s))"
proof -
  let ?Q = "deliver_log now (contents (db s))"
  obtain d' where d: "pb_commit P (db s) (map BDelete (map fst (drained limit ?Q))) = Some d'"
      "contents d' = foldl batch_apply (contents (db s)) (map BDelete (map fst (drained limit ?Q)))"
    using pebble_commitE [OF assms] .
  have "drain_retries_loop limit (now - maxAge) 0 (scan_map (contents (db s)) (lit ''retry:'') (Some (retry_key now []))) =
      (filter (\<lambda>p. \<not> pd_EnqueuedAt p < now - maxAge) (map snd (drained limit ?Q)), map fst (drained limit ?Q))"
    by (simp add: dl.loop_drained queue_log_def retry_key_def)
  then show ?thesis
    using d by (simp add: DrainRetries_def Let_def pebble_scan [OF assms] batch_deletes del: map_map)
qed

lemma EnqueueRetry_law:
  assumes "pebble_ok P contents"
  shows "\<exists>s'. EnqueueRetry P s i p = (s', None) \<and> contents (db s') =
    fmupd (retry_key (pd_EnqueuedAt p) i) (VPendingDeliver (json_PendingDeliver p)) (contents (db s))"
proof -
  obtain d' where "pb_set P (db s) (retry_key (pd_EnqueuedAt p) i) (marshal_PendingDeliver p) = Some d'"
      "contents d' = fmupd (retry_key (pd_EnqueuedAt p) i) (marshal_PendingDeliver p) (contents (db s))"
    using pebble_setE [OF assms] .
  then show ?thesis
    by (simp add: EnqueueRetry_def set_then_def marshal_PendingDeliver_def json_PendingDeliver_def)
qed

interpretation dq: retry_queue
  "\<lambda>s. pebble_ok P contents \<and> unix_nano now \<and> deliver_ns (contents (db s))" "\<lambda>s. deliver_log now (contents (db s))"
  pd_EnqueuedAt "\<lambda>p. \<not> pd_EnqueuedAt p < now - maxAge" "\<lambda>p. pd_EnqueuedAt p < now"
  "\<lambda>i p. retry_key (pd_EnqueuedAt p) i" json_PendingDeliver
  "EnqueueRetry P" "\<lambda>s. DrainRetries P s now maxAge" for P contents now maxAge
proof (unfold_locales, goal_cases)
  case (1 s)
  then show ?case by (blast intro: queue_chrono)
next
  case (2 s)
  show ?case by (rule queue_distinct)
next
  case (3 s limit)
  let ?Q = "deliver_log now (contents (db s))"
  obtain s' where s': "DrainRetries P s now maxAge limit =
        (s', Inr (filter (\<lambda>p. \<not> pd_EnqueuedAt p < now - maxAge) (map snd (drained limit ?Q))))"
      "contents (db s') = fmdrop_set (set (map fst (drained limit ?Q))) (contents (db s))"
    using DrainRetries_law 3 by blast
  have "deliver_log now (contents (db s')) = kept limit ?Q" "deliver_ns (contents (db s'))"
    unfolding s'(2) by (rule queue_drain) (use 3 in \<open>blast intro: queue_ns_drop\<close>)
  then show ?case using s'(1) 3 by simp
next
  case (4 s p i)
  let ?k = "retry_key (pd_EnqueuedAt p) i" and ?v = "VPendingDeliver (json_PendingDeliver p)"
  obtain s' where s': "EnqueueRetry P s i p = (s', None)" "contents (db s') = fmupd ?k ?v (contents (db s))"
    using EnqueueRetry_law 4 by blast
  have v: "as_pending_deliver ?v = Some (json_PendingDeliver p)" and t: "pd_EnqueuedAt (json_PendingDeliver p) = pd_EnqueuedAt p"
    by (simp_all add: json_PendingDeliver_def)
  have k: "?k = lit ''retry:'' @ fmt020d (pd_EnqueuedAt p) @ lit '':'' @ i"
    by (simp add: retry_key_def)
  have lt: "fmt020d (pd_EnqueuedAt p) @ lit '':'' @ i < fmt020d now @ lit '':'' \<longleftrightarrow> pd_EnqueuedAt p < now"
    using 4 by (simp add: fmt020d_less lit_def)
  have "deliver_ns (contents (db s'))"
    using queue_ns_upd [where parse = as_pending_deliver and v = ?v and p = "json_PendingDeliver p" and stamp = pd_EnqueuedAt
        and pre = "lit ''retry:''" and m = "contents (db s)" and i = i] 4
    by (simp add: s'(2) k t)
  moreover have "set (deliver_log now (contents (db s'))) =
      (if pd_EnqueuedAt p < now then {(?k, json_PendingDeliver p)} else {}) \<union>
      {e \<in> set (deliver_log now (contents (db s))). fst e \<noteq> ?k}"
    using queue_upd_set [where parse = as_pending_deliver and v = ?v, OF v, of "lit ''retry:''"] lt by (simp add: s'(2) k)
  ultimately show ?case using s' 4 by auto
qed

end
