(* ===== verification/Store_Typing.thy ===== *)
theory Store_Typing
  imports Store_Queue
begin

text \<open>
  The typing invariant of the store: every key of a namespace holds a value of the type that
  namespace is read with, and the keys of the retry queues carry the time stamp of their value.
  It holds in every store the operations reach, so no read fails to unmarshal and both queue
  contracts apply.
\<close>

section \<open>The invariant\<close>

definition ns_ok :: "gostring \<Rightarrow> dbval \<Rightarrow> bool" where
  "ns_ok k v \<longleftrightarrow>
     (HasPrefix k (lit ''msg:'') \<longrightarrow> (\<exists>r. v = VSubmit r)) \<and>
     (HasPrefix k (lit ''gw:'') \<longrightarrow> (\<exists>r. v = VSubmit r)) \<and>
     (HasPrefix k (lit ''retry:'') \<longrightarrow>
        (\<exists>p i. v = VPendingDeliver p \<and> k = retry_key (pd_EnqueuedAt p) i \<and> unix_nano (pd_EnqueuedAt p))) \<and>
     (HasPrefix k (lit ''submit-retry:'') \<longrightarrow>
        (\<exists>p i. v = VPendingSubmit p \<and> k = submit_retry_key (ps_EnqueuedAt p) i \<and> unix_nano (ps_EnqueuedAt p))) \<and>
     (HasPrefix k (lit ''status:'') \<longrightarrow> (\<exists>m. v = VStatus m)) \<and>
     (HasPrefix k (lit ''log:'') \<longrightarrow> (\<exists>m. v = VLog m)) \<and>
     (HasPrefix k (lit ''logidx:'') \<longrightarrow> (\<exists>l. v = VRaw l \<and> HasPrefix l (lit ''log:''))) \<and>
     (HasPrefix k (lit ''callback:'') \<longrightarrow> (\<exists>c. v = VCallback c)) \<and>
     (HasPrefix k (lit ''callback-retry:'') \<longrightarrow> (\<exists>c. v = VCallback c)) \<and>
     (HasPrefix k (lit ''connconfig:'') \<longrightarrow> (\<exists>c. v = VConnConfig c)) \<and>
     (HasPrefix k (lit ''route:mt:'') \<longrightarrow> (\<exists>r. v = VMTRoute r)) \<and>
     (HasPrefix k (lit ''route:mo:'') \<longrightarrow> (\<exists>r. v = VMORoute r)) \<and>
     (HasPrefix k (lit ''pool:'') \<longrightarrow> (\<exists>c. v = VPoolConfig c))"

definition typed :: "(gostring, dbval) fmap \<Rightarrow> bool" where
  "typed m \<longleftrightarrow> (\<forall>k v. fmlookup m k = Some v \<longrightarrow> ns_ok k v)"

definition store_ok :: "('d \<Rightarrow> (gostring, dbval) fmap) \<Rightarrow> 'd MessageStore \<Rightarrow> bool" where
  "store_ok contents s \<longleftrightarrow> typed (contents (db s)) \<and> (\<forall>(k, v) \<in> set (batch s @ writeCh s). ns_ok k v)"

lemma typed_upd: "typed m \<Longrightarrow> ns_ok k v \<Longrightarrow> typed (fmupd k v m)"
  by (simp add: typed_def)

lemma typed_drop: "typed m \<Longrightarrow> typed (fmdrop k m)"
  by (simp add: typed_def)

lemma typed_drop_set: "typed m \<Longrightarrow> typed (fmdrop_set A m)"
  by (simp add: typed_def)

lemma typed_sets: "typed m \<Longrightarrow> \<forall>(k, v) \<in> set ops. ns_ok k v \<Longrightarrow> typed (foldl batch_apply m (map (\<lambda>(k, v). BSet k v) ops))"
  by (induction ops arbitrary: m) (auto simp: typed_upd)

section \<open>Keys the code writes\<close>

lemma ns_ok_submit: "ns_ok (msg_key i) (marshal_SubmitRecord r)" "ns_ok (gw_key i) (marshal_SubmitRecord r)"
  by (simp_all add: ns_ok_def msg_key_def gw_key_def lit_def marshal_SubmitRecord_def)

lemma ns_ok_retry: "unix_nano (pd_EnqueuedAt p) \<Longrightarrow> ns_ok (retry_key (pd_EnqueuedAt p) i) (marshal_PendingDeliver p)"
  by (simp add: ns_ok_def retry_key_def lit_def marshal_PendingDeliver_def)

lemma ns_ok_submit_retry: "unix_nano (ps_EnqueuedAt p) \<Longrightarrow> ns_ok (submit_retry_key (ps_EnqueuedAt p) i) (marshal_PendingSubmit p)"
  by (simp add: ns_ok_def submit_retry_key_def lit_def marshal_PendingSubmit_def)

lemma ns_ok_status: "ns_ok (status_key i) (marshal_MessageStatus m)"
  by (simp add: ns_ok_def status_key_def lit_def marshal_MessageStatus_def)

lemma ns_ok_log: "HasPrefix k (lit ''log:'') \<Longrightarrow> ns_ok k (marshal_MessageLogEntry m)"
  by (auto simp: ns_ok_def HasPrefix_iff lit_def marshal_MessageLogEntry_def)

lemma ns_ok_logidx: "HasPrefix l (lit ''log:'') \<Longrightarrow> ns_ok (logidx_key i) (VRaw l)"
  by (simp add: ns_ok_def logidx_key_def lit_def)

lemma log_key_prefix: "HasPrefix (log_key t i) (lit ''log:'')"
  by (simp add: log_key_def lit_def)

lemma ns_ok_get:
  "typed m \<Longrightarrow> fmlookup m (msg_key i) = Some v \<Longrightarrow> \<exists>r. v = VSubmit r"
  "typed m \<Longrightarrow> fmlookup m (gw_key i) = Some v \<Longrightarrow> \<exists>r. v = VSubmit r"
  "typed m \<Longrightarrow> fmlookup m (status_key i) = Some v \<Longrightarrow> \<exists>r. v = VStatus r"
  "typed m \<Longrightarrow> fmlookup m (logidx_key i) = Some v \<Longrightarrow> \<exists>l. v = VRaw l \<and> HasPrefix l (lit ''log:'')"
  "typed m \<Longrightarrow> fmlookup m l = Some v \<Longrightarrow> HasPrefix l (lit ''log:'') \<Longrightarrow> \<exists>e. v = VLog e"
  by (simp_all add: typed_def ns_ok_def msg_key_def gw_key_def status_key_def logidx_key_def HasPrefix_iff)

section \<open>Every operation keeps it\<close>

lemma store_ok_cong: "db s' = db s \<Longrightarrow> batch s' = batch s \<Longrightarrow> writeCh s' = writeCh s \<Longrightarrow> store_ok contents s' = store_ok contents s"
  by (simp add: store_ok_def)

lemma store_ok_db: "store_ok contents s \<Longrightarrow> typed (contents d) \<Longrightarrow> store_ok contents (s\<lparr>db := d\<rparr>)"
  by (simp add: store_ok_def)

definition counts_only :: "('d MessageStore \<Rightarrow> 'd MessageStore) \<Rightarrow> bool" where
  "counts_only upd \<longleftrightarrow> (\<forall>s. db (upd s) = db s \<and> batch (upd s) = batch s \<and> writeCh (upd s) = writeCh s)"

lemma counts_only_intros [simp]:
  "counts_only (\<lambda>s. s)" "counts_only (msgCount_update f)" "counts_only (retryCount_update f)"
  "counts_only (\<lambda>s. s\<lparr>msgCount := g s\<rparr>)" "counts_only (\<lambda>s. s\<lparr>retryCount := g s\<rparr>)"
  "counts_only (\<lambda>s. s\<lparr>submitRetryCount := g s\<rparr>)" "counts_only (\<lambda>s. s\<lparr>logCount := g s\<rparr>)"
  by (simp_all add: counts_only_def)

lemma set_then_ok:
  assumes "pebble_ok P contents" "store_ok contents s" "ns_ok k v" "counts_only upd"
  shows "store_ok contents (fst (set_then P s k v upd))"
proof -
  obtain d where d: "pb_set P (db s) k v = Some d" "contents d = fmupd k v (contents (db s))"
    using pebble_setE [OF assms(1)] .
  have "store_ok contents (s\<lparr>db := d\<rparr>)"
    using assms(2,3) by (auto simp: store_ok_def d(2) intro: typed_upd)
  then show ?thesis using assms(4) d(1) by (simp add: set_then_def counts_only_def store_ok_def)
qed

lemma delete_then_ok:
  assumes "pebble_ok P contents" "store_ok contents s" "counts_only upd"
  shows "store_ok contents (fst (delete_then P s k upd))"
proof -
  obtain d where d: "pb_delete P (db s) k = Some d" "contents d = fmdrop k (contents (db s))"
    using pebble_deleteE [OF assms(1)] .
  have "store_ok contents (s\<lparr>db := d\<rparr>)"
    using assms(2) by (auto simp: store_ok_def d(2) intro: typed_drop)
  then show ?thesis using assms(3) d(1) by (simp add: delete_then_def counts_only_def store_ok_def)
qed

lemma StoreSubmit_ok: "pebble_ok P contents \<Longrightarrow> store_ok contents s \<Longrightarrow> store_ok contents (fst (StoreSubmit P s r))"
  using ns_ok_submit by (auto simp: StoreSubmit_def Let_def intro!: set_then_ok) (auto simp: store_ok_def)

lemma writer_flush_ok:
  assumes "pebble_ok P contents" "store_ok contents s"
  shows "store_ok contents (writer_flush P s)"
proof -
  obtain d where d: "pb_commit P (db s) (map (\<lambda>(k, v). BSet k v) (batch s)) = Some d"
      "contents d = foldl batch_apply (contents (db s)) (map (\<lambda>(k, v). BSet k v) (batch s))"
    using pebble_commitE [OF assms(1)] .
  have "typed (contents d)" unfolding d(2) using assms(2) by (intro typed_sets) (auto simp: store_ok_def)
  then show ?thesis using assms(2) d(1) by (simp add: writer_flush_def store_ok_def)
qed

lemma writer_receive_ok:
  assumes "pebble_ok P contents" "store_ok contents s"
  shows "store_ok contents (writer_receive P s)"
proof (cases "writeCh s")
  case (Cons op ops)
  have "store_ok contents (s\<lparr>writeCh := ops, batch := batch s @ [op]\<rparr>)"
    using assms(2) Cons by (simp add: store_ok_def)
  then show ?thesis
    using writer_flush_ok [OF assms(1)] by (simp add: writer_receive_def Cons Let_def)
qed (simp add: writer_receive_def assms)

lemma store_Close_ok:
  assumes "pebble_ok P contents" "store_ok contents s"
  shows "store_ok contents (store_Close P s)"
  unfolding store_Close_def writer_drain_def
  using assms by (intro writer_flush_ok) (simp_all add: store_ok_def)

lemma deletes_typed:
  assumes "pebble_ok P contents" "pb_commit P d (map BDelete ks) = Some d'" "typed (contents d)"
  shows "typed (contents d')"
proof -
  obtain d'' where "pb_commit P d (map BDelete ks) = Some d''"
      "contents d'' = foldl batch_apply (contents d) (map BDelete ks)"
    using pebble_commitE [OF assms(1)] .
  then show ?thesis using assms(2,3) by (simp add: batch_deletes typed_drop_set)
qed

lemma DrainRetries_ok:
  assumes "pebble_ok P contents" "store_ok contents s"
  shows "store_ok contents (fst (DrainRetries P s now maxAge limit))"
  using assms deletes_typed [OF assms(1)]
  by (auto simp: DrainRetries_def Let_def store_ok_def split: option.split prod.split)

lemma DrainSubmitRetries_ok:
  assumes "pebble_ok P contents" "store_ok contents s"
  shows "store_ok contents (fst (DrainSubmitRetries P s limit))"
  using assms deletes_typed [OF assms(1)]
  by (auto simp: DrainSubmitRetries_def Let_def store_ok_def split: option.split prod.split)

lemma Cleanup_ok:
  assumes "pebble_ok P contents" "store_ok contents s"
  shows "store_ok contents (fst (Cleanup P s now ttl))"
  using assms deletes_typed [OF assms(1)]
  by (auto simp: Cleanup_def Let_def store_ok_def split: option.split sum.split prod.split)

lemma LogMessage_ok:
  assumes "pebble_ok P contents" "store_ok contents s"
  shows "store_ok contents (fst (LogMessage P s now entry))"
proof -
  have "store_ok contents (fst (case set_then P s k v (\<lambda>s. s) of (s, Some e) \<Rightarrow> (s, Some e)
      | (s, None) \<Rightarrow> set_then P s (logidx_key i) (VRaw k) (\<lambda>s. s\<lparr>logCount := logCount s + 1\<rparr>)))"
    if "ns_ok k v" "HasPrefix k (lit ''log:'')" for k v i
    using set_then_ok [OF assms that(1), of "\<lambda>s. s"] set_then_ok [OF assms(1) _ ns_ok_logidx [OF that(2)]]
    by (auto split: prod.split option.split)
  then show ?thesis
    by (simp add: LogMessage_def Let_def ns_ok_log log_key_prefix)
qed

lemma UpdateMessageLog_ok:
  assumes "pebble_ok P contents" "store_ok contents s"
  shows "store_ok contents (fst (UpdateMessageLog P s now i updater))"
proof -
  have t: "typed (contents (db s))" using assms(2) by (simp add: store_ok_def)
  show ?thesis
  proof (cases "fmlookup (contents (db s)) (logidx_key i)")
    case (Some v)
    then obtain l where l: "v = VRaw l" "HasPrefix l (lit ''log:'')" using ns_ok_get(4) [OF t] by blast
    show ?thesis
      using assms(2) set_then_ok [OF assms ns_ok_log [OF l(2)]]
      by (simp add: UpdateMessageLog_def pebble_get [OF assms(1)] Some l(1) split: option.split dbval.split)
  qed (simp add: UpdateMessageLog_def pebble_get [OF assms(1)] assms(2))
qed

section \<open>Reachable stores\<close>

text \<open>
  A store opens on an empty database or on one a store left behind, whatever its writer still held.
  \<open>set_json\<close> stands for the writes of the other components, which respect the namespaces.
\<close>

inductive store_reachable :: "'d pebble \<Rightarrow> ('d \<Rightarrow> (gostring, dbval) fmap) \<Rightarrow> 'd MessageStore \<Rightarrow> bool"
  for P :: "'d pebble" and contents :: "'d \<Rightarrow> (gostring, dbval) fmap" where
  fresh: "contents d = fmempty \<Longrightarrow> store_reachable P contents (NewMessageStore d)"
| reopen: "store_reachable P contents s \<Longrightarrow> store_reachable P contents (NewMessageStore (db s))"
| store_submit: "store_reachable P contents s \<Longrightarrow> store_reachable P contents (fst (StoreSubmit P s r))"
| delete_submit: "store_reachable P contents s \<Longrightarrow> store_reachable P contents (fst (DeleteSubmit P s i))"
| delete_submit_gw: "store_reachable P contents s \<Longrightarrow> store_reachable P contents (fst (DeleteSubmitByGwID P s i))"
| enqueue_retry: "store_reachable P contents s \<Longrightarrow> unix_nano (pd_EnqueuedAt p) \<Longrightarrow>
    store_reachable P contents (fst (EnqueueRetry P s i p))"
| enqueue_submit_retry: "store_reachable P contents s \<Longrightarrow> unix_nano (ps_EnqueuedAt q) \<Longrightarrow>
    store_reachable P contents (fst (EnqueueSubmitRetry P s q))"
| drain_retries: "store_reachable P contents s \<Longrightarrow> store_reachable P contents (fst (DrainRetries P s now maxAge limit))"
| drain_submit_retries: "store_reachable P contents s \<Longrightarrow> store_reachable P contents (fst (DrainSubmitRetries P s limit))"
| cleanup: "store_reachable P contents s \<Longrightarrow> store_reachable P contents (fst (Cleanup P s now ttl))"
| receive: "store_reachable P contents s \<Longrightarrow> store_reachable P contents (writer_receive P s)"
| flush: "store_reachable P contents s \<Longrightarrow> store_reachable P contents (writer_flush P s)"
| close: "store_reachable P contents s \<Longrightarrow> store_reachable P contents (store_Close P s)"
| set_json: "store_reachable P contents s \<Longrightarrow> ns_ok k v \<Longrightarrow> store_reachable P contents (fst (SetJSON P s k v))"
| delete_key: "store_reachable P contents s \<Longrightarrow> store_reachable P contents (fst (DeleteKey P s k))"
| log_message: "store_reachable P contents s \<Longrightarrow> store_reachable P contents (fst (LogMessage P s now entry))"
| update_log: "store_reachable P contents s \<Longrightarrow> store_reachable P contents (fst (UpdateMessageLog P s now i updater))"

lemma store_reachable_ok:
  assumes "pebble_ok P contents" "store_reachable P contents s"
  shows "store_ok contents s"
  using assms(2)
proof induction
  case (enqueue_retry s p i)
  then show ?case unfolding EnqueueRetry_def by (intro set_then_ok assms ns_ok_retry) simp_all
next
  case (enqueue_submit_retry s q)
  then show ?case unfolding EnqueueSubmitRetry_def by (intro set_then_ok assms ns_ok_submit_retry) simp_all
next
  case (set_json s k v)
  then show ?case unfolding SetJSON_def by (intro set_then_ok assms) simp_all
next
  case (delete_key s k)
  then show ?case unfolding DeleteKey_def by (intro delete_then_ok assms) simp_all
next
  case (delete_submit s i)
  then show ?case unfolding DeleteSubmit_def by (intro delete_then_ok assms) simp_all
next
  case (delete_submit_gw s i)
  then show ?case unfolding DeleteSubmitByGwID_def by (intro delete_then_ok assms) simp_all
next
  case (fresh d)
  then show ?case by (simp add: NewMessageStore_def store_ok_def typed_def)
next
  case (reopen s)
  then show ?case by (simp add: NewMessageStore_def store_ok_def)
qed (auto intro: StoreSubmit_ok DrainRetries_ok DrainSubmitRetries_ok Cleanup_ok writer_receive_ok writer_flush_ok
      store_Close_ok LogMessage_ok UpdateMessageLog_ok assms(1))

lemma ns_ok_deliver: "ns_ok k v \<Longrightarrow> HasPrefix k (lit ''retry:'') \<Longrightarrow>
    \<exists>p i. v = VPendingDeliver p \<and> k = retry_key (pd_EnqueuedAt p) i \<and> unix_nano (pd_EnqueuedAt p)"
  unfolding ns_ok_def by blast

lemma ns_ok_pending: "ns_ok k v \<Longrightarrow> HasPrefix k (lit ''submit-retry:'') \<Longrightarrow>
    \<exists>p i. v = VPendingSubmit p \<and> k = submit_retry_key (ps_EnqueuedAt p) i \<and> unix_nano (ps_EnqueuedAt p)"
  unfolding ns_ok_def by blast

lemma typed_deliver_ns: "typed m \<Longrightarrow> deliver_ns m"
  unfolding queue_ns_def typed_def using ns_ok_deliver
  by (metis as_pending_deliver.simps(1) retry_key_def)

lemma typed_submit_ns: "typed m \<Longrightarrow> submit_ns m"
  unfolding queue_ns_def typed_def using ns_ok_pending
  by (metis as_pending_submit.simps(1) submit_retry_key_def)

section \<open>Properties\<close>

definition example_submit :: SubmitRecord where
  "example_submit = \<lparr>sr_GwMsgID = lit ''GW-1'', sr_SmscMsgID = lit ''7'', sr_NorthConnID = lit ''c'', sr_OrigSeqNum = 1,
     sr_MSISDN = lit ''27'', sr_SourceAddr = lit ''1'', sr_Payload = [1], sr_SubmittedAt = 10\<rparr>"

definition example_pending :: PendingSubmit where
  "example_pending = \<lparr>ps_GwMsgID = lit ''GW-1'', ps_ConnID = lit ''c'', ps_MSISDN = lit ''27'', ps_SourceAddr = lit ''1'',
     ps_RawBody = [1], ps_RetryCount = 0, ps_EnqueuedAt = 10\<rparr>"

definition example_deliver :: PendingDeliver where
  "example_deliver = \<lparr>pd_TargetConnID = lit ''c'', pd_MSISDN = lit ''27'', pd_PDUBody = [1], pd_ESMClass = 4,
     pd_SourceAddr = lit ''27'', pd_DestAddr = lit ''1'', pd_EnqueuedAt = 10\<rparr>"

lemma queue_log_single:
  "length (queue_log pre upper parse (fmupd k v fmempty)) \<le> 1"
  by (simp add: queue_log_def scan_map_def sorted_list_of_fset.rep_eq split: option.split)

lemma enqueue_submit_mem:
  "db (fst (EnqueueSubmitRetry mem_pebble (NewMessageStore fmempty) q)) =
     fmupd (submit_retry_key (ps_EnqueuedAt q) (ps_GwMsgID q)) (marshal_PendingSubmit q) fmempty"
  by (simp add: EnqueueSubmitRetry_def set_then_def mem_pebble_def NewMessageStore_def)



text \<open>
  C30. Southbound retries drain completely and in order: in every reachable store, enough rounds of
  \<^verbatim>\<open>DrainSubmitRetries\<close> with any positive limit return every queued submit exactly once, oldest
  first, and leave the queue empty.
\<close>

theorem submit_retries_drain:
  assumes "pebble_ok P contents" and "store_reachable P contents s" and "0 < limit"
    and "length (submit_log (contents (db s))) \<le> n * nat limit"
  shows "\<exists>s' rs. drain_rounds (DrainSubmitRetries P) n limit s = (s', rs) \<and>
    rs = map snd (submit_log (contents (db s))) \<and> sorted (map ps_EnqueuedAt rs) \<and> submit_log (contents (db s')) = []"
proof -
  have inv: "pebble_ok P contents \<and> submit_ns (contents (db s))"
    using assms(1) store_reachable_ok [OF assms(1,2)] by (simp add: store_ok_def typed_submit_ns)
  show ?thesis
    using sq.drain_rounds_all [OF inv assms(3,4)] sq.backlog_chrono [OF inv] by (force simp: comp_def)
qed

theorem submit_retries_drain_witness:
  "\<exists>s' rs. drain_rounds (DrainSubmitRetries mem_pebble) 1 1 (fst (EnqueueSubmitRetry mem_pebble (NewMessageStore fmempty) example_pending)) = (s', rs) \<and>
    rs = map snd (submit_log (db (fst (EnqueueSubmitRetry mem_pebble (NewMessageStore fmempty) example_pending)))) \<and>
    sorted (map ps_EnqueuedAt rs) \<and> submit_log (db s') = []"
  by (rule submit_retries_drain [OF mem_pebble_ok enqueue_submit_retry [OF fresh]])
    (simp_all add: example_pending_def unix_nano_def enqueue_submit_mem queue_log_single [simplified])



end
