(* ===== verification/Store_Scan.thy ===== *)
theory Store_Scan
  imports Store_Typing
begin

text \<open>
  Scans of the store: the bounds of a prefix scan, the message log query, cleanup; and the batch
  writer as an implementation of immediate writes.
\<close>

section \<open>Prefix scans\<close>

lemma byte_max: "(- 1 :: byte) = 0xFF"
  by simp

lemma byte_plus_one: "(b :: byte) + 1 = 0 \<longleftrightarrow> b = 0xFF"
  unfolding byte_max [symmetric] by (simp add: eq_neg_iff_add_eq_0)

lemma less_succ_byte: "(b :: byte) \<noteq> 0xFF \<Longrightarrow> c < b + 1 \<longleftrightarrow> c \<le> b"
proof -
  assume "b \<noteq> 0xFF"
  then have "unat (b + 1) = unat b + 1" using byte_plus_one [of b] by (metis Suc_eq_plus1 unatSuc add.commute)
  then show ?thesis by (simp add: word_less_nat_alt word_le_nat_alt less_Suc_eq_le)
qed

lemma prefixUpperBound_snoc:
  "prefixUpperBound (q @ [b]) = (if b = 0xFF then map_option (\<lambda>u. u @ [0]) (prefixUpperBound q) else Some (q @ [b + 1]))"
  by (simp add: prefixUpperBound_def option.map_comp comp_def byte_plus_one)

text \<open>The last byte of every prefix the code scans is printable, so the bound has no carry.\<close>

lemma prefix_bound_exact:
  assumes "p \<noteq> []" "last p \<noteq> 0xFF"
  shows "in_bounds p (prefixUpperBound p) k \<longleftrightarrow> HasPrefix k p"
proof -
  obtain q b where p: "p = q @ [b]" "b \<noteq> 0xFF" using assms by (metis append_butlast_last_id)
  have lt: "[b] \<le> x \<and> x < [b + 1] \<longleftrightarrow> (\<exists>y. x = b # y)" for x
  proof (cases x)
    case (Cons a xs)
    have "[b] \<le> x \<longleftrightarrow> b \<le> a" by (auto simp: Cons)
    moreover have "x < [b + 1] \<longleftrightarrow> a \<le> b" by (simp add: Cons less_succ_byte [OF p(2)])
    ultimately show ?thesis by (auto simp: Cons)
  qed simp
  have "in_bounds p (prefixUpperBound p) k \<longleftrightarrow> q @ [b] \<le> k \<and> k < q @ [b + 1]"
    by (simp add: p in_bounds_def prefixUpperBound_snoc)
  also have "\<dots> \<longleftrightarrow> (\<exists>x. k = q @ x \<and> [b] \<le> x \<and> x < [b + 1])"
    using prefix_bounds [of q k "[b + 1]"] prefix_le [of q "[b]"] order_trans by auto
  finally show ?thesis by (auto simp: lt p HasPrefix_iff)
qed

text \<open>
  With a carry the wrapped bytes stay in the bound as zeros, and the bound lets one more key through
  than the keys with the prefix.
\<close>

lemma prefix_bound_carry: "in_bounds [1, 0xFF] (prefixUpperBound [1, 0xFF]) [2] \<and> \<not> HasPrefix [2] [1, 0xFF]"
  by (simp add: in_bounds_def prefixUpperBound_def)

definition prefix_entries :: "(gostring, dbval) fmap \<Rightarrow> gostring \<Rightarrow> (gostring \<times> dbval option) list" where
  "prefix_entries m p = map (\<lambda>k. (k, fmlookup m k)) (filter (\<lambda>k. HasPrefix k p) (sorted_list_of_fset (fmdom m)))"

lemma ScanPrefix_entries:
  assumes "pebble_ok P contents" "p \<noteq> []" "last p \<noteq> 0xFF"
  shows "ScanPrefix P s p fn st = scan_loop fn (prefix_entries (contents (db s)) p) st"
  by (simp add: ScanPrefix_def pebble_scan [OF assms(1)] scan_map_def prefix_entries_def prefix_bound_exact [OF assms(2,3)] cong: filter_cong)

lemma prefix_entries_set:
  "(k, v) \<in> set (prefix_entries m p) \<longleftrightarrow> HasPrefix k p \<and> k |\<in>| fmdom m \<and> v = fmlookup m k"
  by (auto simp: prefix_entries_def sorted_list_of_fset.rep_eq)

lemma prefix_entries_sorted: "sorted_wrt (<) (map fst (prefix_entries m p))"
  by (simp add: prefix_entries_def comp_def sorted_list_of_fset.rep_eq sorted_wrt_filter)

section \<open>The message log\<close>

fun as_log :: "dbval \<Rightarrow> MessageLogEntry option" where
  "as_log (VLog m) = Some m"
| "as_log _ = None"

lemma query_loop_eq:
  "0 \<le> limit \<Longrightarrow> query_loop f limit es acc =
     acc @ take (nat limit - length acc) (filter (filter_entry f) (map snd (parsed as_log es)))"
proof (induction es arbitrary: acc)
  case (Cons e es)
  obtain k v where e: "e = (k, v)" by force
  have "nat limit - length acc = Suc (nat limit - Suc (length acc))" if "int (length acc) < limit" using that by simp
  then show ?case using Cons
    by (cases "Option.bind v as_log") (auto simp: e bind_eq_Some_conv split: option.split dbval.split)
qed simp

definition query_limit :: "MessageFilter \<Rightarrow> nat" where
  "query_limit f = (if mf_Limit f \<le> 0 then 50 else nat (min 200 (mf_Limit f)))"

definition query_lower :: "MessageFilter \<Rightarrow> gostring" where
  "query_lower f = (if IsZero (mf_After f) then lit ''log:'' else lit ''log:'' @ rfc3339nano (mf_After f))"

definition query_upper :: "MessageFilter \<Rightarrow> gostring" where
  "query_upper f = (if IsZero (mf_Before f) then lit ''log:'' @ [0xFF] else lit ''log:'' @ rfc3339nano (mf_Before f) @ [0xFF])"

lemma QueryMessages_eq:
  assumes "pebble_ok P contents"
  shows "QueryMessages P s f = Inr (take (query_limit f) (filter (filter_entry f) (map snd (parsed as_log
      (rev (scan_map (contents (db s)) (query_lower f) (Some (query_upper f))))))))"
  by (simp add: QueryMessages_def Let_def pebble_scan [OF assms] query_loop_eq query_limit_def query_lower_def query_upper_def)

lemma parsed_log_set:
  "e \<in> set (map snd (parsed as_log (rev (scan_map m lower upper)))) \<longleftrightarrow>
     (\<exists>k. in_bounds lower upper k \<and> fmlookup m k = Some (VLog e))"
proof -
  have as_log: "as_log v = Some e \<longleftrightarrow> v = VLog e" for v by (cases v) auto
  have "e \<in> set (map snd (parsed as_log (rev (scan_map m lower upper)))) \<longleftrightarrow>
      (\<exists>k. (k, e) \<in> set (parsed as_log (rev (scan_map m lower upper))))" by force
  also have "\<dots> \<longleftrightarrow> (\<exists>k. in_bounds lower upper k \<and> k |\<in>| fmdom m \<and> Some (VLog e) = fmlookup m k)"
    unfolding parsed_set set_rev scan_map_set as_log by blast
  finally show ?thesis by (metis fmdomI)
qed

section \<open>Cleanup\<close>

definition cleanup_due :: "(gostring, dbval) fmap \<Rightarrow> Time \<Rightarrow> gostring \<Rightarrow> bool" where
  "cleanup_due m cutoff k \<longleftrightarrow> (\<exists>prefix \<in> set cleanup_prefixes. \<exists>x v. k = prefix @ x \<and> x < [0xFF] \<and> fmlookup m k = Some v \<and>
     (if prefix = lit ''logidx:''
      then (\<forall>l. v = VRaw l \<longrightarrow> (case fmlookup m l of None \<Rightarrow> True
             | Some e \<Rightarrow> (case timestamps e of None \<Rightarrow> False | Some (_, updated) \<Rightarrow> \<not> IsZero updated \<and> updated < cutoff)))
      else expired cutoff v))"

lemma index_expired_eq:
  assumes "pebble_ok P contents"
  shows "index_expired P d cutoff v \<longleftrightarrow> (\<forall>l. v = VRaw l \<longrightarrow> (case fmlookup (contents d) l of None \<Rightarrow> True
      | Some e \<Rightarrow> (case timestamps e of None \<Rightarrow> False | Some (_, updated) \<Rightarrow> \<not> IsZero updated \<and> updated < cutoff)))"
  by (auto simp: index_expired_def pebble_get [OF assms] split: dbval.split option.split)

lemma scan_due_set:
  "set (map fst (filter (\<lambda>(k, val). case val of None \<Rightarrow> False | Some v \<Rightarrow> due v) (scan_map m p (Some (p @ u))))) =
     {k. \<exists>x v. k = p @ x \<and> x < u \<and> fmlookup m k = Some v \<and> due v}" (is "?L = ?R")
proof (rule set_eqI)
  fix k
  have "k \<in> ?L \<longleftrightarrow> (\<exists>v. (k, Some v) \<in> set (scan_map m p (Some (p @ u))) \<and> due v)"
    by (force split: option.splits)
  also have "\<dots> \<longleftrightarrow> (\<exists>v x. k = p @ x \<and> x < u \<and> Some v = fmlookup m k \<and> due v)"
    unfolding scan_map_set in_bounds_def option.case prefix_bounds by (metis fmdomI)
  also have "\<dots> \<longleftrightarrow> k \<in> ?R" unfolding mem_Collect_eq by metis
  finally show "k \<in> ?L \<longleftrightarrow> k \<in> ?R" .
qed

lemma cleanup_keys_set:
  assumes "pebble_ok P contents"
  shows "\<exists>ks. cleanup_keys P d cutoff prefix = Some ks \<and> distinct ks \<and> set ks =
    {k. \<exists>x v. k = prefix @ x \<and> x < [0xFF] \<and> fmlookup (contents d) k = Some v \<and>
       (if prefix = lit ''logidx:'' then index_expired P d cutoff v else expired cutoff v)}"
proof -
  have "distinct (map fst (scan_map (contents d) prefix (Some (prefix @ [0xFF]))))"
    using scan_map_sorted [of "contents d"] by (simp add: strict_sorted_iff)
  then have d: "distinct (map fst (filter f (scan_map (contents d) prefix (Some (prefix @ [0xFF])))))" for f
    by (rule distinct_map_filter)
  show ?thesis
    unfolding cleanup_keys_def pebble_scan [OF assms] option.case
    by (intro exI conjI, rule refl, rule d, rule scan_due_set)
qed

abbreviation due_keys :: "'d pebble \<Rightarrow> 'd \<Rightarrow> Time \<Rightarrow> gostring \<Rightarrow> gostring list" where
  "due_keys P d cutoff p \<equiv> the (cleanup_keys P d cutoff p)"

lemma cleanup_scan_eq:
  assumes "pebble_ok P contents"
  shows "\<exists>n. cleanup_scan P d cutoff prefixes keys l = Inr (keys @ concat (map (due_keys P d cutoff) prefixes), n)"
proof (induction prefixes arbitrary: keys l)
  case (Cons p prefixes)
  obtain kp where "cleanup_keys P d cutoff p = Some kp" using cleanup_keys_set [OF assms] by blast
  then show ?case using Cons.IH [of "keys @ kp"] by simp
qed simp

lemma due_keys_set:
  assumes "pebble_ok P contents"
  shows "set (due_keys P d cutoff p) = {k. \<exists>x v. k = p @ x \<and> x < [0xFF] \<and> fmlookup (contents d) k = Some v \<and>
       (if p = lit ''logidx:'' then index_expired P d cutoff v else expired cutoff v)}"
    and "distinct (due_keys P d cutoff p)"
proof -
  obtain ks where ks: "cleanup_keys P d cutoff p = Some ks" "distinct ks" "set ks =
      {k. \<exists>x v. k = p @ x \<and> x < [0xFF] \<and> fmlookup (contents d) k = Some v \<and>
       (if p = lit ''logidx:'' then index_expired P d cutoff v else expired cutoff v)}"
    using cleanup_keys_set [OF assms] by blast
  show "set (due_keys P d cutoff p) = {k. \<exists>x v. k = p @ x \<and> x < [0xFF] \<and> fmlookup (contents d) k = Some v \<and>
       (if p = lit ''logidx:'' then index_expired P d cutoff v else expired cutoff v)}"
    unfolding ks(1) option.sel by (rule ks(3))
  show "distinct (due_keys P d cutoff p)" unfolding ks(1) option.sel by (rule ks(2))
qed

lemma due_keys_all:
  assumes "pebble_ok P contents"
  shows "set (concat (map (due_keys P d cutoff) cleanup_prefixes)) = {k. cleanup_due (contents d) cutoff k}"
proof -
  have "set (concat (map (due_keys P d cutoff) cleanup_prefixes)) = (\<Union>p \<in> set cleanup_prefixes. set (due_keys P d cutoff p))"
    by simp
  then show ?thesis
    by (simp only: due_keys_set(1) [OF assms] UNION_eq mem_Collect_eq cleanup_due_def index_expired_eq [OF assms])
qed

lemma cleanup_prefixes_apart:
  "p \<in> set cleanup_prefixes \<Longrightarrow> q \<in> set cleanup_prefixes \<Longrightarrow> p @ x = q @ y \<Longrightarrow> p = q"
  by (auto simp: cleanup_prefixes_def lit_def)

lemma distinct_concat_apart:
  "distinct ps \<Longrightarrow> \<forall>p \<in> set ps. distinct (f p) \<Longrightarrow> (\<And>p q k. p \<in> set ps \<Longrightarrow> q \<in> set ps \<Longrightarrow> k \<in> set (f p) \<Longrightarrow> k \<in> set (f q) \<Longrightarrow> p = q) \<Longrightarrow>
   distinct (concat (map f ps))"
proof (induction ps)
  case (Cons p ps)
  have "set (f p) \<inter> set (f q) = {}" if "q \<in> set ps" for q
    using Cons.prems(1) Cons.prems(3) [of p q] that by auto
  moreover have "distinct (concat (map f ps))"
    using Cons.prems(1,2) by (intro Cons.IH Cons.prems(3)) auto
  ultimately show ?case using Cons.prems(2) by auto
qed simp

lemma due_keys_distinct:
  assumes "pebble_ok P contents"
  shows "distinct (concat (map (due_keys P d cutoff) cleanup_prefixes))"
proof (rule distinct_concat_apart)
  show "distinct cleanup_prefixes" by (simp add: cleanup_prefixes_def lit_def)
  show "\<forall>p \<in> set cleanup_prefixes. distinct (due_keys P d cutoff p)" by (simp add: due_keys_set(2) [OF assms])
  fix p q k
  assume "p \<in> set cleanup_prefixes" "q \<in> set cleanup_prefixes" "k \<in> set (due_keys P d cutoff p)" "k \<in> set (due_keys P d cutoff q)"
  then show "p = q" unfolding due_keys_set(1) [OF assms] using cleanup_prefixes_apart by blast
qed

lemma Cleanup_exact:
  assumes "pebble_ok P contents"
  shows "\<exists>s'. Cleanup P s now ttl = (s', int (card {k. cleanup_due (contents (db s)) (now - ttl) k}), None) \<and>
    contents (db s') = fmdrop_set {k. cleanup_due (contents (db s)) (now - ttl) k} (contents (db s))"
proof -
  let ?K = "concat (map (due_keys P (db s) (now - ttl)) cleanup_prefixes)"
  have card: "card {k. cleanup_due (contents (db s)) (now - ttl) k} = length ?K"
    using distinct_card [OF due_keys_distinct [OF assms]] unfolding due_keys_all [OF assms] .
  obtain n where n: "cleanup_scan P (db s) (now - ttl) cleanup_prefixes [] 0 = Inr (?K, n)"
    using cleanup_scan_eq [OF assms, of "db s" "now - ttl" cleanup_prefixes "[]" 0] by auto
  obtain d where d: "pb_commit P (db s) (map BDelete ?K) = Some d" "contents d = foldl batch_apply (contents (db s)) (map BDelete ?K)"
    using pebble_commitE [OF assms] .
  have c: "contents d = fmdrop_set {k. cleanup_due (contents (db s)) (now - ttl) k} (contents (db s))"
    unfolding d(2) batch_deletes due_keys_all [OF assms] ..
  have "?K = [] \<Longrightarrow> contents (db s) = fmdrop_set {k. cleanup_due (contents (db s)) (now - ttl) k} (contents (db s))"
    using due_keys_all [OF assms, of "db s" "now - ttl", symmetric] by (auto intro!: fmap_ext simp del: set_concat concat_eq_Nil_conv)
  then show ?thesis
    using n d(1) c by (cases "?K = []") (simp_all add: Cleanup_def Let_def card del: concat.simps)
qed

section \<open>The batch writer\<close>

text \<open>
  What the store will hold once its writer is done: the database with the pending batch and the
  channel applied. Writer steps do not change it.
\<close>

abbreviation puts :: "(gostring \<times> dbval) list \<Rightarrow> batch_op list" where
  "puts ops \<equiv> map (\<lambda>(k, v). BSet k v) ops"

definition store_view :: "('d \<Rightarrow> (gostring, dbval) fmap) \<Rightarrow> 'd MessageStore \<Rightarrow> (gostring, dbval) fmap" where
  "store_view contents s = foldl batch_apply (contents (db s)) (puts (batch s @ writeCh s))"

abbreviation pending_keys :: "'d MessageStore \<Rightarrow> gostring set" where
  "pending_keys s \<equiv> fst ` set (batch s @ writeCh s)"

definition submit_key :: "SubmitRecord \<Rightarrow> gostring" where
  "submit_key r = (if sr_SmscMsgID r \<noteq> [] then msg_key (sr_SmscMsgID r) else gw_key (sr_GwMsgID r))"

lemma view_flush:
  assumes "pebble_ok P contents"
  shows "store_view contents (writer_flush P s) = store_view contents s" and "pending_keys (writer_flush P s) \<subseteq> pending_keys s"
    and "batch (writer_flush P s) = []" and "writeCh (writer_flush P s) = writeCh s"
proof -
  obtain d where "pb_commit P (db s) (puts (batch s)) = Some d" "contents d = foldl batch_apply (contents (db s)) (puts (batch s))"
    using pebble_commitE [OF assms] .
  then show "store_view contents (writer_flush P s) = store_view contents s" "pending_keys (writer_flush P s) \<subseteq> pending_keys s"
      "batch (writer_flush P s) = []" "writeCh (writer_flush P s) = writeCh s"
    by (auto simp: writer_flush_def store_view_def)
qed

lemma view_receive:
  assumes "pebble_ok P contents"
  shows "store_view contents (writer_receive P s) = store_view contents s" and "pending_keys (writer_receive P s) \<subseteq> pending_keys s"
proof -
  let ?t = "\<lambda>op ops. s\<lparr>writeCh := ops, batch := batch s @ [op]\<rparr>"
  have t: "store_view contents (?t op ops) = store_view contents s" "pending_keys (?t op ops) = pending_keys s" if "writeCh s = op # ops" for op ops
    using that by (auto simp: store_view_def)
  show "store_view contents (writer_receive P s) = store_view contents s"
    using t(1) view_flush(1) [OF assms] by (auto simp: writer_receive_def Let_def split: list.split)
  show "pending_keys (writer_receive P s) \<subseteq> pending_keys s"
  proof (cases "writeCh s")
    case (Cons op ops)
    then show ?thesis
      using t(2) [OF Cons] view_flush(2) [OF assms, of "?t op ops"] by (simp only: writer_receive_def Cons list.case Let_def split: if_split) simp
  qed (simp add: writer_receive_def)
qed

lemma view_upd_early: "k \<notin> fst ` set ops \<Longrightarrow> foldl batch_apply (fmupd k v m) (puts ops) = fmupd k v (foldl batch_apply m (puts ops))"
proof (induction ops arbitrary: m)
  case (Cons op ops)
  obtain k' v' where op: "op = (k', v')" by force
  have "fmupd k' v' (fmupd k v m) = fmupd k v (fmupd k' v' m)" using Cons.prems by (auto simp: op intro!: fmap_ext)
  then show ?case using Cons by (simp add: op)
qed simp

lemma view_submit:
  assumes "pebble_ok P contents" "submit_key r \<notin> pending_keys s"
  shows "store_view contents (fst (StoreSubmit P s r)) = fmupd (submit_key r) (marshal_SubmitRecord r) (store_view contents s)"
    and "pending_keys (fst (StoreSubmit P s r)) \<subseteq> insert (submit_key r) (pending_keys s)"
proof -
  obtain d where d: "pb_set P (db s) (submit_key r) (marshal_SubmitRecord r) = Some d"
      "contents d = fmupd (submit_key r) (marshal_SubmitRecord r) (contents (db s))"
    using pebble_setE [OF assms(1)] .
  have q: "StoreSubmit P s r =
      (if closed s \<or> writeCh_cap \<le> length (writeCh s) then (s\<lparr>db := d, msgCount := msgCount s + 1\<rparr>, None)
       else (s\<lparr>writeCh := writeCh s @ [(submit_key r, marshal_SubmitRecord r)], msgCount := msgCount s + 1\<rparr>, None))"
    using d(1) by (auto simp: StoreSubmit_def Let_def submit_key_def set_then_def)
  show "store_view contents (fst (StoreSubmit P s r)) = fmupd (submit_key r) (marshal_SubmitRecord r) (store_view contents s)"
    using view_upd_early [OF assms(2)] by (simp add: q store_view_def d(2))
  show "pending_keys (fst (StoreSubmit P s r)) \<subseteq> insert (submit_key r) (pending_keys s)"
    by (auto simp: q)
qed

lemma view_close:
  assumes "pebble_ok P contents"
  shows "contents (db (store_Close P s)) = store_view contents s"
proof -
  let ?t = "s\<lparr>closed := True, writeCh := [], batch := batch s @ writeCh s\<rparr>"
  have "store_view contents ?t = store_view contents s" by (simp add: store_view_def)
  then show ?thesis
    using view_flush [OF assms, of ?t] by (simp add: store_Close_def writer_drain_def store_view_def)
qed

datatype writer_event = Submitted SubmitRecord | Received | Ticked

fun writer_run :: "'d pebble \<Rightarrow> 'd MessageStore \<Rightarrow> writer_event \<Rightarrow> 'd MessageStore" where
  "writer_run P s (Submitted r) = fst (StoreSubmit P s r)"
| "writer_run P s Received = writer_receive P s"
| "writer_run P s Ticked = writer_flush P s"

fun submitted :: "writer_event \<Rightarrow> SubmitRecord list" where
  "submitted (Submitted r) = [r]"
| "submitted _ = []"

abbreviation all_submitted :: "writer_event list \<Rightarrow> SubmitRecord list" where
  "all_submitted evs \<equiv> concat (map submitted evs)"

lemma apart_insert: "K \<subseteq> insert a B \<Longrightarrow> a \<notin> C \<Longrightarrow> B \<inter> C = {} \<Longrightarrow> K \<inter> C = {}"
  by blast

lemma apart_subset: "K \<subseteq> B \<Longrightarrow> B \<inter> C = {} \<Longrightarrow> K \<inter> C = {}"
  by blast

lemma writer_run_view:
  assumes "pebble_ok P contents"
  shows "distinct (map submit_key (all_submitted evs)) \<Longrightarrow> pending_keys s \<inter> submit_key ` set (all_submitted evs) = {} \<Longrightarrow>
    store_view contents (foldl (writer_run P) s evs) =
      foldl (\<lambda>m r. fmupd (submit_key r) (marshal_SubmitRecord r) m) (store_view contents s) (all_submitted evs)"
proof (induction evs arbitrary: s)
  case (Cons ev evs)
  show ?case
  proof (cases ev)
    case (Submitted r)
    have k: "submit_key r \<notin> submit_key ` set (all_submitted evs)" using Cons.prems(1) by (simp add: Submitted)
    have a: "submit_key r \<notin> pending_keys s" "pending_keys s \<inter> submit_key ` set (all_submitted evs) = {}"
      using Cons.prems(2) by (simp_all add: Submitted)
    note v = view_submit [OF assms a(1)]
    have "pending_keys (fst (StoreSubmit P s r)) \<inter> submit_key ` set (all_submitted evs) = {}"
      by (rule apart_insert [OF v(2) k a(2)])
    then show ?thesis using Cons.IH Cons.prems(1) by (simp add: Submitted v(1))
  next
    case Received
    have "pending_keys (writer_receive P s) \<inter> submit_key ` set (all_submitted evs) = {}"
      by (rule apart_subset [OF view_receive(2) [OF assms]]) (use Cons.prems(2) in \<open>simp add: Received\<close>)
    then show ?thesis using Cons.IH Cons.prems(1) by (simp add: Received view_receive(1) [OF assms])
  next
    case Ticked
    have "pending_keys (writer_flush P s) \<inter> submit_key ` set (all_submitted evs) = {}"
      by (rule apart_subset [OF view_flush(2) [OF assms]]) (use Cons.prems(2) in \<open>simp add: Ticked\<close>)
    then show ?thesis using Cons.IH Cons.prems(1) by (simp add: Ticked view_flush(1) [OF assms])
  qed
qed simp

section \<open>Properties\<close>

text \<open>
  C32. The batch writer loses nothing: for any interleaving of submits with steps of the writer that
  stores no key twice, closing the store leaves in the database exactly what writing each record at
  once would have left, whether a record went through the channel or, on a full channel, was
  written directly.
\<close>

theorem writer_durable:
  assumes "pebble_ok P contents" and "distinct (map submit_key (all_submitted evs))"
  shows "contents (db (store_Close P (foldl (writer_run P) (NewMessageStore d) evs))) =
    foldl (\<lambda>m r. fmupd (submit_key r) (marshal_SubmitRecord r) m) (contents d) (all_submitted evs)"
  using writer_run_view [OF assms, of "NewMessageStore d"]
  by (simp add: view_close [OF assms(1)] NewMessageStore_def store_view_def)

theorem writer_durable_witness:
  "db (store_Close mem_pebble (foldl (writer_run mem_pebble) (NewMessageStore fmempty) [Submitted example_submit, Received])) =
     fmupd (lit ''msg:7'') (marshal_SubmitRecord example_submit) fmempty"
  using writer_durable [OF mem_pebble_ok, of "[Submitted example_submit, Received]" fmempty]
  by (simp add: submit_key_def example_submit_def msg_key_def lit_def)

text \<open>
  C35. Prefix scans are exact: for a prefix whose last byte is not \<^verbatim>\<open>0xFF\<close>, the keys between the
  prefix and the upper bound the code computes are exactly the keys that start with the prefix.
\<close>

theorem prefix_scan_exact:
  assumes "p \<noteq> []" and "last p \<noteq> 0xFF"
  shows "in_bounds p (prefixUpperBound p) k \<longleftrightarrow> HasPrefix k p"
  by (rule prefix_bound_exact [OF assms])

theorem prefix_scan_exact_witness:
  "in_bounds (lit ''pool:'') (prefixUpperBound (lit ''pool:'')) (lit ''pool:'' @ [0xFF, 0xFF])"
  by (subst prefix_scan_exact) (simp_all add: lit_def)



lemma take_filter_spec:
  "length (take n (filter Q L)) \<le> n \<and> (\<forall>e \<in> set (take n (filter Q L)). Q e \<and> e \<in> set L) \<and>
   (length (take n (filter Q L)) < n \<longrightarrow> (\<forall>e. e \<in> set L \<and> Q e \<longrightarrow> e \<in> set (take n (filter Q L))))"
  by (auto dest: in_set_takeD)


definition example_log :: MessageLogEntry where
  "example_log = \<lparr>ml_GwMsgID = lit ''GW-1'', ml_SmscMsgID = [], ml_ConnID = lit ''c'', ml_SourceAddr = lit ''1'', ml_DestAddr = lit ''27'',
     ml_Status = lit ''accepted'', ml_DLRStatus = [], ml_Cost = 0, ml_CreatedAt = 10, ml_UpdatedAt = 10\<rparr>"

definition example_filter :: MessageFilter where
  "example_filter = \<lparr>mf_ConnID = lit ''c'', mf_Status = [], mf_From = [], mf_To = [], mf_After = zero_time, mf_Before = zero_time, mf_Limit = 0\<rparr>"


end
