(* ===== verification/Route_Config.thy ===== *)
theory Route_Config
  imports Store_Scan
begin

text \<open>
  The configuration store \<^verbatim>\<open>gateway/route_config.go\<close>: MT routes, MO routes and southbound pools as
  JSON values under three key prefixes. The three kinds share one contract (locale
  \<open>config_store\<close>): what was saved last and not deleted is what a load returns.
\<close>

section \<open>Operations\<close>

fun as_mt :: "dbval \<Rightarrow> MTRoute option" where
  "as_mt (VMTRoute r) = Some r"
| "as_mt _ = None"

fun as_mo :: "dbval \<Rightarrow> MORoute option" where
  "as_mo (VMORoute r) = Some r"
| "as_mo _ = None"

fun as_pool :: "dbval \<Rightarrow> SouthboundPoolConfig option" where
  "as_pool (VPoolConfig c) = Some c"
| "as_pool _ = None"

text \<open>The callback of the three loaders: an entry that does not unmarshal ends the scan.\<close>

definition collect :: "(dbval \<Rightarrow> 'r option) \<Rightarrow> gostring \<Rightarrow> dbval \<Rightarrow> 'r list \<Rightarrow> store_error + 'r list" where
  "collect parse key data acc = (case parse data of None \<Rightarrow> Inl UnmarshalError | Some r \<Rightarrow> Inr (acc @ [r]))"

definition SaveMTRoute :: "'d pebble \<Rightarrow> 'd MessageStore \<Rightarrow> MTRoute \<Rightarrow> 'd MessageStore \<times> store_error option" where
  "SaveMTRoute P s route = SetJSON P s (lit ''route:mt:'' @ Prefix route) (marshal_MTRoute route)"

definition DeleteMTRoute :: "'d pebble \<Rightarrow> 'd MessageStore \<Rightarrow> gostring \<Rightarrow> 'd MessageStore \<times> store_error option" where
  "DeleteMTRoute P s prefix = DeleteKey P s (lit ''route:mt:'' @ prefix)"

definition LoadAllMTRoutes :: "'d pebble \<Rightarrow> 'd MessageStore \<Rightarrow> MTRoute list \<times> store_error option" where
  "LoadAllMTRoutes P s = ScanPrefix P s (lit ''route:mt:'') (collect as_mt) []"

definition mo_key :: "gostring \<Rightarrow> gostring \<Rightarrow> gostring" where
  "mo_key destPattern sourcePrefix = destPattern @ lit '':'' @ sourcePrefix"

definition SaveMORoute :: "'d pebble \<Rightarrow> 'd MessageStore \<Rightarrow> MORoute \<Rightarrow> 'd MessageStore \<times> store_error option" where
  "SaveMORoute P s route = SetJSON P s (lit ''route:mo:'' @ mo_key (DestPattern route) (SourcePrefix route)) (marshal_MORoute route)"

definition DeleteMORoute :: "'d pebble \<Rightarrow> 'd MessageStore \<Rightarrow> gostring \<Rightarrow> gostring \<Rightarrow> 'd MessageStore \<times> store_error option" where
  "DeleteMORoute P s destPattern sourcePrefix = DeleteKey P s (lit ''route:mo:'' @ mo_key destPattern sourcePrefix)"

definition LoadAllMORoutes :: "'d pebble \<Rightarrow> 'd MessageStore \<Rightarrow> MORoute list \<times> store_error option" where
  "LoadAllMORoutes P s = ScanPrefix P s (lit ''route:mo:'') (collect as_mo) []"

definition SavePoolConfig :: "'d pebble \<Rightarrow> 'd MessageStore \<Rightarrow> SouthboundPoolConfig \<Rightarrow> 'd MessageStore \<times> store_error option" where
  "SavePoolConfig P s cfg = SetJSON P s (lit ''pool:'' @ sp_Name cfg) (marshal_PoolConfig cfg)"

definition DeletePoolConfig :: "'d pebble \<Rightarrow> 'd MessageStore \<Rightarrow> gostring \<Rightarrow> 'd MessageStore \<times> store_error option" where
  "DeletePoolConfig P s name = DeleteKey P s (lit ''pool:'' @ name)"

definition LoadAllPoolConfigs :: "'d pebble \<Rightarrow> 'd MessageStore \<Rightarrow> SouthboundPoolConfig list \<times> store_error option" where
  "LoadAllPoolConfigs P s = ScanPrefix P s (lit ''pool:'') (collect as_pool) []"

section \<open>The contract\<close>

text \<open>A change of the configuration: save a value, or delete a key.\<close>

datatype 'r config_op = Save 'r | Drop gostring

fun config_map :: "('r \<Rightarrow> gostring) \<Rightarrow> ('r \<Rightarrow> 'r) \<Rightarrow> (gostring \<rightharpoonup> 'r) \<Rightarrow> 'r config_op \<Rightarrow> (gostring \<rightharpoonup> 'r)" where
  "config_map key stored m (Save r) = m(key r \<mapsto> stored r)"
| "config_map key stored m (Drop k) = m(k := None)"

fun config_step :: "('s \<Rightarrow> 'r \<Rightarrow> 's \<times> 'e) \<Rightarrow> ('s \<Rightarrow> gostring \<Rightarrow> 's \<times> 'e) \<Rightarrow> 's \<Rightarrow> 'r config_op \<Rightarrow> 's" where
  "config_step save delete s (Save r) = fst (save s r)"
| "config_step save delete s (Drop k) = fst (delete s k)"

definition listing :: "(gostring \<rightharpoonup> 'r) \<Rightarrow> 'r list" where
  "listing m = map (\<lambda>k. the (m k)) (sorted_list_of_set (dom m))"

locale config_store =
  fixes invar :: "'s \<Rightarrow> bool"
    and content :: "'s \<Rightarrow> (gostring \<rightharpoonup> 'r)"
    and save :: "'s \<Rightarrow> 'r \<Rightarrow> 's \<times> store_error option"
    and delete :: "'s \<Rightarrow> gostring \<Rightarrow> 's \<times> store_error option"
    and load :: "'s \<Rightarrow> 'r list \<times> store_error option"
    and key :: "'r \<Rightarrow> gostring"
    and stored :: "'r \<Rightarrow> 'r"
  assumes save_law: "invar s \<Longrightarrow> \<exists>s'. save s r = (s', None) \<and> invar s' \<and> content s' = (content s)(key r \<mapsto> stored r)"
    and delete_law: "invar s \<Longrightarrow> \<exists>s'. delete s k = (s', None) \<and> invar s' \<and> content s' = (content s)(k := None)"
    and load_law: "invar s \<Longrightarrow> load s = (listing (content s), None)"
begin

lemma config_step_law: "invar s \<Longrightarrow> invar (config_step save delete s op) \<and> content (config_step save delete s op) = config_map key stored (content s) op"
proof (cases op)
  case (Save r)
  assume "invar s"
  then obtain s' where "save s r = (s', None) \<and> invar s' \<and> content s' = (content s)(key r \<mapsto> stored r)"
    using save_law by blast
  then show ?thesis by (simp add: Save)
next
  case (Drop k)
  assume "invar s"
  then obtain s' where "delete s k = (s', None) \<and> invar s' \<and> content s' = (content s)(k := None)"
    using delete_law by blast
  then show ?thesis by (simp add: Drop)
qed

lemma config_run: "invar s \<Longrightarrow> invar (foldl (config_step save delete) s ops) \<and>
    content (foldl (config_step save delete) s ops) = foldl (config_map key stored) (content s) ops"
  by (induction ops arbitrary: s) (simp_all add: config_step_law)

lemma load_after_run: "invar s \<Longrightarrow> load (foldl (config_step save delete) s ops) = (listing (foldl (config_map key stored) (content s) ops), None)"
  using config_run load_law by metis

end

section \<open>One kind of configuration under a key prefix\<close>

definition ns_content :: "gostring \<Rightarrow> (dbval \<Rightarrow> 'r option) \<Rightarrow> (gostring, dbval) fmap \<Rightarrow> (gostring \<rightharpoonup> 'r)" where
  "ns_content p parse m = (\<lambda>k. Option.bind (fmlookup m (p @ k)) parse)"

definition ns_parses :: "gostring \<Rightarrow> (dbval \<Rightarrow> 'r option) \<Rightarrow> (gostring, dbval) fmap \<Rightarrow> bool" where
  "ns_parses p parse m \<longleftrightarrow> (\<forall>k v. fmlookup m k = Some v \<longrightarrow> HasPrefix k p \<longrightarrow> parse v \<noteq> None)"

lemma scan_collect:
  "\<forall>(k, v) \<in> set es. \<exists>w r. v = Some w \<and> parse w = Some r \<Longrightarrow>
   scan_loop (collect parse) es acc = (acc @ map (\<lambda>(k, v). the (Option.bind v parse)) es, None)"
proof (induction es arbitrary: acc)
  case (Cons e es)
  obtain k w r where "e = (k, Some w)" "parse w = Some r" using Cons.prems by (cases e) auto
  then show ?case using Cons by (simp add: collect_def)
qed simp

lemma prefix_keys:
  "filter (\<lambda>k. HasPrefix k p) (sorted_list_of_fset (fmdom m)) =
     map ((@) p) (sorted_list_of_set {k. p @ k |\<in>| fmdom m})"
proof (rule sorted_distinct_set_unique)
  have fin: "finite {k. p @ k |\<in>| fmdom m}"
    by (rule finite_imageD [of "(@) p"]) (auto intro: finite_subset [of _ "fset (fmdom m)"] simp: inj_on_def)
  show "sorted (map ((@) p) (sorted_list_of_set {k. p @ k |\<in>| fmdom m}))"
    by (simp add: sorted_map)
  show "distinct (map ((@) p) (sorted_list_of_set {k. p @ k |\<in>| fmdom m}))"
    by (simp add: distinct_map inj_on_def)
  show "set (filter (\<lambda>k. HasPrefix k p) (sorted_list_of_fset (fmdom m))) = set (map ((@) p) (sorted_list_of_set {k. p @ k |\<in>| fmdom m}))"
    using fin by (auto simp: sorted_list_of_fset.rep_eq HasPrefix_iff)
qed (simp_all add: sorted_list_of_fset.rep_eq sorted_wrt_filter)

lemma load_listing:
  assumes "pebble_ok P contents" "p \<noteq> []" "last p \<noteq> 0xFF" "ns_parses p parse (contents (db s))"
  shows "ScanPrefix P s p (collect parse) [] = (listing (ns_content p parse (contents (db s))), None)"
proof -
  let ?m = "contents (db s)"
  have dom: "dom (ns_content p parse ?m) = {k. p @ k |\<in>| fmdom ?m}"
    using assms(4) by (fastforce simp: ns_content_def ns_parses_def HasPrefix_iff fmlookup_dom_iff bind_eq_Some_conv)
  have "\<forall>(k, v) \<in> set (prefix_entries ?m p). \<exists>w r. v = Some w \<and> parse w = Some r"
    using assms(4) by (fastforce simp: prefix_entries_set ns_parses_def fmlookup_dom_iff)
  then have "ScanPrefix P s p (collect parse) [] = (map (\<lambda>(k, v). the (Option.bind v parse)) (prefix_entries ?m p), None)"
    by (simp add: ScanPrefix_entries [OF assms(1-3)] scan_collect)
  also have "map (\<lambda>(k, v). the (Option.bind v parse)) (prefix_entries ?m p) = listing (ns_content p parse ?m)"
    by (simp add: prefix_entries_def prefix_keys listing_def dom [unfolded ns_content_def] comp_def ns_content_def)
  finally show ?thesis .
qed

lemma SetJSON_ns:
  assumes "pebble_ok P contents" "ns_parses p parse (contents (db s))" "parse v = Some r"
  shows "\<exists>s'. SetJSON P s (p @ k) v = (s', None) \<and> ns_parses p parse (contents (db s')) \<and>
    ns_content p parse (contents (db s')) = (ns_content p parse (contents (db s)))(k \<mapsto> r)"
proof -
  obtain d where "pb_set P (db s) (p @ k) v = Some d" "contents d = fmupd (p @ k) v (contents (db s))"
    using pebble_setE [OF assms(1)] .
  then show ?thesis
    using assms(2,3) by (auto simp: SetJSON_def set_then_def ns_parses_def ns_content_def fun_eq_iff)
qed

lemma DeleteKey_ns:
  assumes "pebble_ok P contents" "ns_parses p parse (contents (db s))"
  shows "\<exists>s'. DeleteKey P s (p @ k) = (s', None) \<and> ns_parses p parse (contents (db s')) \<and>
    ns_content p parse (contents (db s')) = (ns_content p parse (contents (db s)))(k := None)"
proof -
  obtain d where "pb_delete P (db s) (p @ k) = Some d" "contents d = fmdrop (p @ k) (contents (db s))"
    using pebble_deleteE [OF assms(1)] .
  then show ?thesis
    using assms(2) by (auto simp: DeleteKey_def delete_then_def ns_parses_def ns_content_def fun_eq_iff)
qed

lemma config_store_ns:
  assumes "p \<noteq> []" "last p \<noteq> 0xFF" "\<And>r. parse (marshal r) = Some (stored r)"
  shows "config_store (\<lambda>s. pebble_ok P contents \<and> ns_parses p parse (contents (db s))) (\<lambda>s. ns_content p parse (contents (db s)))
    (\<lambda>s r. SetJSON P s (p @ key r) (marshal r)) (\<lambda>s k. DeleteKey P s (p @ k)) (\<lambda>s. ScanPrefix P s p (collect parse) []) key stored"
proof (unfold_locales, goal_cases)
  case (1 s r)
  then show ?case using SetJSON_ns [where p = p and parse = parse and v = "marshal r", OF _ _ assms(3)] by blast
next
  case (2 s k)
  then show ?case using DeleteKey_ns [where p = p and parse = parse] by blast
next
  case (3 s)
  then show ?case using load_listing [OF _ assms(1,2)] by blast
qed

definition json_MTRoute :: "MTRoute \<Rightarrow> MTRoute" where "json_MTRoute r = the (as_mt (marshal_MTRoute r))"
definition json_MORoute :: "MORoute \<Rightarrow> MORoute" where "json_MORoute r = the (as_mo (marshal_MORoute r))"
definition json_PoolConfig :: "SouthboundPoolConfig \<Rightarrow> SouthboundPoolConfig" where "json_PoolConfig c = the (as_pool (marshal_PoolConfig c))"

lemma config_prefixes:
  "lit ''route:mt:'' \<noteq> []" "last (lit ''route:mt:'') \<noteq> 0xFF" "lit ''route:mo:'' \<noteq> []" "last (lit ''route:mo:'') \<noteq> 0xFF"
  "lit ''pool:'' \<noteq> []" "last (lit ''pool:'') \<noteq> 0xFF"
  by (simp_all add: lit_def)

lemma config_json:
  "as_mt (marshal_MTRoute r) = Some (json_MTRoute r)" "as_mo (marshal_MORoute ro) = Some (json_MORoute ro)"
  "as_pool (marshal_PoolConfig c) = Some (json_PoolConfig c)"
  by (simp_all add: json_MTRoute_def json_MORoute_def json_PoolConfig_def marshal_MTRoute_def marshal_MORoute_def marshal_PoolConfig_def)

lemma mtc_store:
  "config_store (\<lambda>s. pebble_ok P contents \<and> ns_parses (lit ''route:mt:'') as_mt (contents (db s)))
     (\<lambda>s. ns_content (lit ''route:mt:'') as_mt (contents (db s))) (SaveMTRoute P) (DeleteMTRoute P) (LoadAllMTRoutes P) (Prefix) json_MTRoute"
  unfolding SaveMTRoute_def [abs_def] DeleteMTRoute_def [abs_def] LoadAllMTRoutes_def [abs_def]
  by (rule config_store_ns [where p = "lit ''route:mt:''" and parse = as_mt and marshal = marshal_MTRoute and stored = json_MTRoute
        and key = "Prefix", OF config_prefixes(1,2) config_json(1)])

interpretation mtc: config_store
  "\<lambda>s. pebble_ok P contents \<and> ns_parses (lit ''route:mt:'') as_mt (contents (db s))"
  "\<lambda>s. ns_content (lit ''route:mt:'') as_mt (contents (db s))"
  "SaveMTRoute P" "DeleteMTRoute P" "LoadAllMTRoutes P" "Prefix" json_MTRoute for P contents
  by (rule mtc_store)

lemma moc_store:
  "config_store (\<lambda>s. pebble_ok P contents \<and> ns_parses (lit ''route:mo:'') as_mo (contents (db s)))
     (\<lambda>s. ns_content (lit ''route:mo:'') as_mo (contents (db s))) (SaveMORoute P) (\<lambda>s k. DeleteKey P s (lit ''route:mo:'' @ k)) (LoadAllMORoutes P) (\<lambda>r. mo_key (DestPattern r) (SourcePrefix r)) json_MORoute"
  unfolding SaveMORoute_def [abs_def] LoadAllMORoutes_def [abs_def]
  by (rule config_store_ns [where p = "lit ''route:mo:''" and parse = as_mo and marshal = marshal_MORoute and stored = json_MORoute
        and key = "\<lambda>r. mo_key (DestPattern r) (SourcePrefix r)", OF config_prefixes(3,4) config_json(2)])

interpretation moc: config_store
  "\<lambda>s. pebble_ok P contents \<and> ns_parses (lit ''route:mo:'') as_mo (contents (db s))"
  "\<lambda>s. ns_content (lit ''route:mo:'') as_mo (contents (db s))"
  "SaveMORoute P" "\<lambda>s k. DeleteKey P s (lit ''route:mo:'' @ k)" "LoadAllMORoutes P" "\<lambda>r. mo_key (DestPattern r) (SourcePrefix r)" json_MORoute for P contents
  by (rule moc_store)

lemma plc_store:
  "config_store (\<lambda>s. pebble_ok P contents \<and> ns_parses (lit ''pool:'') as_pool (contents (db s)))
     (\<lambda>s. ns_content (lit ''pool:'') as_pool (contents (db s))) (SavePoolConfig P) (DeletePoolConfig P) (LoadAllPoolConfigs P) (sp_Name) json_PoolConfig"
  unfolding SavePoolConfig_def [abs_def] DeletePoolConfig_def [abs_def] LoadAllPoolConfigs_def [abs_def]
  by (rule config_store_ns [where p = "lit ''pool:''" and parse = as_pool and marshal = marshal_PoolConfig and stored = json_PoolConfig
        and key = "sp_Name", OF config_prefixes(5,6) config_json(3)])

interpretation plc: config_store
  "\<lambda>s. pebble_ok P contents \<and> ns_parses (lit ''pool:'') as_pool (contents (db s))"
  "\<lambda>s. ns_content (lit ''pool:'') as_pool (contents (db s))"
  "SavePoolConfig P" "DeletePoolConfig P" "LoadAllPoolConfigs P" "sp_Name" json_PoolConfig for P contents
  by (rule plc_store)

lemma ns_ok_config:
  "ns_ok k v \<Longrightarrow> HasPrefix k (lit ''route:mt:'') \<Longrightarrow> as_mt v \<noteq> None"
  "ns_ok k v \<Longrightarrow> HasPrefix k (lit ''route:mo:'') \<Longrightarrow> as_mo v \<noteq> None"
  "ns_ok k v \<Longrightarrow> HasPrefix k (lit ''pool:'') \<Longrightarrow> as_pool v \<noteq> None"
  unfolding ns_ok_def by (elim conjE, force)+

lemma typed_config:
  assumes "typed m"
  shows "ns_parses (lit ''route:mt:'') as_mt m" "ns_parses (lit ''route:mo:'') as_mo m" "ns_parses (lit ''pool:'') as_pool m"
  using assms ns_ok_config unfolding typed_def ns_parses_def by blast+

lemma config_ns_ok:
  "ns_ok (lit ''route:mt:'' @ k) (marshal_MTRoute r)" "ns_ok (lit ''route:mo:'' @ k) (marshal_MORoute ro)"
  "ns_ok (lit ''pool:'' @ k) (marshal_PoolConfig c)"
  by (simp_all add: ns_ok_def lit_def marshal_MTRoute_def marshal_MORoute_def marshal_PoolConfig_def)

section \<open>Properties\<close>


definition example_mo :: MORoute where
  "example_mo = \<lparr>DestPattern = lit ''12*'', SourcePrefix = [], Target = \<lparr>Type = lit ''smpp'', mt_ConnID = lit ''c'', CallbackURL = []\<rparr>, Priority = 5\<rparr>"


end
