(* ===== verification/Conn_Config.thy ===== *)
theory Conn_Config
  imports Route_Config
begin

text \<open>
  The per-client connection configuration \<^verbatim>\<open>gateway/conn_config.go\<close>.

  The bcrypt package is third-party code: \<open>gen\<close> is \<^verbatim>\<open>GenerateFromPassword\<close> at one call (it draws a
  fresh salt each time, and fails for a password it cannot hash), \<open>cmp\<close> is
  \<^verbatim>\<open>CompareHashAndPassword\<close> returning no error. What the code relies on is \<open>bcrypt_ok\<close>: a hash
  accepts the password it was made from, and is plain text.
\<close>

type_synonym bcrypt_gen = "bytes \<Rightarrow> gostring option"
type_synonym bcrypt_cmp = "bytes \<Rightarrow> bytes \<Rightarrow> bool"

definition bcrypt_ok :: "bcrypt_gen \<Rightarrow> bcrypt_cmp \<Rightarrow> bool" where
  "bcrypt_ok gen cmp \<longleftrightarrow> (\<forall>pw h. gen pw = Some h \<longrightarrow> cmp h pw \<and> json_string h = h)"

section \<open>Operations\<close>

abbreviation SourceAddrModePassthrough :: gostring where "SourceAddrModePassthrough \<equiv> lit ''passthrough''"
abbreviation SourceAddrModeDefault :: gostring where "SourceAddrModeDefault \<equiv> lit ''default''"
abbreviation SourceAddrModeOverride :: gostring where "SourceAddrModeOverride \<equiv> lit ''override''"
abbreviation SourceAddrModeWhitelist :: gostring where "SourceAddrModeWhitelist \<equiv> lit ''whitelist''"

datatype conn_error =
    SystemIDRequired
  | AlreadyExists gostring
  | PasswordRequired
  | BcryptError
  | ConfigNotFound gostring
  | AccountDisabled gostring
  | InvalidPassword gostring
  | StoreError store_error

fun as_conn_config :: "dbval \<Rightarrow> ConnectionConfig option" where
  "as_conn_config (VConnConfig c) = Some c"
| "as_conn_config _ = None"

definition connConfigKey :: "gostring \<Rightarrow> gostring" where
  "connConfigKey systemID = lit ''connconfig:'' @ systemID"

definition store_result :: "'d MessageStore \<times> store_error option \<Rightarrow> 'd MessageStore \<times> conn_error option" where
  "store_result = map_prod id (map_option StoreError)"

text \<open>Any error of the uniqueness check, also a failed read, counts as absence.\<close>

definition Create :: "bcrypt_gen \<Rightarrow> 'd pebble \<Rightarrow> 'd MessageStore \<Rightarrow> Time \<Rightarrow> ConnectionConfig \<Rightarrow>
    'd MessageStore \<times> conn_error option" where
  "Create gen P s now cfg =
     (if cc_SystemID cfg = [] then (s, Some SystemIDRequired)
      else case GetJSON P s (connConfigKey (cc_SystemID cfg)) as_conn_config of
        Inr _ \<Rightarrow> (s, Some (AlreadyExists (cc_SystemID cfg)))
      | Inl _ \<Rightarrow>
          if cc_Password cfg = [] then (s, Some PasswordRequired)
          else (case gen (cc_Password cfg) of
             None \<Rightarrow> (s, Some BcryptError)
           | Some hash \<Rightarrow>
               store_result (SetJSON P s (connConfigKey (cc_SystemID cfg))
                 (marshal_ConnectionConfig (cfg\<lparr>cc_Password := hash, cc_CreatedAt := now, cc_UpdatedAt := now\<rparr>)))))"

definition cs_Get :: "'d pebble \<Rightarrow> 'd MessageStore \<Rightarrow> gostring \<Rightarrow> store_error + ConnectionConfig option" where
  "cs_Get P s systemID = nil_if_absent (GetJSON P s (connConfigKey systemID) as_conn_config)"

text \<open>The fields \<^verbatim>\<open>Update\<close> copies; system id, password hash and creation time stay.\<close>

definition merge_config :: "ConnectionConfig \<Rightarrow> ConnectionConfig \<Rightarrow> ConnectionConfig" where
  "merge_config existing cfg = existing\<lparr>
     cc_Description := cc_Description cfg, cc_Enabled := cc_Enabled cfg, cc_AllowedIPs := cc_AllowedIPs cfg,
     cc_MaxTPS := cc_MaxTPS cfg, cc_CostPerSMS := cc_CostPerSMS cfg, cc_AllowedPrefixes := cc_AllowedPrefixes cfg,
     cc_DefaultSourceAddr := cc_DefaultSourceAddr cfg, cc_DefaultSourceTON := cc_DefaultSourceTON cfg,
     cc_DefaultSourceNPI := cc_DefaultSourceNPI cfg, cc_SourceAddrMode := cc_SourceAddrMode cfg,
     cc_ForceSourceAddr := cc_ForceSourceAddr cfg, cc_ForceSourceTON := cc_ForceSourceTON cfg,
     cc_ForceSourceNPI := cc_ForceSourceNPI cfg, cc_AllowedSourceAddrs := cc_AllowedSourceAddrs cfg,
     cc_MaxBinds := cc_MaxBinds cfg, cc_AllowedBindModes := cc_AllowedBindModes cfg\<rparr>"

definition Update :: "bcrypt_gen \<Rightarrow> 'd pebble \<Rightarrow> 'd MessageStore \<Rightarrow> Time \<Rightarrow> ConnectionConfig \<Rightarrow>
    'd MessageStore \<times> conn_error option" where
  "Update gen P s now cfg =
     (if cc_SystemID cfg = [] then (s, Some SystemIDRequired)
      else case cs_Get P s (cc_SystemID cfg) of
        Inl e \<Rightarrow> (s, Some (StoreError e))
      | Inr None \<Rightarrow> (s, Some (ConfigNotFound (cc_SystemID cfg)))
      | Inr (Some existing) \<Rightarrow>
          (case (if cc_Password cfg \<noteq> [] then gen (cc_Password cfg) else Some (cc_Password existing)) of
             None \<Rightarrow> (s, Some BcryptError)
           | Some hash \<Rightarrow>
               store_result (SetJSON P s (connConfigKey (cc_SystemID cfg))
                 (marshal_ConnectionConfig ((merge_config (existing\<lparr>cc_Password := hash\<rparr>) cfg)\<lparr>cc_UpdatedAt := now\<rparr>)))))"

definition cs_Delete :: "'d pebble \<Rightarrow> 'd MessageStore \<Rightarrow> gostring \<Rightarrow> 'd MessageStore \<times> store_error option" where
  "cs_Delete P s systemID = DeleteKey P s (connConfigKey systemID)"

definition list_config :: "gostring \<Rightarrow> dbval \<Rightarrow> ConnectionConfig list \<Rightarrow> store_error + ConnectionConfig list" where
  "list_config key data acc =
     (case as_conn_config data of None \<Rightarrow> Inr acc | Some cfg \<Rightarrow> Inr (acc @ [cfg\<lparr>cc_Password := []\<rparr>]))"

definition cs_List :: "'d pebble \<Rightarrow> 'd MessageStore \<Rightarrow> ConnectionConfig list \<times> store_error option" where
  "cs_List P s = ScanPrefix P s (lit ''connconfig:'') list_config []"

definition Authenticate :: "bcrypt_cmp \<Rightarrow> 'd pebble \<Rightarrow> 'd MessageStore \<Rightarrow> gostring \<Rightarrow> bytes \<Rightarrow>
    conn_error + ConnectionConfig option" where
  "Authenticate cmp P s systemID plainPassword =
     (case cs_Get P s systemID of
        Inl e \<Rightarrow> Inl (StoreError e)
      | Inr None \<Rightarrow> Inr None
      | Inr (Some cfg) \<Rightarrow>
          if \<not> cc_Enabled cfg then Inl (AccountDisabled systemID)
          else if \<not> cmp (cc_Password cfg) plainPassword then Inl (InvalidPassword systemID)
          else Inr (Some cfg))"

section \<open>Lemmas\<close>

definition json_ConnectionConfig :: "ConnectionConfig \<Rightarrow> ConnectionConfig" where
  "json_ConnectionConfig c = the (as_conn_config (marshal_ConnectionConfig c))"

lemma json_config: "as_conn_config (marshal_ConnectionConfig c) = Some (json_ConnectionConfig c)"
  by (simp add: json_ConnectionConfig_def marshal_ConnectionConfig_def)

lemma json_config_fields [simp]:
  "cc_Enabled (json_ConnectionConfig c) = cc_Enabled c" "cc_Password (json_ConnectionConfig c) = json_string (cc_Password c)"
  "cc_MaxTPS (json_ConnectionConfig c) = cc_MaxTPS c"
  by (simp_all add: json_ConnectionConfig_def marshal_ConnectionConfig_def)

lemma ns_ok_conn: "ns_ok (connConfigKey i) (marshal_ConnectionConfig c)"
  by (simp add: ns_ok_def connConfigKey_def lit_def marshal_ConnectionConfig_def)

lemma typed_conn: "typed m \<Longrightarrow> fmlookup m (connConfigKey i) = Some v \<Longrightarrow> \<exists>c. v = VConnConfig c"
  unfolding typed_def ns_ok_def connConfigKey_def HasPrefix_iff by blast

lemma SetJSON_get:
  assumes "pebble_ok P contents"
  shows "\<exists>s'. SetJSON P s k v = (s', None) \<and> contents (db s') = fmupd k v (contents (db s)) \<and> s' = s\<lparr>db := db s'\<rparr>"
proof -
  obtain d where "pb_set P (db s) k v = Some d" "contents d = fmupd k v (contents (db s))"
    using pebble_setE [OF assms] .
  then show ?thesis by (simp add: SetJSON_def set_then_def)
qed

lemma GetJSON_lookup:
  "pebble_ok P contents \<Longrightarrow> GetJSON P s k parse = (case fmlookup (contents (db s)) k of None \<Rightarrow> Inl ErrNotFound
     | Some v \<Rightarrow> (case parse v of None \<Rightarrow> Inl UnmarshalError | Some r \<Rightarrow> Inr r))"
  by (simp add: GetJSON_def pebble_get split: option.split)

lemma cs_Get_lookup:
  assumes "pebble_ok P contents" "typed (contents (db s))"
  shows "cs_Get P s i = Inr (Option.bind (fmlookup (contents (db s)) (connConfigKey i)) as_conn_config)"
  using typed_conn [OF assms(2), of i]
  by (auto simp: cs_Get_def GetJSON_lookup [OF assms(1)] nil_if_absent_def split: option.split)

lemma list_config_hides:
  "\<forall>c \<in> set acc. cc_Password c = [] \<Longrightarrow> \<forall>c \<in> set (fst (scan_loop list_config es acc)). cc_Password c = []"
proof (induction list_config es acc rule: scan_loop.induct)
  case (3 key val entries st)
  show ?case
  proof (cases "as_conn_config val")
    case None
    then show ?thesis using 3 by (simp add: list_config_def)
  next
    case (Some c)
    then show ?thesis using 3 by (simp add: list_config_def)
  qed
qed simp_all

section \<open>Properties\<close>

text \<open>
  C37. Credentials: in every reachable store, creating an account for a fresh system id with a password
  that can be hashed succeeds, after which that password authenticates and yields the stored
  configuration, or is refused because the account is disabled.
\<close>

theorem create_then_authenticate:
  assumes "pebble_ok P contents" and "store_reachable P contents s" and "bcrypt_ok gen cmp"
    and "cc_SystemID cfg \<noteq> []" and "cc_Password cfg \<noteq> []" and "gen (cc_Password cfg) = Some hash"
    and "cs_Get P s (cc_SystemID cfg) = Inr None"
  shows "\<exists>s'. Create gen P s now cfg = (s', None) \<and>
    Authenticate cmp P s' (cc_SystemID cfg) (cc_Password cfg) =
      (if cc_Enabled cfg
       then Inr (Some (json_ConnectionConfig (cfg\<lparr>cc_Password := hash, cc_CreatedAt := now, cc_UpdatedAt := now\<rparr>)))
       else Inl (AccountDisabled (cc_SystemID cfg)))"
proof -
  let ?c = "cfg\<lparr>cc_Password := hash, cc_CreatedAt := now, cc_UpdatedAt := now\<rparr>" and ?k = "connConfigKey (cc_SystemID cfg)"
  have t: "typed (contents (db s))" using store_reachable_ok [OF assms(1,2)] by (simp add: store_ok_def)
  have none: "GetJSON P s ?k as_conn_config = Inl ErrNotFound"
    using assms(7) typed_conn [OF t, of "cc_SystemID cfg"]
    by (auto simp: cs_Get_def GetJSON_lookup [OF assms(1)] nil_if_absent_def split: option.splits)
  obtain s' where s': "SetJSON P s ?k (marshal_ConnectionConfig ?c) = (s', None)"
      "contents (db s') = fmupd ?k (marshal_ConnectionConfig ?c) (contents (db s))"
    using SetJSON_get [OF assms(1)] by blast
  have "cs_Get P s' (cc_SystemID cfg) = Inr (Some (json_ConnectionConfig ?c))"
    using typed_upd [OF t ns_ok_conn] by (simp add: cs_Get_lookup [OF assms(1)] s'(2) json_config)
  moreover have "cmp (json_string hash) (cc_Password cfg)" using assms(3,6) by (simp add: bcrypt_ok_def)
  moreover have "Create gen P s now cfg = (s', None)"
    using assms(4,5,6) by (simp add: Create_def none s'(1) store_result_def)
  ultimately show ?thesis by (simp add: Authenticate_def)
qed

definition example_config :: ConnectionConfig where
  "example_config = \<lparr>cc_SystemID = lit ''acme'', cc_Password = lit ''pw'', cc_Description = [], cc_Enabled = True, cc_AllowedIPs = [],
     cc_MaxTPS = 10, cc_CostPerSMS = 0, cc_AllowedPrefixes = [], cc_DefaultSourceAddr = [], cc_DefaultSourceTON = 0,
     cc_DefaultSourceNPI = 0, cc_SourceAddrMode = [], cc_ForceSourceAddr = [], cc_ForceSourceTON = 0, cc_ForceSourceNPI = 0,
     cc_AllowedSourceAddrs = [], cc_MaxBinds = 0, cc_AllowedBindModes = [], cc_CreatedAt = 5, cc_UpdatedAt = 5\<rparr>"

text \<open>A stand-in for bcrypt that knows one password.\<close>

definition one_hash :: bcrypt_gen where
  "one_hash pw = (if pw = lit ''pw'' then Some (lit ''h'') else None)"

definition one_check :: bcrypt_cmp where
  "one_check h pw \<longleftrightarrow> h = lit ''h'' \<and> pw = lit ''pw''"

lemma json_h: "json_string (lit ''h'') = lit ''h''"
  by (simp add: json_string_ascii lit_def)

lemma one_hash_ok: "bcrypt_ok one_hash one_check"
  by (simp add: bcrypt_ok_def one_hash_def one_check_def json_h)

theorem create_then_authenticate_witness:
  "\<exists>s'. Create one_hash mem_pebble (NewMessageStore fmempty) 9 example_config = (s', None) \<and>
    Authenticate one_check mem_pebble s' (lit ''acme'') (lit ''pw'') =
      Inr (Some (json_ConnectionConfig (example_config\<lparr>cc_Password := lit ''h'', cc_CreatedAt := 9, cc_UpdatedAt := 9\<rparr>)))"
  using create_then_authenticate [OF mem_pebble_ok fresh one_hash_ok, of fmempty example_config "lit ''h''" 9]
  by (simp add: example_config_def one_hash_def cs_Get_def GetJSON_def nil_if_absent_def NewMessageStore_def mem_pebble_def)



text \<open>
  Listing the accounts never shows a password hash, whatever the database returns, also when the scan
  ends with an error.
\<close>

theorem list_hides_passwords:
  "list_all (\<lambda>c. cc_Password c = []) (fst (cs_List P s))"
  using list_config_hides [of "[]"] by (auto simp: cs_List_def ScanPrefix_def list_all_iff split: option.split)

end
