(* ===== verification/Sm_Body.thy ===== *)
theory Sm_Body
  imports Pdu Pool_Manager Database
begin

text \<open>
  The message bodies the gateway builds, reads and rewrites: the lower half of
  \<^verbatim>\<open>gateway/connection.go\<close>, and the bind bodies of \<^verbatim>\<open>smpp/bind.go\<close>. The readers are written
  over offsets with Go's bounds checks, as in \<open>Pdu\<close>.
\<close>

section \<open>Bind bodies\<close>

definition EncodeBind :: "BindMode \<Rightarrow> gostring \<Rightarrow> gostring \<Rightarrow> gostring \<Rightarrow> byte \<Rightarrow> bytes" where
  "EncodeBind mode systemID password systemType interfaceVersion =
     (let buf = writeCString [] systemID;
          buf = writeCString buf password;
          buf = writeCString buf systemType;
          buf = buf @ [interfaceVersion];
          buf = buf @ [0];
          buf = buf @ [0]
      in writeCString buf [])"

definition EncodeBindTransceiver :: "gostring \<Rightarrow> gostring \<Rightarrow> gostring \<Rightarrow> bytes" where
  "EncodeBindTransceiver systemID password systemType = EncodeBind BindTransceiver systemID password systemType 0x34"

fun bindCommandID :: "BindMode \<Rightarrow> uint32" where
  "bindCommandID BindTransmitter = CmdBindTransmitter"
| "bindCommandID BindReceiver = CmdBindReceiver"
| "bindCommandID BindTransceiver = CmdBindTransceiver"

fun bindRespCommandID_mode :: "BindMode \<Rightarrow> uint32" where
  "bindRespCommandID_mode BindTransmitter = CmdBindTransmitterResp"
| "bindRespCommandID_mode BindReceiver = CmdBindReceiverResp"
| "bindRespCommandID_mode BindTransceiver = CmdBindTransceiverResp"

text \<open>A nil TLV set is \<open>None\<close>.\<close>

definition ParseBindResp :: "uint32 \<Rightarrow> bytes \<Rightarrow> (gostring \<times> TLVSet option) go" where
  "ParseBindResp commandID body =
     (if length body = 0 then Some ([], None) else do {
        (systemID, offset) \<leftarrow> readCString body 0;
        if offset < length body then do {
          rest \<leftarrow> slice_from body offset;
          r \<leftarrow> DecodeTLVs rest;
          Some (systemID, case r of Inl _ \<Rightarrow> None | Inr tlvs \<Rightarrow> Some tlvs)
        } else Some (systemID, None)
      })"

definition bindRespCommandID :: "uint32 \<Rightarrow> uint32" where
  "bindRespCommandID cmdID =
     (if cmdID = CmdBindTransmitter then CmdBindTransmitterResp
      else if cmdID = CmdBindReceiver then CmdBindReceiverResp
      else CmdBindTransceiverResp)"

definition bindModeFromCommandID :: "uint32 \<Rightarrow> BindMode" where
  "bindModeFromCommandID cmdID =
     (if cmdID = CmdBindTransmitter then BindTransmitter
      else if cmdID = CmdBindReceiver then BindReceiver
      else BindTransceiver)"

fun bindModeName :: "BindMode \<Rightarrow> gostring" where
  "bindModeName BindTransmitter = lit ''transmitter''"
| "bindModeName BindReceiver = lit ''receiver''"
| "bindModeName BindTransceiver = lit ''transceiver''"

definition ParseBindTransceiver :: "bytes \<Rightarrow> (gostring \<times> gostring) go" where
  "ParseBindTransceiver body = do {
     (systemID, offset) \<leftarrow> readCString body 0;
     (password, _) \<leftarrow> readCString body offset;
     Some (systemID, password)
   }"

section \<open>Addresses\<close>

definition ParseSubmitSMAddresses :: "bytes \<Rightarrow> (gostring \<times> gostring) go" where
  "ParseSubmitSMAddresses body =
     (let n = length body in
      if n = 0 then Some ([], []) else do {
      (_, offset) \<leftarrow> readCString body 0;
      if n \<le> offset then Some ([], []) else do {
      let offset = offset + 1;
      if n \<le> offset then Some ([], []) else do {
      let offset = offset + 1;
      (sourceAddr, offset) \<leftarrow> readCString body offset;
      if n \<le> offset then Some (sourceAddr, []) else do {
      let offset = offset + 1;
      if n \<le> offset then Some (sourceAddr, []) else do {
      let offset = offset + 1;
      (destAddr, _) \<leftarrow> readCString body offset;
      Some (sourceAddr, destAddr)
      }}}}})"

definition RewriteSubmitSMSource :: "bytes \<Rightarrow> gostring \<Rightarrow> byte \<Rightarrow> byte \<Rightarrow> bytes go" where
  "RewriteSubmitSMSource body newAddr newTON newNPI =
     (let n = length body in
      if n = 0 then Some body else do {
      (_, offset) \<leftarrow> readCString body 0;
      if n \<le> offset then Some body else do {
      let serviceTypeEnd = offset;
      if n < offset + 2 then Some body else do {
      let offset = offset + 2;
      (_, offset) \<leftarrow> readCString body offset;
      if n < offset then Some body else do {
      let sourceAddrEnd = offset;
      pre \<leftarrow> slice body 0 serviceTypeEnd;
      rest \<leftarrow> slice_from body sourceAddrEnd;
      Some (pre @ [newTON, newNPI] @ newAddr @ [0] @ rest)
      }}}})"

section \<open>Building bodies\<close>

definition appendCString :: "bytes \<Rightarrow> gostring \<Rightarrow> bytes" where
  "appendCString buf s = buf @ s @ [0]"

definition BuildDeliverSMBody :: "gostring \<Rightarrow> gostring \<Rightarrow> byte \<Rightarrow> bytes \<Rightarrow> bytes" where
  "BuildDeliverSMBody sourceAddr destAddr esmClass shortMessage =
     (let buf = appendCString [] [];
          buf = buf @ [0x00, 0x00];
          buf = appendCString buf sourceAddr;
          buf = buf @ [0x01, 0x01];
          buf = appendCString buf destAddr;
          buf = buf @ [esmClass];
          buf = buf @ [0];
          buf = buf @ [0];
          buf = appendCString buf [];
          buf = appendCString buf [];
          buf = buf @ [0];
          buf = buf @ [0];
          buf = buf @ [0];
          buf = buf @ [0]
      in if 254 < length shortMessage
         then buf @ [0] @ [0x04, 0x24] @ be16 (of_nat (length shortMessage)) @ shortMessage
         else buf @ [of_nat (length shortMessage)] @ shortMessage)"

definition BuildSubmitSMBody :: "gostring \<Rightarrow> gostring \<Rightarrow> bytes \<Rightarrow> bytes" where
  "BuildSubmitSMBody sourceAddr destAddr message =
     (let buf = appendCString [] [];
          buf = buf @ [0x00, 0x00];
          buf = appendCString buf sourceAddr;
          buf = buf @ [0x01, 0x01];
          buf = appendCString buf destAddr;
          buf = buf @ [0];
          buf = buf @ [0];
          buf = buf @ [0];
          buf = appendCString buf [];
          buf = appendCString buf [];
          buf = buf @ [0x01];
          buf = buf @ [0];
          buf = buf @ [0];
          buf = buf @ [0]
      in if 254 < length message
         then buf @ [0] @ [0x04, 0x24] @ be16 (of_nat (length message)) @ message
         else buf @ [of_nat (length message)] @ message)"

definition EncodeBindTransceiverResp :: "gostring \<Rightarrow> bytes go" where
  "EncodeBindTransceiverResp systemID = WriteCStringBytes systemID"

definition EncodeSubmitSMResp :: "gostring \<Rightarrow> bytes go" where
  "EncodeSubmitSMResp messageID = WriteCStringBytes messageID"

definition ParseSubmitSMRespBody :: "bytes \<Rightarrow> gostring go" where
  "ParseSubmitSMRespBody body =
     (if length body = 0 then Some [] else do { (msgID, _) \<leftarrow> readCString body 0; Some msgID })"

section \<open>Error texts and remote addresses\<close>

definition hex_digit :: "nat \<Rightarrow> byte" where
  "hex_digit n = (if n < 10 then of_nat (48 + n) else of_nat (55 + n))"

text \<open>\<^verbatim>\<open>%08X\<close> of a 32-bit value.\<close>

definition hex08 :: "uint32 \<Rightarrow> gostring" where
  "hex08 v = map (\<lambda>i. hex_digit (unat v div 16 ^ i mod 16)) [7, 6, 5, 4, 3, 2, 1, 0]"

definition FormatError :: "uint32 \<Rightarrow> gostring" where
  "FormatError status =
     (if status = StatusOK then lit ''OK''
      else if status = StatusInvBnd then lit ''invalid bind''
      else if status = StatusSysErr then lit ''system error''
      else if status = StatusThrottled then lit ''throttled''
      else if status = StatusMsgQFull then lit ''message queue full''
      else if status = StatusSubmitFail then lit ''submit failed''
      else lit ''status 0x'' @ hex08 status)"

text \<open>
  \<^verbatim>\<open>net.SplitHostPort\<close>, the host part: the last colon separates the port, a host in brackets may hold
  colons, and every malformed address is an error.
\<close>

fun last_index :: "byte \<Rightarrow> bytes \<Rightarrow> nat option" where
  "last_index b [] = None"
| "last_index b (x # xs) =
     (case last_index b xs of Some i \<Rightarrow> Some (Suc i) | None \<Rightarrow> if x = b then Some 0 else None)"

fun first_index :: "byte \<Rightarrow> bytes \<Rightarrow> nat option" where
  "first_index b [] = None"
| "first_index b (x # xs) = (if x = b then Some 0 else map_option Suc (first_index b xs))"

abbreviation colon :: byte where "colon \<equiv> 58"
abbreviation lbracket :: byte where "lbracket \<equiv> 91"
abbreviation rbracket :: byte where "rbracket \<equiv> 93"

definition SplitHostPort :: "gostring \<Rightarrow> gostring option" where
  "SplitHostPort hostport =
     (case last_index colon hostport of
        None \<Rightarrow> None
      | Some i \<Rightarrow>
          if hostport ! 0 = lbracket then
            (case first_index rbracket hostport of
               None \<Rightarrow> None
             | Some e \<Rightarrow>
                 if e + 1 \<noteq> i then None
                 else if lbracket \<in> set (drop 1 hostport) \<or> rbracket \<in> set (drop (e + 1) hostport) then None
                 else Some (take (e - 1) (drop 1 hostport)))
          else
            let host = take i hostport in
            if colon \<in> set host \<or> lbracket \<in> set hostport \<or> rbracket \<in> set hostport then None
            else Some host)"

definition extractIP :: "gostring \<Rightarrow> gostring" where
  "extractIP remoteAddr = (case SplitHostPort remoteAddr of None \<Rightarrow> remoteAddr | Some host \<Rightarrow> host)"

section \<open>Lemmas\<close>

lemma BuildDeliverSMBody_layout:
  "BuildDeliverSMBody src dst esm sm =
     encode_sm \<lparr>service_type = [], source_addr_ton = 0, source_addr_npi = 0, source_addr = src,
       dest_addr_ton = 1, dest_addr_npi = 1, destination_addr = dst, esm_class = esm,
       protocol_id = 0, priority_flag = 0, schedule_delivery_time = [], validity_period = [],
       registered_delivery = 0, replace_if_present_flag = 0, data_coding = 0,
       sm_default_msg_id = 0, short_message = (if 254 < length sm then [] else sm)\<rparr> @
     (if 254 < length sm then enc_tlv (TagMessagePayload, sm) else [])"
  by (simp add: BuildDeliverSMBody_def encode_sm_def appendCString_def enc_tlv_def be16_def)

lemma BuildSubmitSMBody_layout:
  "BuildSubmitSMBody src dst sm =
     encode_sm \<lparr>service_type = [], source_addr_ton = 0, source_addr_npi = 0, source_addr = src,
       dest_addr_ton = 1, dest_addr_npi = 1, destination_addr = dst, esm_class = 0,
       protocol_id = 0, priority_flag = 0, schedule_delivery_time = [], validity_period = [],
       registered_delivery = 1, replace_if_present_flag = 0, data_coding = 0,
       sm_default_msg_id = 0, short_message = (if 254 < length sm then [] else sm)\<rparr> @
     (if 254 < length sm then enc_tlv (TagMessagePayload, sm) else [])"
  by (simp add: BuildSubmitSMBody_def encode_sm_def appendCString_def enc_tlv_def be16_def)

lemma ParseSubmitSMAddresses_no_panic [no_panic]: "ParseSubmitSMAddresses body \<noteq> None"
  unfolding ParseSubmitSMAddresses_def readCString_def Let_def
  by (intro no_panic)

lemma ReadCString_offset:
  assumes "ReadCString data offset = Some (s, e)"
  shows "offset \<le> e" and "offset \<le> length data \<Longrightarrow> e \<le> length data"
proof -
  show "offset \<le> e" using assms by (auto simp: ReadCString_eq split: if_splits)
  show "e \<le> length data" if "offset \<le> length data"
    using assms that length_cstr_drop [of offset data] by (auto simp: ReadCString_eq split: if_splits)
qed

lemma RewriteSubmitSMSource_no_panic [no_panic]: "RewriteSubmitSMSource body addr ton npi \<noteq> None"
  unfolding RewriteSubmitSMSource_def readCString_def Let_def
  by (intro no_panic) (auto simp: slice_from_def dest: ReadCString_offset)

text \<open>The addresses of a body, up to the end of the destination address.\<close>

definition sm_tail :: "sm_fields \<Rightarrow> bytes" where
  "sm_tail f = esm_class f # protocol_id f # priority_flag f # schedule_delivery_time f @
     0 # validity_period f @
     0 # registered_delivery f # replace_if_present_flag f # data_coding f # sm_default_msg_id f #
     of_nat (length (short_message f)) # short_message f"

lemma encode_sm_tail:
  "encode_sm f = service_type f @ 0 # source_addr_ton f # source_addr_npi f # source_addr f @
     0 # dest_addr_ton f # dest_addr_npi f # destination_addr f @ 0 # sm_tail f"
  by (simp add: encode_sm_def sm_tail_def)

lemma ParseSubmitSMAddresses_encode_sm:
  assumes "no_nul (service_type f)" "no_nul (source_addr f)" "no_nul (destination_addr f)"
  shows "ParseSubmitSMAddresses (encode_sm f @ rest) = Some (source_addr f, destination_addr f)"
proof -
  let ?d = "encode_sm f @ rest"
  have r0: "rest_at ?d 0 (service_type f @ 0 # source_addr_ton f # source_addr_npi f # source_addr f @
     0 # dest_addr_ton f # dest_addr_npi f # destination_addr f @ 0 # sm_tail f @ rest)"
    by (simp add: rest_at_def encode_sm_tail)
  note c1 = rest_at_cstring [OF r0 assms(1)]
  note b1 = rest_at_byte [OF c1(2)]
  note b2 = rest_at_byte [OF b1(3)]
  note c2 = rest_at_cstring [OF b2(3) assms(2)]
  note b3 = rest_at_byte [OF c2(2)]
  note b4 = rest_at_byte [OF b3(3)]
  note c3 = rest_at_cstring [OF b4(3) assms(3)]
  have ne: "length ?d \<noteq> 0" by (simp add: encode_sm_def)
  show ?thesis
    unfolding ParseSubmitSMAddresses_def Let_def
    by (simp only: ne c1(1) c2(1) c3(1) b1(1) b2(1) b3(1) b4(1) if_False Option.bind.simps prod.case)
qed

lemma RewriteSubmitSMSource_encode_sm:
  assumes "no_nul (service_type f)" "no_nul (source_addr f)"
  shows "RewriteSubmitSMSource (encode_sm f @ rest) addr ton npi =
    Some (encode_sm (f\<lparr>source_addr := addr, source_addr_ton := ton, source_addr_npi := npi\<rparr>) @ rest)"
proof -
  let ?d = "encode_sm f @ rest"
  let ?T = "dest_addr_ton f # dest_addr_npi f # destination_addr f @ 0 # sm_tail f @ rest"
  have r0: "rest_at ?d 0 (service_type f @ 0 # source_addr_ton f # source_addr_npi f # source_addr f @ 0 # ?T)"
    by (simp add: rest_at_def encode_sm_tail)
  note c1 = rest_at_cstring [OF r0 assms(1)]
  note b1 = rest_at_byte [OF c1(2)]
  note b2 = rest_at_byte [OF b1(3)]
  have b2': "rest_at ?d (0 + length (service_type f) + 1 + 2) (source_addr f @ 0 # ?T)"
    using b2(3) by (simp add: numeral_2_eq_2)
  note c2 = rest_at_cstring [OF b2' assms(2)]
  have n: "length ?d = length (service_type f) + 1 + 2 + length (source_addr f) + 1 + length ?T"
    using rest_at_length [OF c2(2)] by simp
  have s1: "slice ?d 0 (0 + length (service_type f) + 1) = Some (service_type f @ [0])"
    by (simp add: slice_def encode_sm_def)
  have s2: "slice_from ?d (0 + length (service_type f) + 1 + 2 + length (source_addr f) + 1) = Some ?T"
    using c2(2) by (simp add: slice_from_def rest_at_def)
  have g: "\<not> length ?d < 0 + length (service_type f) + 1 + 2"
    "\<not> length ?d < 0 + length (service_type f) + 1 + 2 + length (source_addr f) + 1" using n by simp_all
  have ne: "length ?d \<noteq> 0" by (simp add: encode_sm_def)
  have tail: "sm_tail (f\<lparr>source_addr := addr, source_addr_ton := ton, source_addr_npi := npi\<rparr>) = sm_tail f"
    by (simp add: sm_tail_def)
  have "RewriteSubmitSMSource ?d addr ton npi = Some ((service_type f @ [0]) @ [ton, npi] @ addr @ [0] @ ?T)"
    unfolding RewriteSubmitSMSource_def Let_def
    by (simp only: ne c1(1) c2(1) b1(1) g if_False Option.bind.simps prod.case s1 s2)
  then show ?thesis by (simp add: encode_sm_tail tail)
qed

lemma ParseBindTransceiver_EncodeBind:
  assumes "no_nul systemID" "no_nul password"
  shows "ParseBindTransceiver (EncodeBind m systemID password systemType v) = Some (systemID, password)"
proof -
  let ?d = "EncodeBind m systemID password systemType v"
  have r0: "rest_at ?d 0 (systemID @ 0 # password @ 0 # systemType @ [0, v, 0, 0, 0])"
    by (simp add: rest_at_def EncodeBind_def writeCString_def Let_def)
  note c1 = rest_at_cstring [OF r0 assms(1)]
  note c2 = rest_at_cstring [OF c1(2) assms(2)]
  show ?thesis
    unfolding ParseBindTransceiver_def by (simp only: c1(1) c2(1) Option.bind.simps prod.case)
qed

section \<open>Properties\<close>

text \<open>
  C39. Rewriting the source address is exact: on the body of any submit_sm whose service type and source
  address are C-strings, with whatever TLVs behind it, the result is the same message with only the
  source address, its type of number and its numbering plan replaced. On no input at all does the
  rewriter or the address reader panic.
\<close>

theorem rewrite_source_exact:
  "(no_nul (service_type f) \<and> no_nul (source_addr f) \<longrightarrow>
     RewriteSubmitSMSource (encode_sm f @ tlvs) addr ton npi =
       Some (encode_sm (f\<lparr>source_addr := addr, source_addr_ton := ton, source_addr_npi := npi\<rparr>) @ tlvs)) \<and>
   RewriteSubmitSMSource body addr ton npi \<noteq> None \<and> ParseSubmitSMAddresses body \<noteq> None"
  using RewriteSubmitSMSource_encode_sm RewriteSubmitSMSource_no_panic ParseSubmitSMAddresses_no_panic by blast

definition example_sm :: sm_fields where
  "example_sm = \<lparr>service_type = [], source_addr_ton = 1, source_addr_npi = 1, source_addr = lit ''27'', dest_addr_ton = 1,
     dest_addr_npi = 1, destination_addr = lit ''31'', esm_class = 0, protocol_id = 0, priority_flag = 0,
     schedule_delivery_time = [], validity_period = [], registered_delivery = 1, replace_if_present_flag = 0,
     data_coding = 0, sm_default_msg_id = 0, short_message = lit ''hi''\<rparr>"

theorem rewrite_source_exact_witness:
  "RewriteSubmitSMSource (encode_sm example_sm) (lit ''9'') 5 0 =
     Some (encode_sm (example_sm\<lparr>source_addr := lit ''9'', source_addr_ton := 5, source_addr_npi := 0\<rparr>))"
  using rewrite_source_exact [of example_sm "[]" "lit ''9''" 5 0 "[]"] by (simp add: example_sm_def lit_def)



text \<open>
  Bind requests: the server reads back the system id and the password a client encodes, and both sides
  agree on the command ids: the mode the server derives from the command id is the client's, and the
  response id it answers with is the one the client expects.
\<close>

theorem bind_roundtrip:
  assumes "no_nul systemID" and "no_nul password"
  shows "ParseBindTransceiver (EncodeBind m systemID password systemType v) = Some (systemID, password) \<and>
    bindModeFromCommandID (bindCommandID m) = m \<and> bindRespCommandID (bindCommandID m) = bindRespCommandID_mode m"
  using ParseBindTransceiver_EncodeBind [OF assms]
  by (cases m) (simp_all add: bindModeFromCommandID_def bindRespCommandID_def)

theorem bind_roundtrip_witness:
  "ParseBindTransceiver (EncodeBind BindReceiver (lit ''acme'') (lit ''pw'') [] 0x34) = Some (lit ''acme'', lit ''pw'') \<and>
   bindModeFromCommandID (bindCommandID BindReceiver) = BindReceiver"
  using bind_roundtrip [where systemID = "lit ''acme''" and password = "lit ''pw''" and m = BindReceiver and systemType = "[]" and v = "0x34"] by (simp add: lit_def)

end
