(* ===== verification/Connection.thy ===== *)
theory Connection
  imports Conn_Config Sm_Body
begin

text \<open>
  A northbound SMPP session, \<^verbatim>\<open>gateway/connection.go\<close>: the connection object, the framing of the
  read loop, the bind decision, and the counters of the session.

  A \<^verbatim>\<open>net.Conn\<close> is what the session sees of it: the peer address, the byte strings of the successful
  \<^verbatim>\<open>Write\<close> calls in order, and whether a write still succeeds (it does until the connection is closed
  from either side). Mutexes and atomics are not state: each operation below is one atomic step, and
  operations of different goroutines interleave as sequences of such steps. Loggers have no effect.
\<close>

section \<open>The connection object\<close>

record net_Conn =
  nc_up :: bool
  nc_written :: "bytes list"
  nc_RemoteAddr :: gostring

definition conn_Write :: "net_Conn \<Rightarrow> bytes \<Rightarrow> net_Conn \<times> bool" where
  "conn_Write n data =
     (if nc_up n then (n\<lparr>nc_written := nc_written n @ [data]\<rparr>, True) else (n, False))"

text \<open>
  \<open>c_pendingDelivers\<close> maps a sequence number to the channel its waiter reads, an index into
  \<open>c_chans\<close>; a channel has one slot. The time of the last activity is kept in Unix nanoseconds,
  which is what a \<open>Time\<close> is; \<open>c_tpsWindow\<close> is in Unix seconds.
\<close>

record Connection =
  c_ID :: gostring
  c_SystemID :: gostring
  c_BindMode :: BindMode
  c_conn :: net_Conn
  c_bound :: bool
  c_seqNum :: uint32
  c_createdAt :: Time
  c_pendingDelivers :: "(uint32, nat) fmap"
  c_chans :: "uint32 option list"
  c_lastActivity :: Time
  c_submitCount :: uint64
  c_tpsWindow :: int
  c_tpsCount :: uint64
  c_inFlight :: "32 word"
  c_connConfig :: "ConnectionConfig option"

definition NewConnection :: "Time \<Rightarrow> gostring \<Rightarrow> net_Conn \<Rightarrow> Connection" where
  "NewConnection now i conn =
     \<lparr>c_ID = i, c_SystemID = [], c_BindMode = BindTransceiver, c_conn = conn, c_bound = False, c_seqNum = 0,
      c_createdAt = now, c_pendingDelivers = fmempty, c_chans = [], c_lastActivity = now, c_submitCount = 0,
      c_tpsWindow = 0, c_tpsCount = 0, c_inFlight = 0, c_connConfig = None\<rparr>"

section \<open>Writing\<close>

text \<open>The result tells whether the error is nil.\<close>

definition WritePDU :: "Connection \<Rightarrow> PDU \<Rightarrow> (Connection \<times> bool) go" where
  "WritePDU c pdu = do {
     (_, data) \<leftarrow> EncodePDU pdu;
     let (conn, ok) = conn_Write (c_conn c) data;
     Some (c\<lparr>c_conn := conn\<rparr>, ok)
   }"

definition sendResponse :: "Connection \<Rightarrow> uint32 \<Rightarrow> uint32 \<Rightarrow> uint32 \<Rightarrow> bytes \<Rightarrow> (Connection \<times> bool) go" where
  "sendResponse c cmdID status seqNum body =
     WritePDU c \<lparr>CommandLength = 0, CommandID = cmdID, CommandStatus = status, SequenceNumber = seqNum,
       Body = body, TLVs = None\<rparr>"

definition SendSubmitSMResp :: "Connection \<Rightarrow> uint32 \<Rightarrow> uint32 \<Rightarrow> gostring \<Rightarrow> (Connection \<times> bool) go" where
  "SendSubmitSMResp c seqNum status messageID = do {
     body \<leftarrow> WriteCStringBytes messageID;
     sendResponse c CmdSubmitSMResp status seqNum body
   }"

definition SendDeliverSM :: "Connection \<Rightarrow> bytes \<Rightarrow> (Connection \<times> uint32 option) go" where
  "SendDeliverSM c body = do {
     let seq = c_seqNum c + 1;
     let c = c\<lparr>c_seqNum := seq\<rparr>;
     (c, ok) \<leftarrow> WritePDU c \<lparr>CommandLength = 0, CommandID = CmdDeliverSM, CommandStatus = StatusOK,
       SequenceNumber = seq, Body = body, TLVs = None\<rparr>;
     Some (c, if ok then Some seq else None)
   }"

definition conn_Close :: "Connection \<Rightarrow> Connection" where
  "conn_Close c = c\<lparr>c_conn := (c_conn c)\<lparr>nc_up := False\<rparr>\<rparr>"

section \<open>Waiting for deliver\_sm\_resp\<close>

definition RegisterDeliverWait :: "Connection \<Rightarrow> uint32 \<Rightarrow> Connection \<times> nat" where
  "RegisterDeliverWait c seqNum =
     (let ch = length (c_chans c) in
      (c\<lparr>c_chans := c_chans c @ [None], c_pendingDelivers := fmupd seqNum ch (c_pendingDelivers c)\<rparr>, ch))"

definition ResolveDeliverResp :: "Connection \<Rightarrow> uint32 \<Rightarrow> uint32 \<Rightarrow> Connection" where
  "ResolveDeliverResp c seqNum status =
     (case fmlookup (c_pendingDelivers c) seqNum of
        None \<Rightarrow> c
      | Some ch \<Rightarrow> c\<lparr>c_pendingDelivers := fmdrop seqNum (c_pendingDelivers c),
                      c_chans := (c_chans c)[ch := Some status]\<rparr>)"

section \<open>Counters\<close>

definition Unix :: "Time \<Rightarrow> int" where
  "Unix t = t div second"

definition RecordSubmit :: "Time \<Rightarrow> Connection \<Rightarrow> Connection" where
  "RecordSubmit now c =
     (let c = c\<lparr>c_submitCount := c_submitCount c + 1\<rparr> in
      if Unix now \<noteq> c_tpsWindow c then c\<lparr>c_tpsWindow := Unix now, c_tpsCount := 1\<rparr>
      else c\<lparr>c_tpsCount := c_tpsCount c + 1\<rparr>)"

definition CurrentTPS :: "Time \<Rightarrow> Connection \<Rightarrow> uint64" where
  "CurrentTPS now c = (if c_tpsWindow c = Unix now then c_tpsCount c else 0)"

definition conn_TotalSubmits :: "Connection \<Rightarrow> uint64" where "conn_TotalSubmits c = c_submitCount c"

definition InFlightAdd :: "Connection \<Rightarrow> 32 word \<Rightarrow> Connection" where
  "InFlightAdd c delta = c\<lparr>c_inFlight := c_inFlight c + delta\<rparr>"

definition InFlightCount :: "Connection \<Rightarrow> 32 word" where "InFlightCount c = c_inFlight c"
definition IsBound :: "Connection \<Rightarrow> bool" where "IsBound c = c_bound c"
definition LastActivity :: "Connection \<Rightarrow> Time" where "LastActivity c = c_lastActivity c"
definition ConnConfig :: "Connection \<Rightarrow> ConnectionConfig option" where "ConnConfig c = c_connConfig c"

section \<open>Bind\<close>

text \<open>A nil \<^verbatim>\<open>ConnConfigStore\<close> is \<open>None\<close>; otherwise the field holds its \<^verbatim>\<open>Authenticate\<close>.\<close>

record BindConfig =
  bc_Password :: gostring
  bc_AllowedEngines :: "gostring list"
  bc_ServerSystemID :: gostring
  bc_SMPPVersion :: gostring
  bc_ConnConfigStore :: "(gostring \<Rightarrow> bytes \<Rightarrow> conn_error + ConnectionConfig option) option"

text \<open>
  The checks of \<^verbatim>\<open>handleBind\<close> in order. The result is the status of the refusal, or the
  configuration to attach (none on the path without a store, which keeps the one attached).
\<close>

definition bind_check :: "BindConfig \<Rightarrow> Connection \<Rightarrow> gostring \<Rightarrow> bytes \<Rightarrow> uint32 + ConnectionConfig option" where
  "bind_check cfg c systemID password =
     (case bc_ConnConfigStore cfg of
        Some auth \<Rightarrow>
          (case auth systemID password of
             Inr (Some connCfg) \<Rightarrow>
               if cc_AllowedIPs connCfg \<noteq> [] \<and>
                  extractIP (nc_RemoteAddr (c_conn c)) \<notin> set (cc_AllowedIPs connCfg) then Inl StatusInvBnd
               else if cc_AllowedBindModes connCfg \<noteq> [] \<and>
                  bindModeName (c_BindMode c) \<notin> set (cc_AllowedBindModes connCfg) then Inl StatusInvBnd
               else Inr (Some connCfg)
           | Inl _ \<Rightarrow> Inl StatusInvPaswd
           | Inr None \<Rightarrow> Inl StatusInvBnd)
      | None \<Rightarrow>
          if bc_Password cfg \<noteq> [] \<and> password \<noteq> bc_Password cfg then Inl StatusInvBnd
          else if bc_AllowedEngines cfg \<noteq> [] \<and> systemID \<notin> set (bc_AllowedEngines cfg) then Inl StatusInvBnd
          else Inr None)"

definition bind_resp_body :: "BindConfig \<Rightarrow> bytes go" where
  "bind_resp_body cfg = do {
     let serverID = (if bc_ServerSystemID cfg = [] then lit ''SMSCGW'' else bc_ServerSystemID cfg);
     respBody \<leftarrow> WriteCStringBytes serverID;
     if bc_SMPPVersion cfg = lit ''5.0'' then do {
       tlvs \<leftarrow> Encode (SetUint8 fmempty TagSCInterfaceVersion 0x50);
       Some (respBody @ tlvs)
     } else Some respBody
   }"

definition handleBind :: "Connection \<Rightarrow> PDU \<Rightarrow> BindConfig \<Rightarrow> (Connection \<times> bool) go" where
  "handleBind c pdu cfg = do {
     (systemID, offset) \<leftarrow> readCString (Body pdu) 0;
     (password, _) \<leftarrow> readCString (Body pdu) offset;
     let respCmdID = bindRespCommandID (CommandID pdu);
     let c = c\<lparr>c_SystemID := systemID, c_BindMode := bindModeFromCommandID (CommandID pdu)\<rparr>;
     case bind_check cfg c systemID password of
       Inl status \<Rightarrow> do {
         (c, _) \<leftarrow> sendResponse c respCmdID status (SequenceNumber pdu) [0];
         Some (c, False)
       }
     | Inr connCfg \<Rightarrow> do {
         let c = (case connCfg of None \<Rightarrow> c | Some _ \<Rightarrow> c\<lparr>c_connConfig := connCfg\<rparr>);
         respBody \<leftarrow> bind_resp_body cfg;
         (c, _) \<leftarrow> sendResponse c respCmdID StatusOK (SequenceNumber pdu) respBody;
         Some (c\<lparr>c_bound := True\<rparr>, True)
       }
   }"

section \<open>The read loop\<close>

text \<open>
  The loop runs in a world \<open>'w\<close> that holds the connection object it was called on, and calls back
  into the server: \<open>h_conn\<close> and \<open>h_put\<close> read and write the object, the other fields are the
  parameters of \<^verbatim>\<open>ReadLoop\<close>. The bind configuration holds a pointer to the store, so it is read in
  the current world.
\<close>

record 'w handlers =
  h_conn :: "'w \<Rightarrow> Connection"
  h_put :: "Connection \<Rightarrow> 'w \<Rightarrow> 'w"
  h_bindCfg :: "'w \<Rightarrow> BindConfig"
  h_onSubmit :: "gostring \<Rightarrow> uint32 \<Rightarrow> bytes \<Rightarrow> 'w \<Rightarrow> 'w go"
  h_onDeliverResp :: "gostring \<Rightarrow> uint32 \<Rightarrow> uint32 \<Rightarrow> 'w \<Rightarrow> 'w go"
  h_onBind :: "(gostring \<Rightarrow> 'w \<Rightarrow> 'w go) option"

definition respond :: "'w handlers \<Rightarrow> uint32 \<Rightarrow> uint32 \<Rightarrow> uint32 \<Rightarrow> bytes \<Rightarrow> 'w \<Rightarrow> 'w go" where
  "respond h cmdID status seqNum body w = do {
     (c, _) \<leftarrow> sendResponse (h_conn h w) cmdID status seqNum body;
     Some (h_put h c w)
   }"

text \<open>One turn of the loop after a PDU was decoded; the flag says that the loop returns.\<close>

definition dispatch :: "'w handlers \<Rightarrow> Time \<Rightarrow> PDU \<Rightarrow> 'w \<Rightarrow> ('w \<times> bool) go" where
  "dispatch h now pdu w = do {
     let w = h_put h ((h_conn h w)\<lparr>c_lastActivity := now\<rparr>) w;
     if CommandID pdu \<in> {CmdBindTransceiver, CmdBindTransmitter, CmdBindReceiver} then do {
       (c, ok) \<leftarrow> handleBind (h_conn h w) pdu (h_bindCfg h w);
       let w = h_put h c w;
       w \<leftarrow> (case h_onBind h of
              Some onBind \<Rightarrow> if ok then onBind (c_SystemID c) w else Some w
            | None \<Rightarrow> Some w);
       Some (w, False)
     } else if CommandID pdu = CmdSubmitSM then do {
       w \<leftarrow> (if \<not> c_bound (h_conn h w)
             then respond h CmdSubmitSMResp StatusInvBnd (SequenceNumber pdu) [0] w
             else h_onSubmit h (c_ID (h_conn h w)) (SequenceNumber pdu) (Body pdu) w);
       Some (w, False)
     } else if CommandID pdu = CmdEnquireLink then do {
       w \<leftarrow> respond h CmdEnquireLinkResp StatusOK (SequenceNumber pdu) [] w;
       Some (w, False)
     } else if CommandID pdu = CmdDeliverSMResp then do {
       w \<leftarrow> h_onDeliverResp h (c_ID (h_conn h w)) (SequenceNumber pdu) (CommandStatus pdu) w;
       Some (w, False)
     } else if CommandID pdu = CmdUnbind then do {
       w \<leftarrow> respond h CmdUnbindResp StatusOK (SequenceNumber pdu) [] w;
       Some (w, True)
     } else do {
       w \<leftarrow> respond h CmdGenericNack StatusInvCmdID (SequenceNumber pdu) [] w;
       Some (w, False)
     }
   }"

text \<open>
  \<open>stream\<close> is what the peer sends before it closes, \<open>stop i\<close> and \<open>clock i\<close> are the state of the done
  channel and the time at turn \<open>i\<close>. \<^verbatim>\<open>io.ReadFull\<close> fails when fewer bytes are left than it wants.
\<close>

function ReadLoop :: "'w handlers \<Rightarrow> (nat \<Rightarrow> bool) \<Rightarrow> (nat \<Rightarrow> Time) \<Rightarrow> nat \<Rightarrow> bytes \<Rightarrow> 'w \<Rightarrow> 'w go" where
  "ReadLoop h stop clock i stream w =
     (if stop i \<or> length stream < 16 then Some w
      else do {
        let headerBuf = take 16 stream;
        cmdLen \<leftarrow> slice headerBuf 0 4 \<bind> Uint32;
        if cmdLen < 16 \<or> length stream < unat cmdLen then Some w
        else do {
          decoded \<leftarrow> DecodePDU (take (unat cmdLen) stream);
          case decoded of
            Inl _ \<Rightarrow> Some w
          | Inr pdu \<Rightarrow> do {
              (w, return) \<leftarrow> dispatch h (clock i) pdu w;
              if return then Some w else ReadLoop h stop clock (Suc i) (drop (unat cmdLen) stream) w
            }
        }
      })"
  by pat_completeness auto
termination
  by (relation "measure (\<lambda>(h, stop, clock, i, stream, w). length stream)")
    (auto simp: word_less_nat_alt)

declare ReadLoop.simps [simp del]

section \<open>What is written\<close>

definition pdu_wire :: "PDU \<Rightarrow> bytes" where
  "pdu_wire pdu = pdu_header (of_nat (pdu_size pdu)) pdu @ Body pdu @ pdu_tlv_bytes pdu"

definition plain_pdu :: "uint32 \<Rightarrow> uint32 \<Rightarrow> uint32 \<Rightarrow> bytes \<Rightarrow> PDU" where
  "plain_pdu cmdID status seqNum body = \<lparr>CommandLength = of_nat (16 + length body), CommandID = cmdID,
     CommandStatus = status, SequenceNumber = seqNum, Body = body, TLVs = None\<rparr>"

text \<open>The connection after a write: the bytes go out exactly when the connection is up.\<close>

definition wrote :: "bytes \<Rightarrow> Connection \<Rightarrow> Connection" where
  "wrote data c = c\<lparr>c_conn := fst (conn_Write (c_conn c) data)\<rparr>"

abbreviation conn_up :: "Connection \<Rightarrow> bool" where "conn_up c \<equiv> nc_up (c_conn c)"
abbreviation written :: "Connection \<Rightarrow> bytes list" where "written c \<equiv> nc_written (c_conn c)"

named_theorems conn_simps \<open>effects of the connection operations\<close>

lemma wrote_fields [simp]:
  "c_ID (wrote d c) = c_ID c" "c_SystemID (wrote d c) = c_SystemID c" "c_bound (wrote d c) = c_bound c"
  "c_seqNum (wrote d c) = c_seqNum c" "c_connConfig (wrote d c) = c_connConfig c"
  "c_tpsWindow (wrote d c) = c_tpsWindow c" "c_tpsCount (wrote d c) = c_tpsCount c"
  "c_inFlight (wrote d c) = c_inFlight c" "c_BindMode (wrote d c) = c_BindMode c"
  "c_pendingDelivers (wrote d c) = c_pendingDelivers c" "c_chans (wrote d c) = c_chans c"
  "c_submitCount (wrote d c) = c_submitCount c" "c_lastActivity (wrote d c) = c_lastActivity c"
  "nc_up (c_conn (wrote d c)) = nc_up (c_conn c)" "nc_RemoteAddr (c_conn (wrote d c)) = nc_RemoteAddr (c_conn c)"
  by (simp_all add: wrote_def conn_Write_def)

lemma written_wrote: "written (wrote d c) = (if conn_up c then written c @ [d] else written c)"
  by (simp add: wrote_def conn_Write_def)

lemma WritePDU_eq:
  "pdu_size pdu < 2 ^ 32 \<Longrightarrow> WritePDU c pdu = Some (wrote (pdu_wire pdu) c, conn_up c)"
  by (simp add: WritePDU_def EncodePDU_eq pdu_wire_def wrote_def conn_Write_def)

lemma pdu_size_plain [simp]: "pdu_size (plain_pdu cmd st sq body) = 16 + length body"
  by (simp add: pdu_size_def plain_pdu_def pdu_tlv_bytes_def)

lemma wire_CommandLength [simp]: "pdu_wire (pdu\<lparr>CommandLength := n\<rparr>) = pdu_wire pdu"
  by (simp add: pdu_wire_def pdu_size_def pdu_tlv_bytes_def pdu_header_def)

lemma plain_pdu_length: "\<lparr>CommandLength = n, CommandID = cmd, CommandStatus = st, SequenceNumber = sq,
    Body = body, TLVs = None\<rparr> = (plain_pdu cmd st sq body)\<lparr>CommandLength := n\<rparr>"
  by (simp add: plain_pdu_def)

lemma pdu_size_length [simp]: "pdu_size (pdu\<lparr>CommandLength := n\<rparr>) = pdu_size pdu"
  by (simp add: pdu_size_def pdu_tlv_bytes_def)

lemma sendResponse_eq [conn_simps]:
  "16 + length body < 2 ^ 32 \<Longrightarrow>
   sendResponse c cmd st sq body = Some (wrote (pdu_wire (plain_pdu cmd st sq body)) c, conn_up c)"
  unfolding sendResponse_def plain_pdu_length by (subst WritePDU_eq) simp_all

lemma SendSubmitSMResp_eq [conn_simps]:
  "17 + length mid < 2 ^ 32 \<Longrightarrow> SendSubmitSMResp c sq st mid =
     Some (wrote (pdu_wire (plain_pdu CmdSubmitSMResp st sq (mid @ [0]))) c, conn_up c)"
  unfolding SendSubmitSMResp_def by (simp add: sendResponse_eq)

text \<open>The peer decodes what was written.\<close>

lemma DecodePDU_wire:
  assumes "pdu_size pdu + length rest < 2 ^ 32" "TLVs pdu = None" "CommandLength pdu = of_nat (pdu_size pdu)"
  shows "DecodePDU (pdu_wire pdu @ rest) = Some (Inr pdu)"
proof -
  have tb: "pdu_tlv_bytes pdu = []" by (simp add: pdu_tlv_bytes_def assms(2))
  then have sz: "pdu_size pdu = 16 + length (Body pdu)" by (simp add: pdu_size_def)
  have w: "pdu_wire pdu = pdu_header (of_nat (16 + length (Body pdu))) pdu @ Body pdu"
    unfolding pdu_wire_def tb sz by simp
  have p: "pdu\<lparr>CommandLength := of_nat (16 + length (Body pdu)), Body := Body pdu, TLVs := None\<rparr> = pdu"
    using assms(2,3) unfolding sz by (cases pdu) simp
  show ?thesis
    unfolding w append_assoc using DecodePDU_header [of "Body pdu" rest pdu] assms(1) p by (simp add: sz)
qed

lemma DecodePDU_plain:
  "16 + length body < 2 ^ 32 \<Longrightarrow>
   DecodePDU (pdu_wire (plain_pdu cmd st sq body)) = Some (Inr (plain_pdu cmd st sq body))"
  using DecodePDU_wire [of "plain_pdu cmd st sq body" "[]"] by (simp add: plain_pdu_def pdu_size_def pdu_tlv_bytes_def)

section \<open>Framing\<close>

definition is_frame :: "PDU \<Rightarrow> bool" where
  "is_frame pdu \<longleftrightarrow> pdu_size pdu < 2 ^ 32 \<and> TLVs pdu = None \<and> CommandLength pdu = of_nat (pdu_size pdu)"

text \<open>The loop over PDUs instead of bytes.\<close>

fun serve :: "'w handlers \<Rightarrow> (nat \<Rightarrow> bool) \<Rightarrow> (nat \<Rightarrow> Time) \<Rightarrow> nat \<Rightarrow> PDU list \<Rightarrow> 'w \<Rightarrow> 'w go" where
  "serve h stop clock i [] w = Some w"
| "serve h stop clock i (pdu # pdus) w =
     (if stop i then Some w
      else do {
        (w, return) \<leftarrow> dispatch h (clock i) pdu w;
        if return then Some w else serve h stop clock (Suc i) pdus w
      })"

lemma frame_wire:
  assumes "is_frame pdu"
  shows "length (pdu_wire pdu) = unat (CommandLength pdu)" "16 \<le> unat (CommandLength pdu)"
    "take 4 (pdu_wire pdu @ r) = be32 (CommandLength pdu)"
proof -
  have tb: "pdu_tlv_bytes pdu = []" using assms by (simp add: pdu_tlv_bytes_def is_frame_def)
  have u: "unat (CommandLength pdu) = pdu_size pdu" using assms unfolding is_frame_def by (metis unat_of_nat32)
  have sz: "pdu_size pdu = 16 + length (Body pdu)" by (simp add: pdu_size_def tb)
  show "length (pdu_wire pdu) = unat (CommandLength pdu)" "16 \<le> unat (CommandLength pdu)"
    using u sz by (simp_all add: pdu_wire_def tb)
  show "take 4 (pdu_wire pdu @ r) = be32 (CommandLength pdu)"
    using assms by (simp add: pdu_wire_def pdu_header_def is_frame_def)
qed

lemma frame_at_head:
  assumes "16 \<le> unat n" "unat n \<le> length stream" "Uint32 (take 4 stream) = Some n"
  obtains pdu where "is_frame pdu" "DecodePDU (take (unat n) stream) = Some (Inr pdu)" "CommandLength pdu = n"
    "stream = pdu_wire pdu @ drop (unat n) stream"
proof -
  let ?d = "take (unat n) stream"
  have len: "length ?d = unat n" using assms(2) by simp
  then have l16: "16 \<le> length ?d" using assms(1) by simp
  obtain m cid st sq where d:
    "take 16 ?d = be32 m @ be32 cid @ be32 st @ be32 sq"
    "of_nat (length ?d) < m \<or> unat m \<le> length ?d"
    "DecodePDU ?d = (if of_nat (length ?d) < m then Some (Inl (DataTooShort (length ?d) m))
        else Some (Inr \<lparr>CommandLength = m, CommandID = cid, CommandStatus = st, SequenceNumber = sq,
          Body = take (unat m - 16) (drop 16 ?d), TLVs = None\<rparr>))"
    by (rule DecodePDU_fields [OF l16])
  have "take 4 stream = take 4 (take 16 ?d)" using assms(1) by (simp add: min_def)
  then have "take 4 stream = be32 m" unfolding d(1) by simp
  then have mn: "m = n" using assms(3) by simp
  obtain pdu where p: "DecodePDU ?d = Some (Inr pdu)" "CommandLength pdu = n"
    using d(3) unfolding mn len by simp
  have n16: "16 \<le> CommandLength pdu" using assms(1) p(2) by (simp add: word_le_nat_alt)
  note snd = DecodePDU_sound [OF p(1) n16]
  have tb: "pdu_tlv_bytes pdu = []" by (simp add: pdu_tlv_bytes_def snd(4))
  have size: "pdu_size pdu = unat n" using snd(2) by (simp add: pdu_size_def tb p(2))
  have "pdu_size pdu < 2 ^ 32" using unsigned_less [where ?'a = nat, of n] by (simp add: size)
  then have fr: "is_frame pdu" by (simp add: is_frame_def snd(4) p(2) size)
  have "pdu_wire pdu = ?d" using snd(1) by (simp add: pdu_wire_def tb size p(2))
  then show thesis using that [OF fr p] by simp
qed

lemma ReadLoop_frame:
  assumes "is_frame pdu" "\<not> stop i"
  shows "ReadLoop h stop clock i (pdu_wire pdu @ rest) w = do {
     (w, return) \<leftarrow> dispatch h (clock i) pdu w;
     if return then Some w else ReadLoop h stop clock (Suc i) rest w
   }"
proof -
  let ?n = "CommandLength pdu"
  note fw = frame_wire [OF assms(1)]
  have hd: "slice (take 16 (pdu_wire pdu)) 0 4 = Some (be32 ?n)"
    using fw(3) [of "[]"] fw(1,2) by (simp add: slice_def min_def)
  have dec: "DecodePDU (pdu_wire pdu) = Some (Inr pdu)"
    using DecodePDU_wire [of pdu "[]"] assms(1) by (simp add: is_frame_def)
  have dr: "drop (unat ?n) (pdu_wire pdu @ rest) = rest" using fw(1) by simp
  have "\<not> ?n < 16" using fw(2) by (simp add: word_less_nat_alt)
  then show ?thesis
    using fw(1,2) assms(2) by (subst ReadLoop.simps) (simp add: hd dec dr cong: if_cong)
qed

lemma unat_16: "unat (16 :: uint32) = 16"
  by simp

lemma ReadLoop_stuck:
  assumes "\<nexists>pdu rest. is_frame pdu \<and> stream = pdu_wire pdu @ rest"
  shows "ReadLoop h stop clock i stream w = Some w"
proof (cases "stop i \<or> length stream < 16")
  case False
  then obtain n where n: "Uint32 (take 4 stream) = Some n" using Uint32_total [of "take 4 stream"] by auto
  then have hd: "slice (take 16 stream) 0 4 = Some (take 4 stream)" using False by (simp add: slice_def min_def)
  have "n < 16 \<or> length stream < unat n"
    using frame_at_head [of n stream] n assms by (metis not_less word_less_nat_alt unat_16)
  then show ?thesis using False by (subst ReadLoop.simps) (simp add: hd n)
qed (subst ReadLoop.simps, simp)

lemma ReadLoop_serve:
  "\<forall>pdu \<in> set pdus. is_frame pdu \<Longrightarrow> \<nexists>pdu rest'. is_frame pdu \<and> rest = pdu_wire pdu @ rest' \<Longrightarrow>
   ReadLoop h stop clock i (concat (map pdu_wire pdus) @ rest) w = serve h stop clock i pdus w"
proof (induction pdus arbitrary: i w)
  case (Cons pdu pdus)
  show ?case
  proof (cases "stop i")
    case True
    then show ?thesis by (subst ReadLoop.simps) simp
  next
    case False
    have "is_frame pdu" using Cons.prems(1) by simp
    then show ?thesis
      using ReadLoop_frame [of pdu stop i h clock "concat (map pdu_wire pdus) @ rest" w]
        Cons.IH [OF _ Cons.prems(2)] Cons.prems(1) False
      by (simp cong: if_cong)
  qed
qed (simp add: ReadLoop_stuck)

lemma stream_frames:
  "\<exists>pdus rest. stream = concat (map pdu_wire pdus) @ rest \<and> (\<forall>pdu \<in> set pdus. is_frame pdu) \<and>
     (\<nexists>pdu rest'. is_frame pdu \<and> rest = pdu_wire pdu @ rest')"
proof (induction "length stream" arbitrary: stream rule: less_induct)
  case less
  show ?case
  proof (cases "\<exists>pdu rest. is_frame pdu \<and> stream = pdu_wire pdu @ rest")
    case True
    then obtain pdu rest where f: "is_frame pdu" "stream = pdu_wire pdu @ rest" by blast
    then have "length rest < length stream" using frame_wire(1,2) [OF f(1)] by simp
    then obtain pdus r where "rest = concat (map pdu_wire pdus) @ r" "\<forall>pdu \<in> set pdus. is_frame pdu"
      "\<nexists>pdu rest'. is_frame pdu \<and> r = pdu_wire pdu @ rest'"
      using less by blast
    then show ?thesis using f by (intro exI [of _ "pdu # pdus"] exI [of _ r]) simp
  next
    case False
    then show ?thesis by (intro exI [of _ "[]"] exI [of _ stream]) simp
  qed
qed

section \<open>The bind decision\<close>

abbreviation server_id_fits :: "BindConfig \<Rightarrow> bool" where
  "server_id_fits cfg \<equiv> length (bc_ServerSystemID cfg) < 2 ^ 31"

lemma bind_resp_body_fits:
  assumes "server_id_fits cfg"
  obtains b where "bind_resp_body cfg = Some b" "16 + length b < 2 ^ 32"
proof -
  let ?t = "tlv_wire (tlv_pairs (SetUint8 fmempty TagSCInterfaceVersion 0x50))"
  have t: "length ?t = 5"
    by (simp add: SetUint8_def tlv_pairs_def tlv_wire_def enc_tlv_def tlv_value_def sorted_list_of_fset.rep_eq)
  obtain b where "bind_resp_body cfg = Some b" "length b \<le> length (bc_ServerSystemID cfg) + 12"
    by (cases "bc_SMPPVersion cfg = lit ''5.0''") (simp_all add: bind_resp_body_def Encode_eq t)
  then show thesis using assms that by simp
qed

definition bound_as :: "ConnectionConfig option \<Rightarrow> Connection \<Rightarrow> Connection" where
  "bound_as cc c = (case cc of None \<Rightarrow> c | Some _ \<Rightarrow> c\<lparr>c_connConfig := cc\<rparr>)\<lparr>c_bound := True\<rparr>"

text \<open>Every bind request is answered once, and the outcome is that of the checks.\<close>

lemma handleBind_eq:
  assumes "ParseBindTransceiver (Body pdu) = Some (sid, pw)" "server_id_fits cfg"
  obtains body where "16 + length body < 2 ^ 32" "handleBind c pdu cfg =
    (let c = c\<lparr>c_SystemID := sid, c_BindMode := bindModeFromCommandID (CommandID pdu)\<rparr>;
         resp = (\<lambda>st. wrote (pdu_wire (plain_pdu (bindRespCommandID (CommandID pdu)) st (SequenceNumber pdu) body)))
     in case bind_check cfg c sid pw of
          Inl st \<Rightarrow> Some (resp st c, False)
        | Inr cc \<Rightarrow> Some (bound_as cc (resp StatusOK c), True))"
proof -
  let ?c = "c\<lparr>c_SystemID := sid, c_BindMode := bindModeFromCommandID (CommandID pdu)\<rparr>"
  obtain off off' where r: "readCString (Body pdu) 0 = Some (sid, off)" "readCString (Body pdu) off = Some (pw, off')"
    using assms(1) by (auto simp: ParseBindTransceiver_def bind_eq_Some_conv)
  obtain b where b: "bind_resp_body cfg = Some b" "16 + length b < 2 ^ 32" using bind_resp_body_fits [OF assms(2)] .
  show thesis
  proof (cases "bind_check cfg ?c sid pw")
    case (Inl st)
    show thesis by (rule that [of "[0]"]) (simp_all add: handleBind_def r Let_def Inl sendResponse_eq)
  next
    case (Inr cc)
    have w: "wrote d (c\<lparr>c_connConfig := x\<rparr>) = (wrote d c)\<lparr>c_connConfig := x\<rparr>" for d c x
      by (simp add: wrote_def)
    show thesis
      by (rule that [OF b(2)], cases cc)
        (simp_all add: handleBind_def r Let_def Inr sendResponse_eq [OF b(2)] b(1) bound_as_def w)
  qed
qed

lemma ParseBindTransceiver_no_panic [no_panic]: "ParseBindTransceiver body \<noteq> None"
  unfolding ParseBindTransceiver_def readCString_def by (intro no_panic)

lemma handleBind_total:
  assumes "server_id_fits cfg"
  obtains c' ok where "handleBind c pdu cfg = Some (c', ok)" "c_ID c' = c_ID c"
    "c_bound c' \<longleftrightarrow> c_bound c \<or> ok" "nc_up (c_conn c') = nc_up (c_conn c)"
    "c_connConfig c' = c_connConfig c \<or>
       (\<exists>auth sid pw cc. bc_ConnConfigStore cfg = Some auth \<and> auth sid pw = Inr (Some cc) \<and> c_connConfig c' = Some cc)"
proof -
  obtain sid pw where p: "ParseBindTransceiver (Body pdu) = Some (sid, pw)"
    using ParseBindTransceiver_no_panic [of "Body pdu"] by fastforce
  obtain body where "handleBind c pdu cfg =
    (let c = c\<lparr>c_SystemID := sid, c_BindMode := bindModeFromCommandID (CommandID pdu)\<rparr>;
         resp = (\<lambda>st. wrote (pdu_wire (plain_pdu (bindRespCommandID (CommandID pdu)) st (SequenceNumber pdu) body)))
     in case bind_check cfg c sid pw of
          Inl st \<Rightarrow> Some (resp st c, False)
        | Inr cc \<Rightarrow> Some (bound_as cc (resp StatusOK c), True))"
    using handleBind_eq [OF p assms] .
  moreover have "\<exists>auth. bc_ConnConfigStore cfg = Some auth \<and> auth sid pw = Inr (Some cc)"
    if "bind_check cfg c1 sid pw = Inr (Some cc)" for c1 cc
    using that by (auto simp: bind_check_def split: option.splits sum.splits if_splits)
  ultimately show thesis
    using that by (auto simp: Let_def bound_as_def split: sum.splits option.splits) blast
qed

text \<open>An account admits a client: it is enabled, the password is right, the address and the mode are allowed.\<close>

definition admits :: "bcrypt_cmp \<Rightarrow> ConnectionConfig \<Rightarrow> net_Conn \<Rightarrow> BindMode \<Rightarrow> bytes \<Rightarrow> bool" where
  "admits cmp acc n mode pw \<longleftrightarrow> cc_Enabled acc \<and> cmp (cc_Password acc) pw \<and>
     (cc_AllowedIPs acc = [] \<or> extractIP (nc_RemoteAddr n) \<in> set (cc_AllowedIPs acc)) \<and>
     (cc_AllowedBindModes acc = [] \<or> bindModeName mode \<in> set (cc_AllowedBindModes acc))"

lemma bind_refused:
  assumes "bc_ConnConfigStore cfg = Some (Authenticate cmp P s)" "bind_check cfg c sid pw = Inl st"
  shows "st = (if \<exists>e. Authenticate cmp P s sid pw = Inl e then StatusInvPaswd else StatusInvBnd) \<and>
    \<not> (\<exists>acc. cs_Get P s sid = Inr (Some acc) \<and> admits cmp acc (c_conn c) (c_BindMode c) pw)"
  using assms
  by (auto simp: bind_check_def Authenticate_def admits_def split: sum.splits option.splits if_splits)

lemma bind_accepted:
  assumes "bc_ConnConfigStore cfg = Some (Authenticate cmp P s)" "bind_check cfg c sid pw = Inr cc"
  shows "\<exists>acc. cc = Some acc \<and> cs_Get P s sid = Inr (Some acc) \<and> admits cmp acc (c_conn c) (c_BindMode c) pw"
  using assms
  by (auto simp: bind_check_def Authenticate_def admits_def split: sum.splits option.splits if_splits)

section \<open>Sessions\<close>

text \<open>
  What the read loop relies on: the world holds the connection, and the handlers return and keep an
  invariant of the world. Then the loop returns on every sequence of PDUs up to a size the handlers
  accept, and keeps the invariant.
\<close>

locale session =
  fixes h :: "'w handlers" and inv :: "'w \<Rightarrow> bool" and cfgOk :: "ConnectionConfig \<Rightarrow> bool" and maxBody :: nat
  assumes conn_put: "inv w \<Longrightarrow> h_conn h (h_put h c w) = c"
    and put_inv: "inv w \<Longrightarrow> c_ID c = c_ID (h_conn h w) \<Longrightarrow> (c_bound (h_conn h w) \<Longrightarrow> c_bound c) \<Longrightarrow>
      c_connConfig c = c_connConfig (h_conn h w) \<or> (\<exists>cc. c_connConfig c = Some cc \<and> cfgOk cc) \<Longrightarrow> inv (h_put h c w)"
    and auth_ok: "inv w \<Longrightarrow> bc_ConnConfigStore (h_bindCfg h w) = Some auth \<Longrightarrow> auth sid pw = Inr (Some cc) \<Longrightarrow> cfgOk cc"
    and cfg_fits: "inv w \<Longrightarrow> server_id_fits (h_bindCfg h w)"
    and submit_inv: "inv w \<Longrightarrow> c_bound (h_conn h w) \<Longrightarrow> length body \<le> maxBody \<Longrightarrow>
      \<exists>w'. h_onSubmit h (c_ID (h_conn h w)) sq body w = Some w' \<and> inv w'"
    and resp_inv: "inv w \<Longrightarrow> \<exists>w'. h_onDeliverResp h (c_ID (h_conn h w)) sq st w = Some w' \<and> inv w'"
    and bind_inv: "inv w \<Longrightarrow> c_bound (h_conn h w) \<Longrightarrow> h_onBind h = Some f \<Longrightarrow>
      \<exists>w'. f (c_SystemID (h_conn h w)) w = Some w' \<and> inv w'"
begin

lemma returns_step: "\<exists>w'. m = Some w' \<and> inv w' \<Longrightarrow> \<exists>w' r. (m \<bind> (\<lambda>w. Some (w, b))) = Some (w', r) \<and> inv w'"
  by auto

lemma if_returns: "\<exists>w' r. x = Some (w', r) \<and> inv w' \<Longrightarrow> \<exists>w' r. y = Some (w', r) \<and> inv w' \<Longrightarrow>
  \<exists>w' r. (if c then x else y) = Some (w', r) \<and> inv w'"
  by simp

lemma respond_inv:
  "inv w \<Longrightarrow> 16 + length body < 2 ^ 32 \<Longrightarrow> \<exists>w'. respond h cmd st sq body w = Some w' \<and> inv w'"
  by (simp add: respond_def sendResponse_eq put_inv)

lemma dispatch_inv:
  assumes "inv w" "length (Body pdu) \<le> maxBody"
  shows "\<exists>w' r. dispatch h now pdu w = Some (w', r) \<and> inv w'"
proof -
  let ?w = "h_put h ((h_conn h w)\<lparr>c_lastActivity := now\<rparr>) w"
  have i: "inv ?w" using assms(1) by (simp add: put_inv)
  obtain c ok where hb: "handleBind (h_conn h ?w) pdu (h_bindCfg h ?w) = Some (c, ok)" "c_ID c = c_ID (h_conn h ?w)"
    "c_bound c \<longleftrightarrow> c_bound (h_conn h ?w) \<or> ok"
    "c_connConfig c = c_connConfig (h_conn h ?w) \<or> (\<exists>auth sid pw cc. bc_ConnConfigStore (h_bindCfg h ?w) = Some auth \<and>
       auth sid pw = Inr (Some cc) \<and> c_connConfig c = Some cc)"
    by (rule handleBind_total [OF cfg_fits [OF i], of "h_conn h ?w" pdu])
  let ?b = "h_put h c ?w"
  have ib: "inv ?b" using hb(2-4) auth_ok [OF i] by (intro put_inv i) blast+
  have bd: "\<exists>w'. (case h_onBind h of Some f \<Rightarrow> if ok then f (c_SystemID c) ?b else Some ?b | None \<Rightarrow> Some ?b) = Some w' \<and> inv w'"
    using bind_inv [OF ib] ib conn_put [OF i, of c] hb(3) by (auto split: option.splits)
  have sb: "\<exists>w'. (if \<not> c_bound (h_conn h ?w) then respond h CmdSubmitSMResp StatusInvBnd (SequenceNumber pdu) [0] ?w
      else h_onSubmit h (c_ID (h_conn h ?w)) (SequenceNumber pdu) (Body pdu) ?w) = Some w' \<and> inv w'"
    using submit_inv [OF i] respond_inv [OF i, of "[0]"] assms(2) by simp
  have r: "\<exists>w'. respond h cmd st (SequenceNumber pdu) [] ?w = Some w' \<and> inv w'" for cmd st
    using respond_inv [OF i, of "[]"] by simp
  show ?thesis
    unfolding dispatch_def Let_def hb(1) Option.bind.simps prod.case
    by (intro if_returns returns_step bd sb r resp_inv [OF i])
qed

lemma serve_inv:
  "inv w \<Longrightarrow> \<forall>pdu \<in> set pdus. length (Body pdu) \<le> maxBody \<Longrightarrow>
   \<exists>w'. serve h stop clock i pdus w = Some w' \<and> inv w'"
proof (induction pdus arbitrary: i w)
  case (Cons pdu pdus)
  obtain w' r where "dispatch h (clock i) pdu w = Some (w', r)" "inv w'"
    using dispatch_inv [OF Cons.prems(1)] Cons.prems(2) by fastforce
  then show ?case using Cons by simp
qed simp

end

section \<open>Properties\<close>

text \<open>
  C13. The read loop frames exactly: every byte stream is a sequence of complete PDUs and a rest at whose head
  there is none, and the loop does to the session what handling those PDUs one by one does, whatever
  the handlers are. In particular a stream of encoded PDUs is handled PDU by PDU, no byte lost or
  read twice, and the loop returns whenever the handlers do.
\<close>

theorem read_loop_framing:
  "\<exists>pdus rest. stream = concat (map pdu_wire pdus) @ rest \<and> list_all is_frame pdus \<and>
     \<not> (\<exists>pdu rest'. is_frame pdu \<and> rest = pdu_wire pdu @ rest') \<and>
     (\<forall>h clock stop i w. ReadLoop h stop clock i stream w = serve h stop clock i pdus w)"
proof -
  obtain pdus rest where s: "stream = concat (map pdu_wire pdus) @ rest" "\<forall>pdu \<in> set pdus. is_frame pdu"
    "\<nexists>pdu rest'. is_frame pdu \<and> rest = pdu_wire pdu @ rest'"
    using stream_frames [of stream] by blast
  then show ?thesis
    by (intro exI [of _ pdus] exI [of _ rest]) (simp add: list_all_iff ReadLoop_serve [OF s(2,3)])
qed

text \<open>
  C10. Who may bind. The bind request a client encodes, of any mode, is answered with exactly one PDU; the
  client decodes it, with its own sequence number and the response id it expects. The session becomes bound
  exactly when the account exists, is enabled, has that password, and admits the client's address and mode,
  and then the response has status OK and the session carries the account. A refusal says ESME_RINVPASWD for a
  disabled account, a wrong password or a failed read, and ESME_RINVBNDSTS otherwise.
\<close>

theorem bind_decision:
  assumes "no_nul sid" and "no_nul pw" and "server_id_fits cfg" and "conn_up c"
    and "bc_ConnConfigStore cfg = Some (Authenticate cmp P s)"
    and "CommandID pdu = bindCommandID mode" and "Body pdu = EncodeBind mode sid pw stype v"
  shows "\<exists>c' ok resp. handleBind c pdu cfg = Some (c', ok) \<and>
    (ok \<longleftrightarrow> (\<exists>acc. cs_Get P s sid = Inr (Some acc) \<and> admits cmp acc (c_conn c) mode pw)) \<and>
    (ok \<longrightarrow> cs_Get P s sid = Inr (c_connConfig c')) \<and>
    c_bound c' = (c_bound c \<or> ok) \<and>
    (\<not> ok \<longrightarrow> c_connConfig c' = c_connConfig c) \<and>
    written c' = written c @ [pdu_wire resp] \<and> DecodePDU (pdu_wire resp) = Some (Inr resp) \<and>
    CommandID resp = bindRespCommandID_mode mode \<and> SequenceNumber resp = SequenceNumber pdu \<and>
    CommandStatus resp = (if ok then StatusOK
      else if \<exists>e. Authenticate cmp P s sid pw = Inl e then StatusInvPaswd else StatusInvBnd)"
proof -
  have p: "ParseBindTransceiver (Body pdu) = Some (sid, pw)"
    using ParseBindTransceiver_EncodeBind [OF assms(1,2)] assms(7) by simp
  have m: "bindModeFromCommandID (CommandID pdu) = mode" "bindRespCommandID (CommandID pdu) = bindRespCommandID_mode mode"
    unfolding assms(6) by (cases mode; simp add: bindModeFromCommandID_def bindRespCommandID_def)+
  let ?c = "c\<lparr>c_SystemID := sid, c_BindMode := mode\<rparr>"
  obtain body where b: "16 + length body < 2 ^ 32" and hb: "handleBind c pdu cfg =
    (let c = c\<lparr>c_SystemID := sid, c_BindMode := bindModeFromCommandID (CommandID pdu)\<rparr>;
         resp = (\<lambda>st. wrote (pdu_wire (plain_pdu (bindRespCommandID (CommandID pdu)) st (SequenceNumber pdu) body)))
     in case bind_check cfg c sid pw of
          Inl st \<Rightarrow> Some (resp st c, False)
        | Inr cc \<Rightarrow> Some (bound_as cc (resp StatusOK c), True))"
    using handleBind_eq [OF p assms(3)] .
  show ?thesis
  proof (cases "bind_check cfg ?c sid pw")
    case (Inl st)
    note r = bind_refused [OF assms(5) Inl]
    show ?thesis
      using r Inl assms(4) DecodePDU_plain [OF b]
      by (intro exI [of _ "wrote (pdu_wire (plain_pdu (bindRespCommandID_mode mode) st (SequenceNumber pdu) body)) ?c"]
        exI [of _ False] exI [of _ "plain_pdu (bindRespCommandID_mode mode) st (SequenceNumber pdu) body"])
        (auto simp: hb m Let_def written_wrote plain_pdu_def)
  next
    case (Inr cc)
    obtain acc where acc: "cc = Some acc" "cs_Get P s sid = Inr (Some acc)" "admits cmp acc (c_conn c) mode pw"
      using bind_accepted [OF assms(5) Inr] by auto
    then show ?thesis
      using Inr assms(4) DecodePDU_plain [OF b]
      by (intro exI [of _ "bound_as cc (wrote (pdu_wire (plain_pdu (bindRespCommandID_mode mode) StatusOK (SequenceNumber pdu) body)) ?c)"]
        exI [of _ True] exI [of _ "plain_pdu (bindRespCommandID_mode mode) StatusOK (SequenceNumber pdu) body"])
        (auto simp: hb m Let_def written_wrote plain_pdu_def bound_as_def admits_def)
  qed
qed

definition example_conn :: Connection where
  "example_conn = NewConnection 0 (lit ''pending-1'') \<lparr>nc_up = True, nc_written = [], nc_RemoteAddr = lit ''10.0.0.1:4000''\<rparr>"

definition example_bind :: PDU where
  "example_bind = plain_pdu CmdBindTransceiver 0 7 (EncodeBind BindTransceiver (lit ''acme'') (lit ''pw'') [] 0x34)"

definition example_store :: "(gostring, dbval) fmap MessageStore" where
  "example_store = NewMessageStore (fmupd (connConfigKey (lit ''acme'')) (VConnConfig (example_config\<lparr>cc_Password := lit ''h''\<rparr>)) fmempty)"

definition example_cfg :: BindConfig where
  "example_cfg = \<lparr>bc_Password = [], bc_AllowedEngines = [], bc_ServerSystemID = lit ''gw'', bc_SMPPVersion = [],
     bc_ConnConfigStore = Some (Authenticate one_check mem_pebble example_store)\<rparr>"

lemma no_nul_lit: "no_nul (lit ''acme'')" "no_nul (lit ''pw'')"
  by (simp_all add: lit_def)

theorem bind_decision_witness:
  "\<exists>c' resp. handleBind example_conn example_bind example_cfg = Some (c', True) \<and> c_bound c' \<and>
     DecodePDU (pdu_wire resp) = Some (Inr resp) \<and> SequenceNumber resp = 7 \<and> CommandStatus resp = StatusOK"
proof -
  have g: "cs_Get mem_pebble example_store (lit ''acme'') = Inr (Some (example_config\<lparr>cc_Password := lit ''h''\<rparr>))"
    by (simp add: cs_Get_def GetJSON_def nil_if_absent_def NewMessageStore_def mem_pebble_def example_store_def)
  have a: "admits one_check (example_config\<lparr>cc_Password := lit ''h''\<rparr>) n m (lit ''pw'')" for n m
    by (simp add: admits_def example_config_def one_check_def)
  show ?thesis
    using bind_decision [where c = example_conn and cfg = example_cfg and pdu = example_bind and mode = BindTransceiver
        and sid = "lit ''acme''" and pw = "lit ''pw''" and stype = "[]" and v = "0x34" and cmp = one_check and P = mem_pebble
        and s = example_store] g a [of "c_conn example_conn" BindTransceiver]
    by (auto simp add: example_cfg_def example_conn_def NewConnection_def example_bind_def plain_pdu_def no_nul_lit)
qed

end
