(* ===== verification/Server.thy ===== *)
theory Server
  imports Connection
begin

text \<open>
  The northbound server, \<^verbatim>\<open>gateway/server.go\<close>: the table of bound sessions, delivery to a session, keepalive,
  stale detection and shutdown.

  Connections are shared by pointer between the table, the read loops and the router, so the model keeps
  them in a heap: \<open>sv_heap\<close> is the list of all connection objects ever accepted and a pointer is an index
  into it. Iteration over a Go map goes in an unspecified order, the parameter \<open>ord\<close>.
\<close>

section \<open>State\<close>

type_synonym conn_ptr = nat

record Server =
  sv_ServerPassword :: gostring
  sv_AllowedEngines :: "gostring list"
  sv_ServerSystemID :: gostring
  sv_SMPPVersion :: gostring
  sv_EnquireLinkSec :: int
  sv_IdleTimeoutSec :: int
  sv_heap :: "Connection list"
  sv_conns :: "(gostring, conn_ptr) fmap"
  sv_disconnects :: "(gostring, Time) fmap"
  sv_seq :: nat
  sv_done :: bool

definition NewServer :: "gostring \<Rightarrow> gostring list \<Rightarrow> gostring \<Rightarrow> gostring \<Rightarrow> int \<Rightarrow> int \<Rightarrow> Server" where
  "NewServer password engines systemID version enquire idle =
     \<lparr>sv_ServerPassword = password, sv_AllowedEngines = engines, sv_ServerSystemID = systemID,
      sv_SMPPVersion = version, sv_EnquireLinkSec = enquire, sv_IdleTimeoutSec = idle,
      sv_heap = [], sv_conns = fmempty, sv_disconnects = fmempty, sv_seq = 0, sv_done = False\<rparr>"

abbreviation deref :: "Server \<Rightarrow> conn_ptr \<Rightarrow> Connection" where
  "deref s p \<equiv> sv_heap s ! p"

definition put_conn :: "conn_ptr \<Rightarrow> Connection \<Rightarrow> Server \<Rightarrow> Server" where
  "put_conn p c s = s\<lparr>sv_heap := (sv_heap s)[p := c]\<rparr>"

abbreviation map_conn :: "conn_ptr \<Rightarrow> (Connection \<Rightarrow> Connection) \<Rightarrow> Server \<Rightarrow> Server" where
  "map_conn p f s \<equiv> put_conn p (f (deref s p)) s"

text \<open>The pointers of the table in iteration order.\<close>

definition range_conns :: "(gostring fset \<Rightarrow> gostring list) \<Rightarrow> Server \<Rightarrow> (gostring \<times> conn_ptr) list" where
  "range_conns ord s = map (\<lambda>i. (i, the (fmlookup (sv_conns s) i))) (ord (fmdom (sv_conns s)))"

section \<open>Accepting and closing\<close>

definition acceptLoop_step :: "Time \<Rightarrow> net_Conn \<Rightarrow> Server \<Rightarrow> Server \<times> conn_ptr" where
  "acceptLoop_step now conn s =
     (let seq = sv_seq s + 1; tempID = lit ''pending-'' @ dec seq; c = NewConnection now tempID conn in
      (s\<lparr>sv_seq := seq, sv_heap := sv_heap s @ [c]\<rparr>, length (sv_heap s)))"

text \<open>The deferred function of \<^verbatim>\<open>handleConnection\<close>, run when the read loop returned.\<close>

definition handleConnection_cleanup :: "Time \<Rightarrow> conn_ptr \<Rightarrow> Server \<Rightarrow> Server" where
  "handleConnection_cleanup now p s =
     (let c = deref s p;
          s = (if IsBound c \<and> fmlookup (sv_conns s) (c_ID c) = Some p
               then s\<lparr>sv_conns := fmdrop (c_ID c) (sv_conns s),
                      sv_disconnects := fmupd (c_ID c) now (sv_disconnects s)\<rparr>
               else s)
      in map_conn p conn_Close s)"

definition totalInFlight :: "(gostring fset \<Rightarrow> gostring list) \<Rightarrow> Server \<Rightarrow> 32 word" where
  "totalInFlight ord s = foldl (\<lambda>total (i, p). total + InFlightCount (deref s p)) 0 (range_conns ord s)"

text \<open>
  \<^verbatim>\<open>Stop\<close> after the drain loop ended. That loop only waits: until \<open>totalInFlight\<close> is zero, or for the drain
  timeout.
\<close>

definition Stop :: "(gostring fset \<Rightarrow> gostring list) \<Rightarrow> Server \<Rightarrow> Server" where
  "Stop ord s =
     (let s = s\<lparr>sv_done := True\<rparr>;
          s = foldl (\<lambda>s (i, p). map_conn p conn_Close s) s (range_conns ord s)
      in s\<lparr>sv_conns := fmempty\<rparr>)"

section \<open>Handlers of the read loop\<close>

definition bind_config :: "(gostring \<Rightarrow> bytes \<Rightarrow> conn_error + ConnectionConfig option) option \<Rightarrow> Server \<Rightarrow> BindConfig" where
  "bind_config connConfigStore s =
     \<lparr>bc_Password = sv_ServerPassword s, bc_AllowedEngines = sv_AllowedEngines s,
      bc_ServerSystemID = sv_ServerSystemID s, bc_SMPPVersion = sv_SMPPVersion s, bc_ConnConfigStore = connConfigStore\<rparr>"

definition bindCount :: "(gostring fset \<Rightarrow> gostring list) \<Rightarrow> Server \<Rightarrow> gostring \<Rightarrow> nat" where
  "bindCount ord s systemID =
     length (filter (\<lambda>(i, p). c_SystemID (deref s p) = systemID \<and> IsBound (deref s p)) (range_conns ord s))"

definition onBind :: "(gostring fset \<Rightarrow> gostring list) \<Rightarrow> conn_ptr \<Rightarrow> gostring \<Rightarrow> Server \<Rightarrow> Server" where
  "onBind ord p systemID s =
     (if (case c_connConfig (deref s p) of None \<Rightarrow> False
          | Some cfg \<Rightarrow> 0 < cc_MaxBinds cfg \<and> cc_MaxBinds cfg \<le> int (bindCount ord s systemID))
      then map_conn p conn_Close s
      else
        let s = map_conn p (\<lambda>c. c\<lparr>c_ID := systemID\<rparr>) s;
            s = (case fmlookup (sv_conns s) systemID of None \<Rightarrow> s | Some old \<Rightarrow> map_conn old conn_Close s)
        in s\<lparr>sv_conns := fmupd systemID p (sv_conns s), sv_disconnects := fmdrop systemID (sv_disconnects s)\<rparr>)"

definition onDeliverResp :: "gostring \<Rightarrow> uint32 \<Rightarrow> uint32 \<Rightarrow> Server \<Rightarrow> Server" where
  "onDeliverResp connID seqNum status s =
     (case fmlookup (sv_conns s) connID of
        None \<Rightarrow> s
      | Some p \<Rightarrow> map_conn p (\<lambda>c. ResolveDeliverResp c seqNum status) s)"

section \<open>Lookups\<close>

definition GetConnection :: "Server \<Rightarrow> gostring \<Rightarrow> conn_ptr option" where
  "GetConnection s connID =
     (case fmlookup (sv_conns s) connID of
        None \<Rightarrow> None
      | Some p \<Rightarrow> if IsBound (deref s p) then Some p else None)"

definition DisconnectedAt :: "Server \<Rightarrow> gostring \<Rightarrow> Time option" where
  "DisconnectedAt s connID = fmlookup (sv_disconnects s) connID"

definition RoundRobinConnID :: "(gostring fset \<Rightarrow> gostring list) \<Rightarrow> Server \<Rightarrow> gostring" where
  "RoundRobinConnID ord s =
     (case find (\<lambda>(i, p). IsBound (deref s p)) (range_conns ord s) of None \<Rightarrow> [] | Some (i, p) \<Rightarrow> i)"

definition BoundConnectionIDs :: "(gostring fset \<Rightarrow> gostring list) \<Rightarrow> Server \<Rightarrow> gostring list" where
  "BoundConnectionIDs ord s = map fst (filter (\<lambda>(i, p). IsBound (deref s p)) (range_conns ord s))"

definition connectionCount :: "(gostring fset \<Rightarrow> gostring list) \<Rightarrow> Server \<Rightarrow> nat" where
  "connectionCount ord s = length (filter (\<lambda>(i, p). IsBound (deref s p)) (range_conns ord s))"

definition ConnectionCount :: "(gostring fset \<Rightarrow> gostring list) \<Rightarrow> Server \<Rightarrow> nat" where
  "ConnectionCount ord s = connectionCount ord s"

section \<open>Delivery\<close>

text \<open>
  What the engine does within ten seconds of a deliver\_sm: it answers with a status, which its read loop
  hands to \<open>onDeliverResp\<close>, or it does not answer.
\<close>

datatype ack = Answered uint32 | NoAnswer

datatype deliver_error =
    ConnNotFound gostring
  | WriteError
  | DeliverNACKed gostring
  | DeliverTimeout

definition DeliverToConn :: "ack \<Rightarrow> gostring \<Rightarrow> bytes \<Rightarrow> Server \<Rightarrow> (Server \<times> uint32 \<times> deliver_error option) go" where
  "DeliverToConn a connID body s =
     (case GetConnection s connID of
        None \<Rightarrow> Some (s, 0, Some (ConnNotFound connID))
      | Some p \<Rightarrow> do {
          let c = deref s p;
          let seqNum = c_seqNum c + 1;
          let c = c\<lparr>c_seqNum := seqNum\<rparr>;
          let (c, ackCh) = RegisterDeliverWait c seqNum;
          (c, ok) \<leftarrow> WritePDU c \<lparr>CommandLength = 0, CommandID = CmdDeliverSM, CommandStatus = StatusOK,
            SequenceNumber = seqNum, Body = body, TLVs = None\<rparr>;
          if \<not> ok then
            Some (put_conn p (c\<lparr>c_pendingDelivers := fmdrop seqNum (c_pendingDelivers c)\<rparr>) s, 0, Some WriteError)
          else case a of
            NoAnswer \<Rightarrow>
              Some (put_conn p (c\<lparr>c_pendingDelivers := fmdrop seqNum (c_pendingDelivers c)\<rparr>) s, seqNum, Some DeliverTimeout)
          | Answered status \<Rightarrow> do {
              let c = ResolveDeliverResp c seqNum status;
              case c_chans c ! ackCh of
                Some status \<Rightarrow>
                  Some (put_conn p c s, seqNum,
                    if status = StatusOK then None else Some (DeliverNACKed (FormatError status)))
              | None \<Rightarrow>
                  Some (put_conn p (c\<lparr>c_pendingDelivers := fmdrop seqNum (c_pendingDelivers c)\<rparr>) s, seqNum, Some DeliverTimeout)
            }
        })"

section \<open>Keepalive and stale sessions\<close>

text \<open>One tick of \<^verbatim>\<open>RunEnquireLink\<close>; write errors are logged only.\<close>

definition enquire_one :: "conn_ptr \<Rightarrow> Server \<Rightarrow> Server go" where
  "enquire_one p s = do {
     let seq = c_seqNum (deref s p) + 1;
     let c = (deref s p)\<lparr>c_seqNum := seq\<rparr>;
     (c, _) \<leftarrow> WritePDU c \<lparr>CommandLength = 0, CommandID = CmdEnquireLink, CommandStatus = StatusOK,
       SequenceNumber = seq, Body = [], TLVs = None\<rparr>;
     Some (put_conn p c s)
   }"

fun enquire_all :: "conn_ptr list \<Rightarrow> Server \<Rightarrow> Server go" where
  "enquire_all [] s = Some s"
| "enquire_all (p # ps) s = do { s \<leftarrow> enquire_one p s; enquire_all ps s }"

definition RunEnquireLink_tick :: "(gostring fset \<Rightarrow> gostring list) \<Rightarrow> Server \<Rightarrow> Server go" where
  "RunEnquireLink_tick ord s =
     (if sv_EnquireLinkSec s * second \<le> 0 then Some s
      else enquire_all (map snd (filter (\<lambda>(i, p). IsBound (deref s p)) (range_conns ord s))) s)"

text \<open>One tick of \<^verbatim>\<open>RunStaleChecker\<close>.\<close>

definition stale_conns :: "(gostring fset \<Rightarrow> gostring list) \<Rightarrow> Time \<Rightarrow> Server \<Rightarrow> conn_ptr list" where
  "stale_conns ord now s = map snd (filter (\<lambda>(i, p). IsBound (deref s p) \<and>
     sv_IdleTimeoutSec s * second < now - LastActivity (deref s p)) (range_conns ord s))"

definition RunStaleChecker_tick :: "(gostring fset \<Rightarrow> gostring list) \<Rightarrow> Time \<Rightarrow> Server \<Rightarrow> Server" where
  "RunStaleChecker_tick ord now s =
     (if sv_IdleTimeoutSec s * second \<le> 0 then s
      else foldl (\<lambda>s p. map_conn p conn_Close s) s (stale_conns ord now s))"

section \<open>Admin views\<close>

record ConnectionInfo =
  ci_ID :: gostring
  ci_SystemID :: gostring
  ci_RemoteAddr :: gostring
  ci_BoundSince :: Time
  ci_InFlight :: "32 word"
  ci_BindMode :: gostring
  ci_TotalSubmits :: uint64
  ci_CurrentTPS :: uint64
  ci_HasConfig :: bool

record ConnectionConfigSummary =
  cs_SystemID :: gostring
  cs_Description :: gostring
  cs_Enabled :: bool
  cs_MaxTPS :: int
  cs_CostPerSMS :: rat
  cs_AllowedPrefixes :: "gostring list"
  cs_AllowedIPs :: "gostring list"
  cs_MaxBinds :: int
  cs_AllowedBindModes :: "gostring list"

type_synonym ConnectionDetail = "ConnectionInfo \<times> ConnectionConfigSummary option"

definition connection_info :: "Time \<Rightarrow> Connection \<Rightarrow> ConnectionInfo" where
  "connection_info now c =
     \<lparr>ci_ID = c_ID c, ci_SystemID = c_SystemID c, ci_RemoteAddr = nc_RemoteAddr (c_conn c),
      ci_BoundSince = c_createdAt c, ci_InFlight = InFlightCount c, ci_BindMode = bindModeName (c_BindMode c),
      ci_TotalSubmits = conn_TotalSubmits c, ci_CurrentTPS = CurrentTPS now c, ci_HasConfig = (c_connConfig c \<noteq> None)\<rparr>"

definition config_summary :: "ConnectionConfig \<Rightarrow> ConnectionConfigSummary" where
  "config_summary cfg =
     \<lparr>cs_SystemID = cc_SystemID cfg, cs_Description = cc_Description cfg, cs_Enabled = cc_Enabled cfg,
      cs_MaxTPS = cc_MaxTPS cfg, cs_CostPerSMS = cc_CostPerSMS cfg, cs_AllowedPrefixes = cc_AllowedPrefixes cfg,
      cs_AllowedIPs = cc_AllowedIPs cfg, cs_MaxBinds = cc_MaxBinds cfg, cs_AllowedBindModes = cc_AllowedBindModes cfg\<rparr>"

definition GetConnectionDetail :: "Time \<Rightarrow> Server \<Rightarrow> gostring \<Rightarrow> ConnectionDetail option" where
  "GetConnectionDetail now s connID =
     map_option (\<lambda>p. (connection_info now (deref s p), map_option config_summary (c_connConfig (deref s p))))
       (GetConnection s connID)"

definition ListConnections :: "(gostring fset \<Rightarrow> gostring list) \<Rightarrow> Time \<Rightarrow> Server \<Rightarrow> ConnectionInfo list" where
  "ListConnections ord now s =
     map (\<lambda>(i, p). connection_info now (deref s p)) (filter (\<lambda>(i, p). IsBound (deref s p)) (range_conns ord s))"

section \<open>The session table\<close>

text \<open>
  Every entry of the table is a bound session, and no system id is at once in the table and recorded as
  disconnected. The connection sizes its reads by its own buffers; the server id it announces is short.
\<close>

definition server_ok :: "Server \<Rightarrow> bool" where
  "server_ok s \<longleftrightarrow> (\<forall>i p. fmlookup (sv_conns s) i = Some p \<longrightarrow> p < length (sv_heap s) \<and> c_bound (deref s p)) \<and>
     (\<forall>i. fmlookup (sv_conns s) i = None \<or> fmlookup (sv_disconnects s) i = None) \<and>
     length (sv_ServerSystemID s) < 2 ^ 31"

lemma put_conn_simps [simp]:
  "sv_conns (put_conn p c s) = sv_conns s" "sv_disconnects (put_conn p c s) = sv_disconnects s"
  "sv_ServerSystemID (put_conn p c s) = sv_ServerSystemID s" "length (sv_heap (put_conn p c s)) = length (sv_heap s)"
  "p < length (sv_heap s) \<Longrightarrow> deref (put_conn p c s) p = c" "q \<noteq> p \<Longrightarrow> deref (put_conn p c s) q = deref s q"
  "sv_done (put_conn p c s) = sv_done s" "sv_IdleTimeoutSec (put_conn p c s) = sv_IdleTimeoutSec s"
  by (simp_all add: put_conn_def)

lemma server_ok_put:
  assumes "server_ok s" "c_bound (deref s p) \<Longrightarrow> c_bound c"
  shows "server_ok (put_conn p c s)"
proof -
  have "c_bound (deref (put_conn p c s) q)" if "q < length (sv_heap s)" "c_bound (deref s q)" for q
    using assms(2) that by (cases "q = p") simp_all
  then show ?thesis using assms(1) unfolding server_ok_def by simp
qed

lemma conn_Close_simps [simp]: "c_bound (conn_Close c) = c_bound c" "c_ID (conn_Close c) = c_ID c" "\<not> conn_up (conn_Close c)"
  "c_SystemID (conn_Close c) = c_SystemID c" "c_connConfig (conn_Close c) = c_connConfig c"
  by (simp_all add: conn_Close_def)

lemma server_ok_new: "length sysid < 2 ^ 31 \<Longrightarrow> server_ok (NewServer pw en sysid ver enq idle)"
  by (simp add: server_ok_def NewServer_def)

lemma server_ok_accept: "server_ok s \<Longrightarrow> server_ok (fst (acceptLoop_step now conn s))"
  by (auto simp: server_ok_def acceptLoop_step_def Let_def nth_append intro: less_SucI)

lemma server_ok_conns:
  assumes "server_ok s" "sv_heap s' = sv_heap s" "sv_ServerSystemID s' = sv_ServerSystemID s"
    and "\<And>i p. fmlookup (sv_conns s') i = Some p \<Longrightarrow> fmlookup (sv_conns s) i = Some p \<or> p < length (sv_heap s) \<and> c_bound (deref s p)"
    and "\<And>i. fmlookup (sv_conns s') i = None \<or> fmlookup (sv_disconnects s') i = None"
  shows "server_ok s'"
  using assms unfolding server_ok_def by metis

lemma server_ok_cleanup: "server_ok s \<Longrightarrow> server_ok (handleConnection_cleanup now p s)"
  unfolding handleConnection_cleanup_def Let_def
  by (rule server_ok_put, rule server_ok_conns) (auto simp: server_ok_def)

lemma server_ok_foldl_close: "server_ok s \<Longrightarrow> server_ok (foldl (\<lambda>s p. map_conn p conn_Close s) s ps)"
proof (induction ps arbitrary: s)
  case (Cons p ps)
  have "server_ok (map_conn p conn_Close s)" using Cons.prems by (rule server_ok_put) simp
  then show ?case using Cons.IH by simp
qed simp

lemma foldl_snd: "foldl (\<lambda>s (i, p). f s p) s xs = foldl f s (map snd xs)"
  by (induction xs arbitrary: s) auto

lemma server_ok_stop: "server_ok s \<Longrightarrow> server_ok (Stop ord s)"
  unfolding Stop_def Let_def foldl_snd
  by (rule server_ok_conns [OF server_ok_foldl_close [of "s\<lparr>sv_done := True\<rparr>"]]) (auto simp: server_ok_def)

lemma server_ok_stale: "server_ok s \<Longrightarrow> server_ok (RunStaleChecker_tick ord now s)"
  by (simp add: RunStaleChecker_tick_def server_ok_foldl_close)

lemma server_ok_onBind:
  assumes "server_ok s" "p < length (sv_heap s)" "c_bound (deref s p)"
  shows "server_ok (onBind ord p sid s)"
proof -
  let ?s1 = "map_conn p (\<lambda>c. c\<lparr>c_ID := sid\<rparr>) s"
  let ?s2 = "case fmlookup (sv_conns ?s1) sid of None \<Rightarrow> ?s1 | Some old \<Rightarrow> map_conn old conn_Close ?s1"
  have s1: "server_ok ?s1" using assms(1) by (rule server_ok_put) simp
  have s2: "server_ok ?s2" using s1 by (auto split: option.splits intro!: server_ok_put)
  have b: "p < length (sv_heap ?s2) \<and> c_bound (deref ?s2 p)"
    using assms(2,3) by (auto split: option.splits simp: put_conn_def nth_list_update)
  have "server_ok (?s2\<lparr>sv_conns := fmupd sid p (sv_conns ?s2), sv_disconnects := fmdrop sid (sv_disconnects ?s2)\<rparr>)"
    by (rule server_ok_conns [OF s2]) (use b s2 in \<open>auto simp: server_ok_def split: if_splits\<close>)
  then show ?thesis
    using server_ok_put [OF assms(1), of p "conn_Close (deref s p)"] unfolding onBind_def Let_def by (auto split: option.splits)
qed

lemma ResolveDeliverResp_simps [simp]: "c_bound (ResolveDeliverResp c sq st) = c_bound c"
  "c_ID (ResolveDeliverResp c sq st) = c_ID c"
  by (simp_all add: ResolveDeliverResp_def split: option.splits)

lemma server_ok_onDeliverResp: "server_ok s \<Longrightarrow> server_ok (onDeliverResp i sq st s)"
  by (auto simp: onDeliverResp_def split: option.splits intro!: server_ok_put)

lemma GetConnection_eq: "server_ok s \<Longrightarrow> GetConnection s i = fmlookup (sv_conns s) i"
  by (auto simp: GetConnection_def server_ok_def IsBound_def split: option.splits)

lemma GetConnection_valid: "server_ok s \<Longrightarrow> GetConnection s i = Some p \<Longrightarrow> p < length (sv_heap s) \<and> c_bound (deref s p)"
  by (simp add: GetConnection_eq server_ok_def)

section \<open>What a delivery does\<close>

abbreviation deliver_pdu :: "Connection \<Rightarrow> bytes \<Rightarrow> PDU" where
  "deliver_pdu c body \<equiv> plain_pdu CmdDeliverSM StatusOK (c_seqNum c + 1) body"

text \<open>The reason a delivery to a bound session fails, if it does.\<close>

definition deliver_result :: "ack \<Rightarrow> Connection \<Rightarrow> deliver_error option" where
  "deliver_result a c =
     (if \<not> conn_up c then Some WriteError
      else case a of NoAnswer \<Rightarrow> Some DeliverTimeout
        | Answered st \<Rightarrow> if st = StatusOK then None else Some (DeliverNACKed (FormatError st)))"

lemma DeliverToConn_bound:
  assumes "server_ok s" "GetConnection s i = Some p" "16 + length body < 2 ^ 32"
  obtains c sq where "DeliverToConn a i body s = Some (put_conn p c s, sq, deliver_result a (deref s p))"
    "c_ID c = c_ID (deref s p)" "c_bound c" "c_seqNum c = c_seqNum (deref s p) + 1"
    "c_conn c = c_conn (wrote (pdu_wire (deliver_pdu (deref s p) body)) (deref s p))"
    "c_inFlight c = c_inFlight (deref s p)" "c_connConfig c = c_connConfig (deref s p)"
    "c_tpsWindow c = c_tpsWindow (deref s p)" "c_tpsCount c = c_tpsCount (deref s p)"
proof -
  let ?c = "deref s p" and ?sq = "c_seqNum (deref s p) + 1"
  let ?r = "?c\<lparr>c_seqNum := ?sq, c_chans := c_chans ?c @ [None],
    c_pendingDelivers := fmupd ?sq (length (c_chans ?c)) (c_pendingDelivers ?c)\<rparr>"
  have b: "c_bound ?c" using GetConnection_valid [OF assms(1,2)] by simp
  have w: "WritePDU ?r \<lparr>CommandLength = 0, CommandID = CmdDeliverSM, CommandStatus = StatusOK,
        SequenceNumber = ?sq, Body = body, TLVs = None\<rparr> = Some (wrote (pdu_wire (deliver_pdu ?c body)) ?r, conn_up ?c)"
    unfolding plain_pdu_length using assms(3) by (subst WritePDU_eq) simp_all
  have u: "DeliverToConn a i body s =
    (let c = wrote (pdu_wire (deliver_pdu ?c body)) ?r;
         drop_wait = c\<lparr>c_pendingDelivers := fmdrop ?sq (c_pendingDelivers c)\<rparr>
     in if \<not> conn_up ?c then Some (put_conn p drop_wait s, 0, Some WriteError)
        else case a of NoAnswer \<Rightarrow> Some (put_conn p drop_wait s, ?sq, Some DeliverTimeout)
          | Answered st \<Rightarrow> Some (put_conn p (ResolveDeliverResp c ?sq st) s, ?sq,
              if st = StatusOK then None else Some (DeliverNACKed (FormatError st))))"
    unfolding DeliverToConn_def assms(2) option.case Let_def RegisterDeliverWait_def prod.case
    by (simp add: w ResolveDeliverResp_def split: ack.splits)
  let ?d = "wrote (pdu_wire (deliver_pdu ?c body)) ?r"
  let ?w = "?d\<lparr>c_pendingDelivers := fmdrop ?sq (c_pendingDelivers ?d)\<rparr>"
  have cn: "c_conn ?d = c_conn (wrote (pdu_wire (deliver_pdu ?c body)) ?c)" by (simp add: wrote_def)
  show thesis
  proof (cases "conn_up ?c")
    case False
    then show ?thesis using u b cn by (intro that [of ?w 0]) (simp_all add: Let_def deliver_result_def)
  next
    case True
    show ?thesis
    proof (cases a)
      case (Answered st)
      then show ?thesis
        using u b cn True
        by (intro that [of "ResolveDeliverResp ?d ?sq st" ?sq]) (simp_all add: Let_def deliver_result_def ResolveDeliverResp_def)
    next
      case NoAnswer
      then show ?thesis using u b cn True by (intro that [of ?w ?sq]) (simp_all add: Let_def deliver_result_def)
    qed
  qed
qed

section \<open>Properties\<close>

text \<open>
  C11. Delivery to a session is exact. It succeeds exactly when the id names a bound session whose TCP connection
  is up and whose engine answers with status OK; the deliver_sm is then the one PDU written, with a fresh
  sequence number and the given body, to that session and to no other. An unknown id changes nothing.
\<close>

theorem deliver_exact:
  assumes "server_ok s" and "16 + length body < 2 ^ 32"
  shows "\<exists>s' sq err. DeliverToConn a i body s = Some (s', sq, err) \<and> server_ok s' \<and>
    sv_conns s' = sv_conns s \<and> sv_disconnects s' = sv_disconnects s \<and>
    (err = None \<longleftrightarrow> (\<exists>p. GetConnection s i = Some p \<and> conn_up (deref s p)) \<and> a = Answered StatusOK) \<and>
    (\<forall>q. GetConnection s i \<noteq> Some q \<longrightarrow> deref s' q = deref s q) \<and>
    (\<forall>p. GetConnection s i = Some p \<and> conn_up (deref s p) \<longrightarrow>
       written (deref s' p) = written (deref s p) @ [pdu_wire (deliver_pdu (deref s p) body)])"
proof (cases "GetConnection s i")
  case None
  then show ?thesis using assms(1) by (simp add: DeliverToConn_def)
next
  case (Some p)
  obtain c sq where c: "DeliverToConn a i body s = Some (put_conn p c s, sq, deliver_result a (deref s p))"
    "c_bound c" "c_conn c = c_conn (wrote (pdu_wire (deliver_pdu (deref s p) body)) (deref s p))"
    using DeliverToConn_bound [OF assms(1) Some assms(2)] .
  have p: "p < length (sv_heap s)" using GetConnection_valid [OF assms(1) Some] by simp
  have "server_ok (put_conn p c s)" using assms(1) c(2) by (rule server_ok_put)
  moreover have "deliver_result a (deref s p) = None \<longleftrightarrow> conn_up (deref s p) \<and> a = Answered StatusOK"
    by (simp add: deliver_result_def split: ack.splits)
  ultimately show ?thesis using c p Some written_wrote by (auto simp: put_conn_def)
qed

definition example_server :: Server where
  "example_server = (NewServer [] [] (lit ''gw'') [] 30 120)\<lparr>
     sv_heap := [example_conn\<lparr>c_ID := lit ''acme'', c_bound := True\<rparr>, example_conn\<lparr>c_SystemID := lit ''acme'', c_bound := True\<rparr>],
     sv_conns := fmupd (lit ''acme'') 0 fmempty\<rparr>"

lemma example_server_ok: "server_ok example_server"
  by (simp add: server_ok_def example_server_def NewServer_def)

theorem deliver_exact_witness:
  "\<exists>s' sq. DeliverToConn (Answered StatusOK) (lit ''acme'') [1, 2] example_server = Some (s', sq, None) \<and>
     written (deref s' 0) = [pdu_wire (plain_pdu CmdDeliverSM StatusOK 1 [1, 2])] \<and> deref s' 1 = deref example_server 1"
proof -
  have g: "GetConnection example_server (lit ''acme'') = Some 0"
    by (simp add: GetConnection_def IsBound_def example_server_def)
  have u: "conn_up (deref example_server 0)" "written (deref example_server 0) = []" "c_seqNum (deref example_server 0) = 0"
    by (simp_all add: example_server_def example_conn_def NewConnection_def)
  show ?thesis
    using deliver_exact [OF example_server_ok, of "[1, 2]" "Answered StatusOK" "lit ''acme''"] g u by fastforce
qed



end
