(* ===== verification/Shard_Map.thy ===== *)
theory Shard_Map
  imports Go_Prelude
begin

text \<open>
  The sharded map of the gateway: \<^verbatim>\<open>gateway/shardmap.go\<close>.

  A \<^verbatim>\<open>ShardMap\<close> is an array of 64 maps and a counter; a key lives in the shard its FNV-1a
  hash selects. Each operation of the source holds the lock of the one shard it touches, so
  the model is a state transformer per operation. The theory shows that the structure is a
  finite map: the interface \<open>kv_map\<close> that the router relies on is interpreted on it, and the
  counter is the number of keys. Go does not fix the order in which it iterates over a map,
  so \<open>Range\<close> takes that order as a parameter.
\<close>

section \<open>Model\<close>

abbreviation numShards :: nat where "numShards \<equiv> 64"

record 'v ShardMap =
  shards :: "(gostring, 'v) fmap list"
  count :: int

definition NewShardMap :: "'v ShardMap" where
  "NewShardMap = \<lparr>shards = replicate numShards fmempty, count = 0\<rparr>"

text \<open>\<^verbatim>\<open>fnv.New32a\<close>, \<^verbatim>\<open>Write\<close> and \<^verbatim>\<open>Sum32\<close> of the standard library.\<close>

definition fnv32a :: "bytes \<Rightarrow> uint32" where
  "fnv32a key = foldl (\<lambda>h c. (h XOR ucast c) * 16777619) 2166136261 key"

definition shardIndex :: "gostring \<Rightarrow> nat" where
  "shardIndex key = unat (fnv32a key AND of_nat (numShards - 1))"

definition Get :: "'v ShardMap \<Rightarrow> gostring \<Rightarrow> 'v option" where
  "Get sm key = fmlookup (shards sm ! shardIndex key) key"

definition Set :: "'v ShardMap \<Rightarrow> gostring \<Rightarrow> 'v \<Rightarrow> 'v ShardMap" where
  "Set sm key val =
     (let i = shardIndex key;
          existed = (fmlookup (shards sm ! i) key \<noteq> None);
          sm = sm\<lparr>shards := (shards sm)[i := fmupd key val (shards sm ! i)]\<rparr>
      in if \<not> existed then sm\<lparr>count := count sm + 1\<rparr> else sm)"

definition Delete :: "'v ShardMap \<Rightarrow> gostring \<Rightarrow> 'v ShardMap" where
  "Delete sm key =
     (let i = shardIndex key;
          existed = (fmlookup (shards sm ! i) key \<noteq> None);
          sm = (if existed then sm\<lparr>shards := (shards sm)[i := fmdrop key (shards sm ! i)]\<rparr> else sm)
      in if existed then sm\<lparr>count := count sm - 1\<rparr> else sm)"

definition Len :: "'v ShardMap \<Rightarrow> int" where
  "Len sm = count sm"

text \<open>
  \<open>Range\<close>: \<open>ord\<close> is the order in which the runtime iterates over one shard, \<open>fn\<close> the callback,
  which threads the state its closure captures and says whether to go on.
\<close>

fun range_entries :: "(gostring \<Rightarrow> 'v \<Rightarrow> 's \<Rightarrow> bool \<times> 's) \<Rightarrow> (gostring \<times> 'v) list \<Rightarrow> 's \<Rightarrow> bool \<times> 's" where
  "range_entries fn [] s = (True, s)"
| "range_entries fn ((k, v) # kvs) s =
     (case fn k v s of (go_on, s) \<Rightarrow> if \<not> go_on then (False, s) else range_entries fn kvs s)"

fun range_shards :: "((gostring, 'v) fmap \<Rightarrow> (gostring \<times> 'v) list) \<Rightarrow>
    (gostring \<Rightarrow> 'v \<Rightarrow> 's \<Rightarrow> bool \<times> 's) \<Rightarrow> (gostring, 'v) fmap list \<Rightarrow> 's \<Rightarrow> 's" where
  "range_shards ord fn [] s = s"
| "range_shards ord fn (m # ms) s =
     (case range_entries fn (ord m) s of (go_on, s) \<Rightarrow>
        if \<not> go_on then s else range_shards ord fn ms s)"

definition Range :: "((gostring, 'v) fmap \<Rightarrow> (gostring \<times> 'v) list) \<Rightarrow> 'v ShardMap \<Rightarrow>
    (gostring \<Rightarrow> 'v \<Rightarrow> 's \<Rightarrow> bool \<times> 's) \<Rightarrow> 's \<Rightarrow> 's" where
  "Range ord sm fn s = range_shards ord fn (shards sm) s"

section \<open>The map interface\<close>

text \<open>
  What the clients of a keyed store rely on: a lookup after an update, and an invariant that
  the updates keep.
\<close>

definition map_op :: "('k \<Rightarrow> 'v option) \<Rightarrow> 'k \<times> 'v option \<Rightarrow> ('k \<Rightarrow> 'v option)" where
  "map_op f p = f(fst p := snd p)"

locale kv_map =
  fixes empty :: "'m" and get :: "'m \<Rightarrow> 'k \<Rightarrow> 'v option"
    and set_kv :: "'m \<Rightarrow> 'k \<Rightarrow> 'v \<Rightarrow> 'm" and del :: "'m \<Rightarrow> 'k \<Rightarrow> 'm" and inv :: "'m \<Rightarrow> bool"
  assumes get_empty: "get empty = Map.empty"
    and get_set: "inv m \<Longrightarrow> get (set_kv m k v) = (get m)(k \<mapsto> v)"
    and get_del: "inv m \<Longrightarrow> get (del m k) = (get m)(k := None)"
    and inv_empty: "inv empty"
    and inv_set: "inv m \<Longrightarrow> inv (set_kv m k v)"
    and inv_del: "inv m \<Longrightarrow> inv (del m k)"
begin

definition apply_op :: "'m \<Rightarrow> 'k \<times> 'v option \<Rightarrow> 'm" where
  "apply_op m p = (case p of (k, Some v) \<Rightarrow> set_kv m k v | (k, None) \<Rightarrow> del m k)"

lemma inv_fold: "inv m \<Longrightarrow> inv (foldl apply_op m ps)"
  by (induction ps arbitrary: m) (auto simp: apply_op_def inv_set inv_del split: prod.splits option.splits)

lemma get_fold: "inv m \<Longrightarrow> get (foldl apply_op m ps) = foldl map_op (get m) ps"
proof (induction ps arbitrary: m)
  case (Cons p ps)
  have "inv (apply_op m p)" "get (apply_op m p) = map_op (get m) p"
    using Cons.prems
    by (auto simp: apply_op_def map_op_def inv_set inv_del get_set get_del split: prod.splits option.splits)
  then show ?case using Cons.IH by simp
qed simp

lemma inv_del_all: "inv m \<Longrightarrow> inv (foldl del m ks)"
  by (induction ks arbitrary: m) (auto simp: inv_del)

lemma get_del_all: "inv m \<Longrightarrow> get (foldl del m ks) k = (if k \<in> set ks then None else get m k)"
  by (induction ks arbitrary: m) (auto simp: get_del inv_del)

end

section \<open>The invariant\<close>

definition shard_ok :: "'v ShardMap \<Rightarrow> bool" where
  "shard_ok sm \<longleftrightarrow> length (shards sm) = numShards \<and>
     (\<forall>i < numShards. \<forall>k \<in> fset (fmdom (shards sm ! i)). shardIndex k = i)"

definition wf_shardmap :: "'v ShardMap \<Rightarrow> bool" where
  "wf_shardmap sm \<longleftrightarrow> shard_ok sm \<and> count sm = int (card (dom (Get sm)))"

lemma shardIndex_less [simp]: "shardIndex key < numShards"
proof -
  have "fnv32a key AND 63 \<le> 63" by (rule word_and_le1)
  then have "unat (fnv32a key AND 63) \<le> 63" by (simp add: word_le_nat_alt)
  then show ?thesis by (simp add: shardIndex_def)
qed

lemma dom_Get:
  assumes "shard_ok sm"
  shows "dom (Get sm) = (\<Union>m \<in> set (shards sm). fset (fmdom m))"
proof (intro equalityI subsetI)
  fix k assume "k \<in> dom (Get sm)"
  then have "k \<in> fset (fmdom (shards sm ! shardIndex k))" by (auto simp: Get_def fmdomI)
  moreover have "shards sm ! shardIndex k \<in> set (shards sm)"
    using assms by (intro nth_mem) (simp add: shard_ok_def)
  ultimately show "k \<in> (\<Union>m \<in> set (shards sm). fset (fmdom m))" by blast
next
  fix k assume "k \<in> (\<Union>m \<in> set (shards sm). fset (fmdom m))"
  then obtain i where i: "i < length (shards sm)" "k |\<in>| fmdom (shards sm ! i)"
    by (auto simp: in_set_conv_nth)
  then have "shardIndex k = i" using assms by (auto simp: shard_ok_def)
  then show "k \<in> dom (Get sm)" using i(2) by (auto simp: Get_def fmlookup_dom_iff)
qed

lemma finite_dom_Get: "shard_ok sm \<Longrightarrow> finite (dom (Get sm))"
  by (simp add: dom_Get)

lemma Get_Set: "shard_ok sm \<Longrightarrow> Get (Set sm key val) = (Get sm)(key \<mapsto> val)"
  by (rule ext) (auto simp: Get_def Set_def Let_def shard_ok_def nth_list_update)

lemma Get_Delete:
  assumes "shard_ok sm"
  shows "Get (Delete sm key) = (Get sm)(key := None)"
  using assms by (intro ext) (auto simp: Get_def Delete_def Let_def shard_ok_def nth_list_update)

lemma shard_ok_Set: "shard_ok sm \<Longrightarrow> shard_ok (Set sm key val)"
  by (auto simp: Set_def Let_def shard_ok_def nth_list_update)

lemma shard_ok_Delete: "shard_ok sm \<Longrightarrow> shard_ok (Delete sm key)"
  by (auto simp: Delete_def Let_def shard_ok_def nth_list_update)

lemma count_Set: "count (Set sm key val) = count sm + (if Get sm key = None then 1 else 0)"
  by (simp add: Set_def Let_def Get_def)

lemma count_Delete: "count (Delete sm key) = count sm - (if Get sm key = None then 0 else 1)"
  by (simp add: Delete_def Let_def Get_def)

lemma wf_Set: "wf_shardmap sm \<Longrightarrow> wf_shardmap (Set sm key val)"
  using finite_dom_Get [of sm]
  by (auto simp: wf_shardmap_def shard_ok_Set count_Set Get_Set card_insert_if domIff)

lemma wf_Delete: "wf_shardmap sm \<Longrightarrow> wf_shardmap (Delete sm key)"
proof -
  assume wf: "wf_shardmap sm"
  have "int (card (dom (Get sm) - {key})) = int (card (dom (Get sm))) - 1" if "Get sm key \<noteq> None"
  proof -
    have "key \<in> dom (Get sm)" "finite (dom (Get sm))"
      using that wf finite_dom_Get by (auto simp: wf_shardmap_def)
    then show ?thesis by (metis card_Suc_Diff1 of_nat_Suc add_diff_cancel_left')
  qed
  then show ?thesis
    using wf by (cases "Get sm key")
      (simp_all add: wf_shardmap_def shard_ok_Delete count_Delete Get_Delete domIff)
qed

lemma Get_New: "Get NewShardMap = Map.empty"
  by (rule ext) (simp add: Get_def NewShardMap_def)

lemma wf_New: "wf_shardmap NewShardMap"
proof -
  have "shard_ok NewShardMap" "count NewShardMap = 0"
    by (simp_all add: shard_ok_def NewShardMap_def)
  then show ?thesis by (simp add: wf_shardmap_def Get_New)
qed

interpretation shm: kv_map NewShardMap Get Set Delete wf_shardmap
  by unfold_locales (auto simp: Get_New Get_Set Get_Delete wf_New wf_Set wf_Delete wf_shardmap_def [THEN iffD1, THEN conjunct1])

text \<open>An operation of a client: a \<open>Set\<close> for \<open>(k, Some v)\<close>, a \<open>Delete\<close> for \<open>(k, None)\<close>.\<close>

definition shardmap_op :: "'v ShardMap \<Rightarrow> gostring \<times> 'v option \<Rightarrow> 'v ShardMap" where
  "shardmap_op sm p = (case snd p of Some v \<Rightarrow> Set sm (fst p) v | None \<Rightarrow> Delete sm (fst p))"

lemma shardmap_op_eq: "shardmap_op = shm.apply_op"
  by (intro ext) (auto simp: shardmap_op_def shm.apply_op_def split: prod.splits option.splits)

lemma range_entries_all:
  "(\<And>k v s. fst (fn k v s)) \<Longrightarrow>
   range_entries fn kvs s = (True, foldl (\<lambda>s (k, v). snd (fn k v s)) s kvs)"
  by (induction kvs arbitrary: s) (auto split: prod.splits, metis fst_conv)

lemma range_shards_all:
  assumes "\<And>k v s. fst (fn k v s)"
  shows "range_shards ord fn ms s = foldl (\<lambda>s (k, v). snd (fn k v s)) s (concat (map ord ms))"
  by (induction ms arbitrary: s) (simp_all add: range_entries_all [OF assms])

section \<open>Properties\<close>

text \<open>
  C27. The sharded map is a map: after any sequence of sets and deletes on a new map, a lookup
  gives what the same sequence gives on a mathematical map, and the O(1) counter is the
  number of keys present.
\<close>

theorem shardmap_refines_map:
  "Get (foldl shardmap_op NewShardMap ops) = foldl map_op Map.empty ops \<and>
   Len (foldl shardmap_op NewShardMap ops) = int (card (dom (foldl map_op Map.empty ops)))"
proof -
  have "Get (foldl shardmap_op NewShardMap ops) = foldl map_op Map.empty ops"
    unfolding shardmap_op_eq by (simp add: shm.get_fold wf_New Get_New)
  moreover have "wf_shardmap (foldl shardmap_op NewShardMap ops)"
    unfolding shardmap_op_eq by (rule shm.inv_fold [OF wf_New])
  ultimately show ?thesis by (simp add: Len_def wf_shardmap_def)
qed

end
