(* ===== verification/Dlr.thy ===== *)
theory Dlr
  imports Utf8
begin

text \<open>
  Delivery receipts: \<^verbatim>\<open>smpp/handler.go\<close>, and the translation of a receipt's message id in
  \<^verbatim>\<open>gateway/router.go\<close>.

  The receipt is parsed with three regular expressions. \<^verbatim>\<open>id:([^\s]+)\<close> and \<^verbatim>\<open>err:([^\s]+)\<close> are
  matched on bytes: the literal and the excluded blanks are ASCII, and no byte of a multi-byte
  or invalid sequence is ASCII. \<^verbatim>\<open>(?i)stat:([A-Za-z]{5,7})\<close> is matched on runes, because case
  folding lets two letters outside ASCII match (the long s and the Kelvin sign).
\<close>

section \<open>Text functions\<close>

definition is_space_rune :: "rune \<Rightarrow> bool" where
  "is_space_rune r \<longleftrightarrow> r \<in> {0x09, 0x0A, 0x0B, 0x0C, 0x0D, 0x20, 0x85, 0xA0, 0x1680, 0x2028, 0x2029,
     0x202F, 0x205F, 0x3000} \<or> (0x2000 \<le> r \<and> r \<le> 0x200A)"

definition TrimSpace :: "gostring \<Rightarrow> gostring" where
  "TrimSpace s =
     concat (map snd (rev (dropWhile (\<lambda>p. is_space_rune (fst p))
       (rev (dropWhile (\<lambda>p. is_space_rune (fst p)) (range_runes s))))))"

text \<open>\<^verbatim>\<open>\s\<close> of the regular expression syntax.\<close>

definition re_space :: "byte \<Rightarrow> bool" where
  "re_space b \<longleftrightarrow> b \<in> {0x09, 0x0A, 0x0C, 0x0D, 0x20}"

text \<open>
  The leftmost match of \<^verbatim>\<open>key([^\s]+)\<close>: the text before the match, the capture, and the text
  after it.
\<close>

fun find_field :: "gostring \<Rightarrow> gostring \<Rightarrow> (gostring \<times> gostring \<times> gostring) option" where
  "find_field key s =
     (if HasPrefix s key \<and> takeWhile (\<lambda>b. \<not> re_space b) (drop (length key) s) \<noteq> []
      then Some ([], takeWhile (\<lambda>b. \<not> re_space b) (drop (length key) s),
                 dropWhile (\<lambda>b. \<not> re_space b) (drop (length key) s))
      else case s of [] \<Rightarrow> None
      | b # s' \<Rightarrow> map_option (\<lambda>(pre, v, post). (b # pre, v, post)) (find_field key s'))"

declare find_field.simps [simp del]

text \<open>Case-insensitive comparison with a lower-case ASCII letter or a symbol.\<close>

definition fold_eq :: "rune \<Rightarrow> rune \<Rightarrow> bool" where
  "fold_eq p r \<longleftrightarrow> r = p \<or> (97 \<le> p \<and> p \<le> 122 \<and> (r = p - 32 \<or> p = 115 \<and> r = 0x17F \<or> p = 107 \<and> r = 0x212A))"

definition fold_letter :: "rune \<Rightarrow> bool" where
  "fold_letter r \<longleftrightarrow> (65 \<le> r \<and> r \<le> 90) \<or> (97 \<le> r \<and> r \<le> 122) \<or> r = 0x17F \<or> r = 0x212A"

definition upper_rune :: "rune \<Rightarrow> rune" where
  "upper_rune r = (if 97 \<le> r \<and> r \<le> 122 then r - 32 else if r = 0x17F then 0x53 else r)"

text \<open>The letters captured by \<^verbatim>\<open>stat:([A-Za-z]{5,7})\<close> at the start of the runes.\<close>

definition stat_at :: "rune list \<Rightarrow> rune list option" where
  "stat_at rs =
     (if 5 \<le> length rs \<and> list_all2 fold_eq [115, 116, 97, 116, 58] (take 5 rs) \<and>
         5 \<le> length (takeWhile fold_letter (take 7 (drop 5 rs)))
      then Some (takeWhile fold_letter (take 7 (drop 5 rs))) else None)"

fun find_stat :: "rune list \<Rightarrow> rune list option" where
  "find_stat [] = None"
| "find_stat (r # rs) = (case stat_at (r # rs) of Some v \<Rightarrow> Some v | None \<Rightarrow> find_stat rs)"

section \<open>Receipts\<close>

record DLRReceipt =
  dr_MessageID :: gostring
  dr_Status :: gostring
  dr_ErrorCode :: gostring

definition ParseDLRReceipt :: "gostring \<Rightarrow> DLRReceipt option" where
  "ParseDLRReceipt text =
     (let text = TrimSpace text in
      if text = [] then None
      else case find_field (lit ''id:'') text of
        None \<Rightarrow> None
      | Some (_, msgID, _) \<Rightarrow>
          Some \<lparr>dr_MessageID = msgID,
                dr_Status = (case find_stat (runes text) of
                    None \<Rightarrow> [] | Some v \<Rightarrow> string_of_runes (map upper_rune v)),
                dr_ErrorCode = (case find_field (lit ''err:'') text of
                    None \<Rightarrow> [] | Some (_, v, _) \<Rightarrow> v)\<rparr>)"

definition IsDLR :: "byte \<Rightarrow> bool" where
  "IsDLR esmClass \<longleftrightarrow> esmClass AND 0x04 \<noteq> 0"

text \<open>\<^verbatim>\<open>strings.Replace(s, old, new, 1)\<close> for a non-empty \<^verbatim>\<open>old\<close>.\<close>

fun replace_first :: "gostring \<Rightarrow> gostring \<Rightarrow> gostring \<Rightarrow> gostring" where
  "replace_first old new [] = []"
| "replace_first old new (b # s) =
     (if HasPrefix (b # s) old then new @ drop (length old) (b # s)
      else b # replace_first old new s)"

definition translateDLRMessageID :: "gostring \<Rightarrow> gostring \<Rightarrow> gostring \<Rightarrow> gostring" where
  "translateDLRMessageID receiptText smscMsgID gwMsgID =
     replace_first (lit ''id:'' @ smscMsgID) (lit ''id:'' @ gwMsgID) receiptText"

section \<open>The leftmost field\<close>

text \<open>A match of \<^verbatim>\<open>key[^\s]\<close> at the start of a text depends on as many bytes.\<close>

definition field_at :: "gostring \<Rightarrow> gostring \<Rightarrow> bool" where
  "field_at key s \<longleftrightarrow> (\<exists>c. take (length key + 1) s = key @ [c] \<and> \<not> re_space c)"

lemma field_at_iff:
  "field_at key s \<longleftrightarrow> HasPrefix s key \<and> takeWhile (\<lambda>b. \<not> re_space b) (drop (length key) s) \<noteq> []"
proof
  assume "field_at key s"
  then obtain c where c: "take (length key + 1) s = key @ [c]" "\<not> re_space c" by (auto simp: field_at_def)
  then have s: "s = key @ c # drop (length key + 1) s"
    using append_take_drop_id [of "length key + 1" s] by simp
  have "HasPrefix s key" "drop (length key) s = c # drop (length key + 1) s"
    by (subst s, simp add: HasPrefix_def) (subst s, simp)
  then show "HasPrefix s key \<and> takeWhile (\<lambda>b. \<not> re_space b) (drop (length key) s) \<noteq> []" using c by simp
next
  assume h: "HasPrefix s key \<and> takeWhile (\<lambda>b. \<not> re_space b) (drop (length key) s) \<noteq> []"
  then obtain t where t: "s = key @ t" by (auto simp: HasPrefix_iff)
  with h obtain c u where "t = c # u" "\<not> re_space c" by (cases t) (auto split: if_splits)
  then show "field_at key s" using t by (simp add: field_at_def)
qed

definition leftmost :: "gostring \<Rightarrow> gostring \<Rightarrow> gostring \<Rightarrow> bool" where
  "leftmost key pre s \<longleftrightarrow> (\<forall>i < length pre. \<not> field_at key (drop i s))"

lemma find_field_step:
  "find_field key s =
     (if field_at key s
      then Some ([], takeWhile (\<lambda>b. \<not> re_space b) (drop (length key) s),
                 dropWhile (\<lambda>b. \<not> re_space b) (drop (length key) s))
      else case s of [] \<Rightarrow> None
      | b # s' \<Rightarrow> map_option (\<lambda>(pre, v, post). (b # pre, v, post)) (find_field key s'))"
  by (subst find_field.simps) (simp only: field_at_iff)

lemma find_field_sound:
  "find_field key s = Some (pre, v, post) \<Longrightarrow>
   s = pre @ key @ v @ post \<and> v \<noteq> [] \<and> (\<forall>b \<in> set v. \<not> re_space b) \<and>
   (post = [] \<or> re_space (hd post)) \<and> leftmost key pre s"
proof (induction s arbitrary: pre)
  case Nil
  then show ?case
    by (auto simp: find_field_step [of key "[]"] field_at_def split: if_splits)
next
  case (Cons b s)
  show ?case
  proof (cases "field_at key (b # s)")
    case True
    then have h: "HasPrefix (b # s) key" "takeWhile (\<lambda>b. \<not> re_space b) (drop (length key) (b # s)) \<noteq> []"
      by (simp_all add: field_at_iff)
    have v: "pre = []" "v = takeWhile (\<lambda>b. \<not> re_space b) (drop (length key) (b # s))"
      "post = dropWhile (\<lambda>b. \<not> re_space b) (drop (length key) (b # s))"
      using Cons.prems True by (simp_all add: find_field_step [of key "b # s"])
    have "drop (length key) (b # s) = v @ post" by (simp only: v takeWhile_dropWhile_id)
    then have "b # s = key @ v @ post"
      using h(1) append_take_drop_id [of "length key" "b # s"] by (metis HasPrefix_def)
    moreover have "v \<noteq> []" unfolding v(2) by (rule h(2))
    moreover have "post = [] \<or> re_space (hd post)"
      unfolding v(3) using hd_dropWhile by blast
    moreover have "\<forall>b \<in> set v. \<not> re_space b" unfolding v(2) by (auto dest: set_takeWhileD)
    ultimately show ?thesis unfolding v(1) leftmost_def by simp
  next
    case False
    then obtain pre' where p: "pre = b # pre'" "find_field key s = Some (pre', v, post)"
      using Cons.prems by (auto simp: find_field_step [of key "b # s"])
    then show ?thesis
      using Cons.IH [OF p(2)] False by (auto simp: leftmost_def less_Suc_eq_0_disj)
  qed
qed

lemma find_field_complete:
  assumes "v \<noteq> []" and "\<forall>b \<in> set v. \<not> re_space b" and "post = [] \<or> re_space (hd post)"
  shows "leftmost key pre (pre @ key @ v @ post) \<Longrightarrow> find_field key (pre @ key @ v @ post) = Some (pre, v, post)"
proof (induction pre)
  case Nil
  obtain c v' where v: "v = c # v'" using assms(1) by (cases v) auto
  have "takeWhile (\<lambda>b. \<not> re_space b) (v @ post) = v \<and> dropWhile (\<lambda>b. \<not> re_space b) (v @ post) = post"
    using assms(2,3) by (cases post) (auto simp: takeWhile_append2 dropWhile_append2)
  moreover have "field_at key (key @ v @ post)" using assms(2) by (simp add: field_at_def v)
  ultimately show ?case by (simp add: find_field_step [of key "key @ v @ post"])
next
  case (Cons b pre)
  have "\<not> field_at key (b # pre @ key @ v @ post)" "leftmost key pre (pre @ key @ v @ post)"
    using Cons.prems unfolding leftmost_def by fastforce+
  then show ?case using Cons.IH by (simp add: find_field_step [of key "b # _"])
qed

text \<open>Changing the captured value keeps the leftmost match where it is.\<close>

lemma leftmost_replace:
  assumes "leftmost key pre (pre @ key @ x @ y)"
  shows "leftmost key pre (pre @ key @ x' @ y')"
  unfolding leftmost_def
proof (intro allI impI)
  fix i assume i: "i < length pre"
  have "take (length key + 1) (drop i (pre @ key @ z)) = take (length key + 1) (drop i (pre @ key))" for z
    using i by (simp flip: append_assoc)
  then show "\<not> field_at key (drop i (pre @ key @ x' @ y'))"
    using assms i unfolding leftmost_def field_at_def by metis
qed

section \<open>Trimming\<close>

abbreviation sp :: "rune \<times> bytes \<Rightarrow> bool" where
  "sp p \<equiv> is_space_rune (fst p)"

lemma trim_split:
  obtains L M R where "range_runes s = L @ M @ R" "list_all sp L" "list_all sp R"
    "M = [] \<or> \<not> sp (hd M) \<and> \<not> sp (last M)" "TrimSpace s = concat (map snd M)"
proof -
  let ?xs = "range_runes s"
  let ?ys = "dropWhile sp ?xs"
  define M where "M = rev (dropWhile sp (rev ?ys))"
  define R where "R = rev (takeWhile sp (rev ?ys))"
  have ys: "?ys = M @ R" unfolding M_def R_def by (metis rev_append rev_rev_ident takeWhile_dropWhile_id)
  then have xs: "?xs = takeWhile sp ?xs @ M @ R" by (metis takeWhile_dropWhile_id)
  have all: "list_all sp (takeWhile sp ?xs)" "list_all sp R"
    by (auto simp: R_def list_all_iff dest: set_takeWhileD)
  have t: "TrimSpace s = concat (map snd M)" by (simp add: TrimSpace_def M_def)
  have "\<not> sp (hd M) \<and> \<not> sp (last M)" if "M \<noteq> []"
  proof -
    have "\<not> sp (hd (dropWhile sp (rev ?ys)))" using that hd_dropWhile unfolding M_def by blast
    moreover have "hd ?ys = hd M" using ys that by simp
    moreover have "\<not> sp (hd ?ys)" using ys that by (intro hd_dropWhile) simp
    ultimately show ?thesis by (simp add: M_def last_rev)
  qed
  then show thesis using that xs all t by blast
qed

lemma trim_join:
  assumes "range_runes s = L @ M @ R" "list_all sp L" "list_all sp R" "M \<noteq> []" "\<not> sp (hd M)" "\<not> sp (last M)"
  shows "TrimSpace s = concat (map snd M)"
proof -
  have "dropWhile sp (L @ M @ R) = dropWhile sp (M @ R)"
    using assms(2) by (intro dropWhile_append2) (simp add: list_all_iff)
  also have "\<dots> = M @ R" using assms(4,5) by (cases M) simp_all
  finally have "dropWhile sp (L @ M @ R) = M @ R" .
  moreover have "dropWhile sp (rev (M @ R)) = rev M"
  proof -
    have "dropWhile sp (rev R @ rev M) = dropWhile sp (rev M)"
      using assms(3) by (intro dropWhile_append2) (simp add: list_all_iff)
    also have "\<dots> = rev M" using assms(4,6) by (cases M rule: rev_cases) auto
    finally show ?thesis by simp
  qed
  ultimately show ?thesis by (simp add: TrimSpace_def assms(1))
qed

lemma space_not_error: "is_space_rune r \<Longrightarrow> r \<noteq> RuneError"
  by (auto simp: is_space_rune_def)

lemma spaces_append:
  assumes "list_all sp L" and "set L \<subseteq> set (range_runes s)"
  shows "range_runes (concat (map snd L) @ y) = L @ range_runes y"
proof (rule range_runes_list_append)
  show "list_all (\<lambda>p. p \<in> set (range_runes s) \<and> fst p \<noteq> RuneError) L"
    using assms space_not_error by (fastforce simp: list_all_iff)
qed

lemma spaces_head:
  assumes "list_all sp R" and "set R \<subseteq> set (range_runes s)"
  shows "concat (map snd R) = [] \<or> \<not> is_cont (hd (concat (map snd R)))"
proof (cases R)
  case (Cons p R')
  obtain r bs where p: "p = (r, bs)" by (cases p)
  then have "bs \<noteq> []" "\<not> is_cont (hd bs)"
    using range_runes_ok_append [of r bs s] assms space_not_error [of r] by (simp_all add: Cons)
  then show ?thesis by (simp add: Cons p)
qed simp

lemma trim_parts:
  obtains L M R where "s = concat (map snd L) @ TrimSpace s @ concat (map snd R)"
    "list_all sp L" "list_all sp R" "range_runes (TrimSpace s) = M"
    "M = [] \<or> \<not> sp (hd M) \<and> \<not> sp (last M)" "set L \<subseteq> set (range_runes s)" "set R \<subseteq> set (range_runes s)"
proof -
  obtain L M R where lmr: "range_runes s = L @ M @ R" "list_all sp L" "list_all sp R"
    "M = [] \<or> \<not> sp (hd M) \<and> \<not> sp (last M)" "TrimSpace s = concat (map snd M)"
    by (rule trim_split)
  let ?c = "\<lambda>xs. concat (map snd xs)"
  have s: "s = ?c L @ ?c M @ ?c R" using concat_range_runes [of s] by (simp add: lmr(1))
  have sub: "set L \<subseteq> set (range_runes s)" "set R \<subseteq> set (range_runes s)" by (auto simp: lmr(1))
  have "L @ M @ R = L @ range_runes (?c M @ ?c R)"
    using spaces_append [OF lmr(2) sub(1), of "?c M @ ?c R"] s lmr(1) by metis
  also have "range_runes (?c M @ ?c R) = range_runes (?c M) @ range_runes (?c R)"
    by (rule range_runes_noncont [OF spaces_head [OF lmr(3) sub(2)]])
  also have "range_runes (?c R) = R" using spaces_append [OF lmr(3) sub(2), of "[]"] by simp
  finally have "range_runes (TrimSpace s) = M" by (simp add: lmr(5))
  then show thesis using that [of L R M] s lmr sub by simp
qed

section \<open>Translation\<close>

lemma replace_first_at:
  "old \<noteq> [] \<Longrightarrow> \<forall>i < length A. \<not> HasPrefix (drop i (A @ old @ C)) old \<Longrightarrow>
   replace_first old new (A @ old @ C) = A @ new @ C"
proof (induction A)
  case Nil
  then show ?case by (cases old) (simp_all add: HasPrefix_def)
next
  case (Cons b A)
  have "\<not> HasPrefix (b # A @ old @ C) old" using Cons.prems(2) by fastforce
  moreover have "\<forall>i < length A. \<not> HasPrefix (drop i (A @ old @ C)) old" using Cons.prems(2) by fastforce
  ultimately show ?case using Cons.IH [OF Cons.prems(1)] by simp
qed

text \<open>Printable ASCII without blanks: what the gateway's own message ids are made of.\<close>

definition graphic :: "gostring \<Rightarrow> bool" where
  "graphic s \<longleftrightarrow> s \<noteq> [] \<and> (\<forall>b \<in> set s. 0x21 \<le> unat b \<and> unat b < 0x7F)"

lemma graphic_runes: "graphic s \<Longrightarrow> range_runes s = map (\<lambda>b. (unat b, [b])) s"
  by (rule range_runes_ascii) (auto simp: graphic_def list_all_iff)

lemma ascii_noncont: "unat b < 128 \<Longrightarrow> \<not> is_cont b"
  by (auto simp: is_cont_def div_nat_eqI)

lemma graphic_not_space:
  assumes "0x21 \<le> unat (b :: byte)" and "unat b < 0x7F"
  shows "\<not> re_space b" "\<not> is_space_rune (unat b)" "\<not> is_cont b"
  using assms by (auto simp: re_space_def is_space_rune_def ascii_noncont)

definition id_key :: gostring where
  "id_key = lit ''id:''"

lemma id_key_eq: "id_key = [105, 100, 58]"
  by (simp add: id_key_def lit_def)

lemma id_runes: "range_runes (id_key @ y) = (105, [105]) # (100, [100]) # (58, [58]) # range_runes y"
  by (simp add: id_key_eq range_runes.simps(2) decode_rune_def)

lemma id_noncont: "\<not> is_cont (hd (id_key @ y))"
  by (simp add: id_key_eq is_cont_def)

lemma spaces_no_i:
  assumes "list_all sp L" and "set L \<subseteq> set (range_runes s)"
  shows "105 \<notin> set (concat (map snd L))"
proof
  assume "105 \<in> set (concat (map snd L))"
  then obtain r bs where p: "(r, bs) \<in> set L" "105 \<in> set bs" by auto
  then have "is_space_rune r" using assms(1) by (auto simp: list_all_iff)
  moreover have "r = unat (105 :: byte)"
    using range_runes_ascii_byte [of r bs s 105] p assms(2) space_not_error [OF \<open>is_space_rune r\<close>] by auto
  ultimately show False by (simp add: is_space_rune_def)
qed

text \<open>Where a receipt has its id, and what the translation makes of it.\<close>

lemma translate_shape:
  assumes "find_field id_key (TrimSpace text) = Some (pre, v, post)"
    and "text = l @ TrimSpace text @ t" and "105 \<notin> set l"
  shows "translateDLRMessageID text v gw = l @ (pre @ id_key @ gw @ post) @ t"
proof -
  note f = find_field_sound [OF assms(1)]
  obtain c v' where v: "v = c # v'" using f by (cases v) auto
  have c: "\<not> re_space c" using f v by simp
  have mid: "TrimSpace text = pre @ id_key @ v @ post" using f by blast
  have shape: "text = (l @ pre) @ (id_key @ v) @ post @ t"
    by (subst assms(2)) (simp add: mid)
  have "\<not> HasPrefix (drop i ((l @ pre) @ (id_key @ v) @ post @ t)) (id_key @ v)" if i: "i < length (l @ pre)" for i
  proof
    let ?T = "(l @ pre) @ (id_key @ v) @ post @ t"
    assume h: "HasPrefix (drop i ?T) (id_key @ v)"
    then obtain rest where r: "drop i ?T = id_key @ c # v' @ rest" by (auto simp: HasPrefix_iff v)
    show False
    proof (cases "i < length l")
      case True
      then have "drop i ?T = l ! i # drop (Suc i) l @ pre @ (id_key @ v) @ post @ t"
        by (simp add: Cons_nth_drop_Suc [symmetric])
      then have "l ! i = 105" using r by (simp add: id_key_eq)
      then show False using assms(3) True nth_mem by metis
    next
      case False
      let ?j = "i - length l"
      have j: "?j < length pre" using i False by simp
      let ?X = "pre @ id_key @ v @ post"
      have X: "?j \<le> length ?X" "4 \<le> length (drop ?j ?X)" using j by (simp_all add: id_key_eq v)
      have "drop i ?T = drop ?j ?X @ t" using False X(1) by simp
      then have "take 4 (drop ?j ?X @ t) = id_key @ [c]" using r by (simp add: id_key_eq)
      moreover have "take 4 (drop ?j ?X @ t) = take 4 (drop ?j ?X)"
        using X(2) by (simp only: take_append diff_is_0_eq' take_0 append_Nil2)
      ultimately have "take 4 (drop ?j ?X) = id_key @ [c]" by (simp only:)
      moreover have "length id_key + 1 = 4" by (simp add: id_key_eq)
      ultimately have "field_at id_key (drop ?j ?X)" using c unfolding field_at_def by metis
      then show False using f j by (auto simp: leftmost_def mid)
    qed
  qed
  then have "replace_first (id_key @ v) (id_key @ gw) ((l @ pre) @ (id_key @ v) @ post @ t) =
      (l @ pre) @ (id_key @ gw) @ post @ t"
    by (intro replace_first_at) (simp_all add: id_key_eq)
  then show ?thesis
    unfolding translateDLRMessageID_def id_key_def [symmetric] by (subst shape) simp
qed

lemma re_space_noncont: "re_space b \<Longrightarrow> \<not> is_cont b"
  by (auto simp: re_space_def is_cont_def)

lemma receipt_runes:
  assumes "post = [] \<or> re_space (hd post)"
  shows "range_runes (pre @ id_key @ v @ post) =
    range_runes pre @ [(105, [105]), (100, [100]), (58, [58])] @ range_runes v @ range_runes post"
proof -
  have "range_runes (pre @ id_key @ v @ post) = range_runes pre @ range_runes (id_key @ v @ post)"
    by (rule range_runes_noncont) (use id_noncont in blast)
  moreover have "range_runes (v @ post) = range_runes v @ range_runes post"
    by (rule range_runes_noncont) (use assms re_space_noncont in blast)
  ultimately show ?thesis by (simp add: id_runes)
qed

lemma trim_translated:
  assumes "list_all sp L" "list_all sp R" "set L \<subseteq> set (range_runes s)" "set R \<subseteq> set (range_runes s)"
    and "post = [] \<or> re_space (hd post)" and "graphic gw"
    and "\<not> sp (hd (range_runes (pre @ id_key @ v @ post)))" "\<not> sp (last (range_runes (pre @ id_key @ v @ post)))"
  shows "TrimSpace (concat (map snd L) @ (pre @ id_key @ gw @ post) @ concat (map snd R)) =
    pre @ id_key @ gw @ post"
proof -
  let ?c = "\<lambda>xs. concat (map snd xs)"
  let ?X = "pre @ id_key @ gw @ post"
  note rX = receipt_runes [OF assms(5), of pre gw] and rv = receipt_runes [OF assms(5), of pre v]
  have "range_runes (?c L @ ?X @ ?c R) = L @ range_runes (?X @ ?c R)"
    by (rule spaces_append [OF assms(1,3)])
  also have "range_runes (?X @ ?c R) = range_runes ?X @ range_runes (?c R)"
    by (rule range_runes_noncont [OF spaces_head [OF assms(2,4)]])
  also have "range_runes (?c R) = R" using spaces_append [OF assms(2,4), of "[]"] by simp
  finally have split: "range_runes (?c L @ ?X @ ?c R) = L @ range_runes ?X @ R" .
  have gw: "gw \<noteq> []" "range_runes gw = map (\<lambda>b. (unat b, [b])) gw"
    "0x21 \<le> unat (last gw)" "unat (last gw) < 0x7F"
    using assms(6) graphic_runes by (auto simp: graphic_def)
  have "\<not> sp (hd (range_runes ?X))"
    using assms(7) unfolding rX rv by (cases "range_runes pre") (simp_all add: is_space_rune_def)
  moreover have "\<not> sp (last (range_runes ?X))"
  proof (cases "range_runes post = []")
    case True
    then show ?thesis unfolding rX using gw graphic_not_space [of "last gw"] by (simp add: last_map)
  next
    case False
    then show ?thesis using assms(8) unfolding rX rv by simp
  qed
  moreover have "range_runes ?X \<noteq> []" unfolding rX by simp
  ultimately have "TrimSpace (?c L @ ?X @ ?c R) = ?c (range_runes ?X)"
    by (intro trim_join [OF split assms(1,2)])
  then show ?thesis by (simp only: concat_range_runes)
qed

section \<open>Properties\<close>

text \<open>
  C26. Translating a receipt gives a receipt for the gateway's id: if a receipt parses, then after
  replacing its message id by a gateway id the text parses again, and the message id found in
  it is the gateway id. The replacement always hits the field the parser reads, whatever the
  text around it.
\<close>

theorem translated_receipt_has_gateway_id:
  assumes "ParseDLRReceipt receipt_text = Some receipt" and "graphic gw"
  shows "\<exists>receipt'. ParseDLRReceipt (translateDLRMessageID receipt_text (dr_MessageID receipt) gw) = Some receipt' \<and>
    dr_MessageID receipt' = gw"
proof -
  let ?T = receipt_text
  obtain pre v post where ff: "find_field id_key (TrimSpace ?T) = Some (pre, v, post)" and id: "dr_MessageID receipt = v"
    using assms(1) by (auto simp: ParseDLRReceipt_def Let_def id_key_def split: if_splits option.splits)
  note f = find_field_sound [OF ff]
  have mid: "TrimSpace ?T = pre @ id_key @ v @ post" and post: "post = [] \<or> re_space (hd post)"
    using f by blast+
  obtain L M R where p: "?T = concat (map snd L) @ TrimSpace ?T @ concat (map snd R)"
    "list_all sp L" "list_all sp R" "range_runes (TrimSpace ?T) = M"
    "M = [] \<or> \<not> sp (hd M) \<and> \<not> sp (last M)" "set L \<subseteq> set (range_runes ?T)" "set R \<subseteq> set (range_runes ?T)"
    by (rule trim_parts)
  have M: "M = range_runes (pre @ id_key @ v @ post)" using p(4) by (simp only: mid)
  then have "M \<noteq> []" by (simp add: receipt_runes [OF post])
  then have ends: "\<not> sp (hd (range_runes (pre @ id_key @ v @ post)))" "\<not> sp (last (range_runes (pre @ id_key @ v @ post)))"
    using p(5) M by blast+
  let ?X = "pre @ id_key @ gw @ post"
  have "translateDLRMessageID ?T v gw = concat (map snd L) @ ?X @ concat (map snd R)"
    by (rule translate_shape [OF ff p(1) spaces_no_i [OF p(2,6)]])
  then have trim: "TrimSpace (translateDLRMessageID ?T v gw) = ?X"
    using trim_translated [OF p(2,3,6,7) post assms(2) ends] by simp
  have "find_field id_key ?X = Some (pre, gw, post)"
  proof (rule find_field_complete)
    show "gw \<noteq> []" "\<forall>b \<in> set gw. \<not> re_space b"
      using assms(2) graphic_not_space by (auto simp: graphic_def)
    show "leftmost id_key pre ?X" using f leftmost_replace mid by metis
  qed (rule post)
  then show ?thesis
    unfolding ParseDLRReceipt_def Let_def trim id id_key_def [symmetric] by (simp add: id_key_eq)
qed

theorem translated_receipt_has_gateway_id_witness:
  "\<exists>receipt'. ParseDLRReceipt (translateDLRMessageID (lit ''id:7f stat:DELIVRD'') (lit ''7f'') (lit ''GW-1'')) =
      Some receipt' \<and> dr_MessageID receipt' = lit ''GW-1''"
proof -
  let ?t = "lit ''id:7f stat:DELIVRD''"
  have r: "range_runes ?t = map (\<lambda>b. (unat b, [b])) ?t"
    by (rule range_runes_ascii) (simp add: lit_def)
  have t: "TrimSpace ?t = ?t" by (simp add: TrimSpace_def r) (simp add: lit_def is_space_rune_def)
  have f: "find_field (lit ''id:'') ?t = Some ([], lit ''7f'', lit '' stat:DELIVRD'')"
    by (simp add: find_field.simps HasPrefix_def lit_def re_space_def)
  obtain rc where "ParseDLRReceipt ?t = Some rc" "dr_MessageID rc = lit ''7f''"
    unfolding ParseDLRReceipt_def Let_def t f by (simp add: lit_def)
  moreover have "graphic (lit ''GW-1'')" by (simp add: graphic_def lit_def)
  ultimately show ?thesis using translated_receipt_has_gateway_id [of ?t rc "lit ''GW-1''"] by simp
qed

end
