(* ===== verification/Router_State.thy ===== *)
theory Router_State
  imports Server Shard_Map Dlr Store_Scan
begin

text \<open>
  The state of the router (\<^verbatim>\<open>gateway/router.go\<close>), its construction, and the steps its operations share: message
  ids, store writes, delivery to a session with the reconnect grace period, and the HTTP callbacks of
  \<^verbatim>\<open>gateway/callback.go\<close>.

  The world outside the process answers through the record \<open>env\<close>. The router calls the southbound pools through
  the Go interface \<^verbatim>\<open>Submitter\<close>: \<open>e_submit\<close> is what the \<open>n\<close>-th \<^verbatim>\<open>SubmitRaw\<close> call returns, \<open>e_live\<close> the
  number of bound connections of a pool. \<open>e_post\<close> is the status code of the \<open>n\<close>-th HTTP POST, if there is a
  response, \<open>e_ack\<close> the engine's answer to the \<open>n\<close>-th deliver\_sm. The calls made are recorded in the state, so that
  theorems can speak about what was sent. Every theorem holds for all such answers. Prometheus metrics, traces
  and logs have no effect on the state and are left out; one operation reads the clock once, as \<open>now\<close>.
\<close>

section \<open>State\<close>

record correlation =
  co_GwMsgID :: gostring
  co_NorthConnID :: gostring
  co_MSISDN :: gostring
  co_SubmittedAt :: Time

record forwardTask =
  ft_conn :: "conn_ptr option"
  ft_gwMsgID :: gostring
  ft_destAddr :: gostring
  ft_sourceAddr :: gostring
  ft_rawBody :: bytes

record DLRCallbackPayload =
  dc_Event :: gostring
  dc_ID :: gostring
  dc_Status :: gostring
  dc_To :: gostring
  dc_From :: gostring
  dc_Reference :: gostring
  dc_Timestamp :: Time

record MOCallbackPayload =
  mc_Event :: gostring
  mc_From :: gostring
  mc_To :: gostring
  mc_Body :: gostring
  mc_Timestamp :: Time

datatype callback_payload = DLRPayload DLRCallbackPayload | MOPayload MOCallbackPayload

text \<open>\<^verbatim>\<open>SubmitRaw\<close> returns an error, a response that carries an error, or the message id of the SMSC.\<close>

datatype submit_result = SubmitError | SubmitRejected | Submitted gostring

record ('d, 'p) env =
  e_pebble :: "'d pebble"
  e_ord :: "gostring fset \<Rightarrow> gostring list"
  e_live :: "'p \<Rightarrow> nat"
  e_submit :: "nat \<Rightarrow> 'p Submitter \<Rightarrow> bytes \<Rightarrow> submit_result"
  e_post :: "nat \<Rightarrow> gostring \<Rightarrow> callback_payload \<Rightarrow> nat option"
  e_ack :: "nat \<Rightarrow> ack"

record ('d, 'p) Router =
  r_server :: Server
  r_southbound :: "'p Submitter option"
  r_poolManager :: "'p PoolManager option"
  r_mtRoutes :: MTRouteTable
  r_moRoutes :: MORouteTable
  r_msisdnAffinity :: "gostring ShardMap"
  r_smscCorrelation :: "correlation ShardMap"
  r_gwCorrelation :: "correlation ShardMap"
  r_store :: "'d MessageStore option"
  r_msgSeq :: uint64
  r_reconnectGrace :: int
  r_forwardCh :: "forwardTask list"
  r_queueSize :: int
  r_rateLimitTPS :: int
  r_maxSubmitRetries :: int
  r_retryDrainLimit :: int
  r_submitRetryDrainLimit :: int
  r_blacklist :: "unit ShardMap"
  r_totalSubmits :: uint64
  r_totalDLRs :: uint64
  r_totalMO :: uint64
  r_totalForwarded :: uint64
  r_totalThrottled :: uint64
  r_sent :: "('p Submitter \<times> bytes) list"
  r_posts :: "(gostring \<times> callback_payload) list"
  r_delivers :: "(gostring \<times> bytes) list"

section \<open>Construction\<close>

text \<open>
  The lines a \<^verbatim>\<open>bufio.Scanner\<close> returns: split at line feeds, without a trailing carriage return; a line of
  64 KiB or more ends the scan with an error.
\<close>

function scan_lines :: "bytes \<Rightarrow> gostring list \<times> bool" where
  "scan_lines data =
     (if data = [] then ([], True)
      else
        let line = takeWhile (\<lambda>b. b \<noteq> 10) data in
        if 65536 \<le> length line then ([], False)
        else
          let (ls, ok) = scan_lines (drop (length line + 1) data);
              line = (if line \<noteq> [] \<and> last line = 13 then butlast line else line)
          in (line # ls, ok))"
  by pat_completeness auto
termination
  by (relation "measure length") auto

declare scan_lines.simps [simp del]

text \<open>The file is \<open>None\<close> when it cannot be opened; the result is the number of entries and whether there was no error.\<close>

definition blacklist_line :: "gostring \<Rightarrow> bool" where
  "blacklist_line l \<longleftrightarrow> l \<noteq> [] \<and> \<not> HasPrefix l (lit ''#'')"

definition LoadBlacklist :: "bytes option \<Rightarrow> ('d, 'p) Router \<Rightarrow> ('d, 'p) Router \<times> nat \<times> bool" where
  "LoadBlacklist file r =
     (case file of
        None \<Rightarrow> (r, 0, False)
      | Some data \<Rightarrow>
          (let (ls, ok) = scan_lines data; entries = filter blacklist_line (map TrimSpace ls)
           in (r\<lparr>r_blacklist := foldl (\<lambda>m l. Set m l ()) (r_blacklist r) entries\<rparr>, length entries, ok)))"

record RouterConfig =
  cf_ForwardQueueSize :: int
  cf_ReconnectGraceSec :: int
  cf_RateLimitTPS :: int
  cf_MaxSubmitRetries :: int
  cf_RetryDrainLimit :: int
  cf_SubmitRetryDrainLimit :: int
  cf_BlacklistFile :: gostring

text \<open>\<open>files\<close> reads a file; server and pools are set afterwards.\<close>

definition NewRouter :: "(gostring \<Rightarrow> bytes option) \<Rightarrow> Server \<Rightarrow> 'd MessageStore option \<Rightarrow> RouterConfig \<Rightarrow> ('d, 'p) Router" where
  "NewRouter files server store cfg =
     (let queueSize = (if cf_ForwardQueueSize cfg \<le> 0 then 10000 else cf_ForwardQueueSize cfg);
          r = \<lparr>r_server = server, r_southbound = None, r_poolManager = None, r_mtRoutes = NewMTRouteTable,
               r_moRoutes = NewMORouteTable, r_msisdnAffinity = NewShardMap, r_smscCorrelation = NewShardMap,
               r_gwCorrelation = NewShardMap, r_store = store, r_msgSeq = 0,
               r_reconnectGrace = cf_ReconnectGraceSec cfg * second, r_forwardCh = [], r_queueSize = queueSize,
               r_rateLimitTPS = cf_RateLimitTPS cfg, r_maxSubmitRetries = cf_MaxSubmitRetries cfg,
               r_retryDrainLimit = (if cf_RetryDrainLimit cfg \<le> 0 then 200 else cf_RetryDrainLimit cfg),
               r_submitRetryDrainLimit = (if cf_SubmitRetryDrainLimit cfg \<le> 0 then 100 else cf_SubmitRetryDrainLimit cfg),
               r_blacklist = NewShardMap, r_totalSubmits = 0, r_totalDLRs = 0, r_totalMO = 0, r_totalForwarded = 0,
               r_totalThrottled = 0, r_sent = [], r_posts = [], r_delivers = []\<rparr>
      in if cf_BlacklistFile cfg \<noteq> [] then fst (LoadBlacklist (files (cf_BlacklistFile cfg)) r) else r)"

definition SetServer :: "Server \<Rightarrow> ('d, 'p) Router \<Rightarrow> ('d, 'p) Router" where
  "SetServer s r = r\<lparr>r_server := s\<rparr>"

definition SetSouthbound :: "'p \<Rightarrow> ('d, 'p) Router \<Rightarrow> ('d, 'p) Router" where
  "SetSouthbound pool r = r\<lparr>r_southbound := Some (NewSMPPSubmitter pool)\<rparr>"

definition SetSouthboundSubmitter :: "'p Submitter option \<Rightarrow> ('d, 'p) Router \<Rightarrow> ('d, 'p) Router" where
  "SetSouthboundSubmitter s r = r\<lparr>r_southbound := s\<rparr>"

definition SetPoolManager :: "'p PoolManager option \<Rightarrow> ('d, 'p) Router \<Rightarrow> ('d, 'p) Router" where
  "SetPoolManager pm r = r\<lparr>r_poolManager := pm\<rparr>"

definition SetMTRoutes :: "MTRoute list \<Rightarrow> ('d, 'p) Router \<Rightarrow> ('d, 'p) Router" where
  "SetMTRoutes routes r = r\<lparr>r_mtRoutes := foldl AddRoute (r_mtRoutes r) routes\<rparr>"

definition SetMORoutes :: "MORoute list \<Rightarrow> ('d, 'p) Router \<Rightarrow> ('d, 'p) Router" where
  "SetMORoutes routes r = r\<lparr>r_moRoutes := foldl MO_AddRoute (r_moRoutes r) routes\<rparr>"

section \<open>Shared steps\<close>

definition nextMsgID :: "('d, 'p) Router \<Rightarrow> ('d, 'p) Router \<times> gostring" where
  "nextMsgID r = (let n = r_msgSeq r + 1 in (r\<lparr>r_msgSeq := n\<rparr>, lit ''GW-'' @ dec (unat n)))"

text \<open>\<^verbatim>\<open>if r.store != nil { _ = r.store.Op(...) }\<close>.\<close>

definition with_store :: "('d MessageStore \<Rightarrow> 'd MessageStore \<times> 'e) \<Rightarrow> ('d, 'p) Router \<Rightarrow> ('d, 'p) Router" where
  "with_store f r = (case r_store r of None \<Rightarrow> r | Some s \<Rightarrow> r\<lparr>r_store := Some (fst (f s))\<rparr>)"

text \<open>\<^verbatim>\<open>r.server.DeliverToConn\<close>; the flag says that the error is nil.\<close>

definition deliver :: "('d, 'p) env \<Rightarrow> gostring \<Rightarrow> bytes \<Rightarrow> ('d, 'p) Router \<Rightarrow> (('d, 'p) Router \<times> bool) go" where
  "deliver E connID body r = do {
     (s, _, err) \<leftarrow> DeliverToConn (e_ack E (length (r_delivers r))) connID body (r_server r);
     Some (r\<lparr>r_server := s, r_delivers := r_delivers r @ [(connID, body)]\<rparr>, err = None)
   }"

definition deliverWithGrace :: "('d, 'p) env \<Rightarrow> Time \<Rightarrow> gostring \<Rightarrow> bytes \<Rightarrow> gostring \<Rightarrow> byte \<Rightarrow> gostring \<Rightarrow> gostring \<Rightarrow>
    gostring \<Rightarrow> bool \<Rightarrow> ('d, 'p) Router \<Rightarrow> (('d, 'p) Router \<times> bool) go" where
  "deliverWithGrace E now connID body msisdn esmClass sourceAddr destAddr retryID isDLR r = do {
     (r, ok) \<leftarrow> deliver E connID body r;
     if ok then Some (r, True) else do {
     let withinGrace = (case DisconnectedAt (r_server r) connID of
           None \<Rightarrow> False | Some disconnectTime \<Rightarrow> now - disconnectTime < r_reconnectGrace r);
     let buffer = with_store (\<lambda>s. EnqueueRetry (e_pebble E) s retryID
           \<lparr>pd_TargetConnID = connID, pd_MSISDN = msisdn, pd_PDUBody = body, pd_ESMClass = esmClass,
            pd_SourceAddr = sourceAddr, pd_DestAddr = destAddr, pd_EnqueuedAt = now\<rparr>);
     if withinGrace then Some (buffer r, False) else do {
     (r, ok) \<leftarrow> (if \<not> isDLR then
         (let fallbackID = RoundRobinConnID (e_ord E) (r_server r) in
          if fallbackID \<noteq> [] then deliver E fallbackID body r else Some (r, False))
       else Some (r, False));
     if ok then Some (r, True) else Some (buffer r, False)
     }}
   }"

section \<open>Callbacks\<close>

fun as_callback :: "dbval \<Rightarrow> CallbackRecord option" where
  "as_callback (VCallback c) = Some c"
| "as_callback _ = None"

definition callback_key :: "gostring \<Rightarrow> gostring" where "callback_key i = lit ''callback:'' @ i"

definition callback_retry_key :: "Time \<Rightarrow> gostring \<Rightarrow> gostring" where
  "callback_retry_key t i = lit ''callback-retry:'' @ dec_int t @ lit '':'' @ i"

definition postCallback :: "('d, 'p) env \<Rightarrow> gostring \<Rightarrow> callback_payload \<Rightarrow> ('d, 'p) Router \<Rightarrow> ('d, 'p) Router \<times> bool" where
  "postCallback E url payload r =
     (r\<lparr>r_posts := r_posts r @ [(url, payload)]\<rparr>,
      case e_post E (length (r_posts r)) url payload of None \<Rightarrow> False | Some status \<Rightarrow> 200 \<le> status \<and> status < 300)"

text \<open>The backoff table is indexed with the retry counter of the record, with Go's bounds check.\<close>

definition delays :: "int list" where
  "delays = [5 * second, 30 * second, 180 * second]"

definition enqueueCallbackRetry :: "('d, 'p) env \<Rightarrow> Time \<Rightarrow> gostring \<Rightarrow> CallbackRecord \<Rightarrow> ('d, 'p) Router \<Rightarrow> ('d, 'p) Router go" where
  "enqueueCallbackRetry E now gwMsgID cb r =
     (if 3 \<le> cb_Retries cb then Some (with_store (\<lambda>s. DeleteKey (e_pebble E) s (callback_key gwMsgID)) r)
      else if cb_Retries cb < 0 then None
      else
        let delay = delays ! nat (cb_Retries cb);
            cb = cb\<lparr>cb_Retries := cb_Retries cb + 1, cb_NextAttempt := now + delay\<rparr>;
            r = with_store (\<lambda>s. SetJSON (e_pebble E) s (callback_retry_key (cb_NextAttempt cb) gwMsgID) (marshal_CallbackRecord cb)) r
        in Some (with_store (\<lambda>s. SetJSON (e_pebble E) s (callback_key gwMsgID) (marshal_CallbackRecord cb)) r))"

definition deliverDLRCallback :: "('d, 'p) env \<Rightarrow> Time \<Rightarrow> gostring \<Rightarrow> gostring \<Rightarrow> gostring \<Rightarrow> gostring \<Rightarrow>
    ('d, 'p) Router \<Rightarrow> ('d, 'p) Router go" where
  "deliverDLRCallback E now gwMsgID status destAddr sourceAddr r =
     (case r_store r of
        None \<Rightarrow> Some r
      | Some s \<Rightarrow>
          (case GetJSON (e_pebble E) s (callback_key gwMsgID) as_callback of
             Inl _ \<Rightarrow> Some r
           | Inr cb \<Rightarrow>
               (let payload = \<lparr>dc_Event = lit ''dlr'', dc_ID = gwMsgID, dc_Status = status, dc_To = destAddr,
                      dc_From = sourceAddr, dc_Reference = cb_Reference cb, dc_Timestamp = now\<rparr>;
                    (r, ok) = postCallback E (cb_CallbackURL cb) (DLRPayload payload) r
                in if \<not> ok then enqueueCallbackRetry E now gwMsgID cb r
                   else Some (with_store (\<lambda>s. DeleteKey (e_pebble E) s (callback_key gwMsgID)) r))))"

definition deliverMOCallback :: "('d, 'p) env \<Rightarrow> Time \<Rightarrow> gostring \<Rightarrow> gostring \<Rightarrow> gostring \<Rightarrow> bytes \<Rightarrow> ('d, 'p) Router \<Rightarrow>
    ('d, 'p) Router" where
  "deliverMOCallback E now callbackURL sourceAddr destAddr payload r =
     fst (postCallback E callbackURL (MOPayload \<lparr>mc_Event = lit ''mo'', mc_From = sourceAddr, mc_To = destAddr,
       mc_Body = payload, mc_Timestamp = now\<rparr>) r)"

text \<open>\<^verbatim>\<open>drainCallbackRetries\<close>: collect the due entries, then process them one by one.\<close>

definition collect_due :: "Time \<Rightarrow> gostring \<Rightarrow> dbval \<Rightarrow> (gostring \<times> CallbackRecord) list \<Rightarrow>
    store_error + (gostring \<times> CallbackRecord) list" where
  "collect_due now key data toProcess =
     (case as_callback data of
        None \<Rightarrow> Inr toProcess
      | Some cb \<Rightarrow> Inr (if cb_NextAttempt cb < now then toProcess @ [(key, cb)] else toProcess))"

definition process_callback :: "('d, 'p) env \<Rightarrow> Time \<Rightarrow> gostring \<times> CallbackRecord \<Rightarrow> ('d, 'p) Router \<Rightarrow> ('d, 'p) Router go" where
  "process_callback E now item r =
     (let r = with_store (\<lambda>s. DeleteKey (e_pebble E) s (fst item)) r in
      case r_store r of
        None \<Rightarrow> Some r
      | Some s \<Rightarrow>
          (case GetJSON (e_pebble E) s (callback_key (cb_GwMsgID (snd item))) as_callback of
             Inl _ \<Rightarrow> Some r
           | Inr cb \<Rightarrow>
               (let payload = \<lparr>dc_Event = lit ''dlr'', dc_ID = cb_GwMsgID cb, dc_Status = lit ''DELIVRD'', dc_To = [],
                      dc_From = [], dc_Reference = cb_Reference cb, dc_Timestamp = now\<rparr>;
                    (r, ok) = postCallback E (cb_CallbackURL cb) (DLRPayload payload) r
                in if \<not> ok then enqueueCallbackRetry E now (cb_GwMsgID cb) cb r
                   else Some (with_store (\<lambda>s. DeleteKey (e_pebble E) s (callback_key (cb_GwMsgID cb))) r))))"

fun process_callbacks :: "('d, 'p) env \<Rightarrow> Time \<Rightarrow> (gostring \<times> CallbackRecord) list \<Rightarrow> ('d, 'p) Router \<Rightarrow> ('d, 'p) Router go" where
  "process_callbacks E now [] r = Some r"
| "process_callbacks E now (item # items) r = do { r \<leftarrow> process_callback E now item r; process_callbacks E now items r }"

text \<open>The loop that calls it returns at once when there is no store.\<close>

definition drainCallbackRetries :: "('d, 'p) env \<Rightarrow> Time \<Rightarrow> ('d, 'p) Router \<Rightarrow> ('d, 'p) Router go" where
  "drainCallbackRetries E now r =
     (case r_store r of
        None \<Rightarrow> Some r
      | Some s \<Rightarrow>
          process_callbacks E now (fst (ScanPrefix (e_pebble E) s (lit ''callback-retry:'') (collect_due now) [])) r)"

end
