(* ===== verification/Router.thy ===== *)
theory Router
  imports Router_State
begin

text \<open>
  The routing operations of \<^verbatim>\<open>gateway/router.go\<close>: submits from engines, forwarding to the southbound pools,
  receipts and mobile-originated messages from below, and the retry loops.
\<close>

section \<open>Giving up on a submit\<close>

definition synthetic_receipt :: "gostring \<Rightarrow> gostring" where
  "synthetic_receipt gwMsgID = lit ''id:'' @ gwMsgID @
     lit '' sub:001 dlvrd:000 submit date:0000000000 done date:0000000000 stat:UNDELIV err:001 text:''"

definition mark_failed :: "MessageLogEntry \<Rightarrow> MessageLogEntry" where
  "mark_failed e = e\<lparr>ml_Status := lit ''failed'', ml_DLRStatus := lit ''UNDELIV''\<rparr>"

abbreviation rest_api :: gostring where "rest_api \<equiv> lit ''rest-api''"

definition sendSyntheticDLR :: "('d, 'p) env \<Rightarrow> Time \<Rightarrow> gostring \<Rightarrow> gostring \<Rightarrow> gostring \<Rightarrow> gostring \<Rightarrow> ('d, 'p) Router \<Rightarrow>
    ('d, 'p) Router go" where
  "sendSyntheticDLR E now connID gwMsgID destAddr sourceAddr r = do {
     let receipt = synthetic_receipt gwMsgID;
     let r = with_store (\<lambda>s. UpdateMessageLog (e_pebble E) s now gwMsgID mark_failed) r;
     if connID = rest_api then do {
       let r = with_store (\<lambda>s. SetMessageStatus (e_pebble E) s
             \<lparr>ms_GwMsgID = gwMsgID, ms_To = destAddr, ms_From = sourceAddr, ms_Reference = [], ms_Status = lit ''failed'',
              ms_DLRStatus = lit ''UNDELIV'', ms_SmscMsgID = [], ms_UpdatedAt = now\<rparr>) r;
       r \<leftarrow> deliverDLRCallback E now gwMsgID (lit ''UNDELIV'') destAddr sourceAddr r;
       Some (r\<lparr>r_gwCorrelation := Delete (r_gwCorrelation r) gwMsgID\<rparr>)
     } else do {
       let body = BuildDeliverSMBody sourceAddr destAddr 0x04 receipt;
       (r, _) \<leftarrow> deliverWithGrace E now connID body destAddr 0x04 sourceAddr destAddr (lit ''synth-'' @ gwMsgID) True r;
       Some (r\<lparr>r_gwCorrelation := Delete (r_gwCorrelation r) gwMsgID\<rparr>)
     }
   }"

definition enqueueSubmitRetryOrFail :: "('d, 'p) env \<Rightarrow> Time \<Rightarrow> gostring \<Rightarrow> gostring \<Rightarrow> gostring \<Rightarrow> gostring \<Rightarrow> bytes \<Rightarrow> int \<Rightarrow>
    ('d, 'p) Router \<Rightarrow> ('d, 'p) Router go" where
  "enqueueSubmitRetryOrFail E now gwMsgID connID destAddr sourceAddr rawBody retries r =
     (if 0 < r_maxSubmitRetries r \<and> retries < r_maxSubmitRetries r \<and> r_store r \<noteq> None
      then Some (with_store (\<lambda>s. EnqueueSubmitRetry (e_pebble E) s
             \<lparr>ps_GwMsgID = gwMsgID, ps_ConnID = connID, ps_MSISDN = destAddr, ps_SourceAddr = sourceAddr,
              ps_RawBody = rawBody, ps_RetryCount = retries + 1, ps_EnqueuedAt = now\<rparr>) r)
      else sendSyntheticDLR E now connID gwMsgID destAddr sourceAddr r)"

section \<open>Submits\<close>

text \<open>The source address policy of an account: \<open>None\<close> rejects, otherwise the body to forward and its source.\<close>

definition source_policy :: "ConnectionConfig option \<Rightarrow> bytes \<Rightarrow> gostring \<Rightarrow> (bytes \<times> gostring) option go" where
  "source_policy cfg body sourceAddr =
     (case cfg of
        None \<Rightarrow> Some (Some (body, sourceAddr))
      | Some cfg \<Rightarrow>
          if cc_SourceAddrMode cfg = SourceAddrModeOverride then
            (if cc_ForceSourceAddr cfg \<noteq> [] then do {
               body \<leftarrow> RewriteSubmitSMSource body (cc_ForceSourceAddr cfg) (cc_ForceSourceTON cfg) (cc_ForceSourceNPI cfg);
               Some (Some (body, cc_ForceSourceAddr cfg))
             } else Some (Some (body, sourceAddr)))
          else if cc_SourceAddrMode cfg = SourceAddrModeDefault then
            (if sourceAddr = [] \<and> cc_DefaultSourceAddr cfg \<noteq> [] then do {
               body \<leftarrow> RewriteSubmitSMSource body (cc_DefaultSourceAddr cfg) (cc_DefaultSourceTON cfg) (cc_DefaultSourceNPI cfg);
               Some (Some (body, cc_DefaultSourceAddr cfg))
             } else Some (Some (body, sourceAddr)))
          else if cc_SourceAddrMode cfg = SourceAddrModeWhitelist then
            Some (if cc_AllowedSourceAddrs cfg \<noteq> [] \<and> sourceAddr \<notin> set (cc_AllowedSourceAddrs cfg) then None
                  else Some (body, sourceAddr))
          else Some (Some (body, sourceAddr)))"

definition TrimPrefix :: "gostring \<Rightarrow> gostring \<Rightarrow> gostring" where
  "TrimPrefix s p = (if HasPrefix s p then drop (length p) s else s)"

definition prefix_blocked :: "ConnectionConfig option \<Rightarrow> gostring \<Rightarrow> bool" where
  "prefix_blocked cfg destAddr =
     (case cfg of
        None \<Rightarrow> False
      | Some cfg \<Rightarrow> cc_AllowedPrefixes cfg \<noteq> [] \<and>
          \<not> list_ex (HasPrefix (TrimPrefix destAddr (lit ''+''))) (cc_AllowedPrefixes cfg))"

definition effectiveTPS :: "ConnectionConfig option \<Rightarrow> ('d, 'p) Router \<Rightarrow> int" where
  "effectiveTPS cfg r =
     (case cfg of
        None \<Rightarrow> r_rateLimitTPS r
      | Some cfg \<Rightarrow> if 0 < cc_MaxTPS cfg then cc_MaxTPS cfg else r_rateLimitTPS r)"

text \<open>A log entry as the router creates it; the store sets the times.\<close>

definition log_entry :: "gostring \<Rightarrow> gostring \<Rightarrow> gostring \<Rightarrow> gostring \<Rightarrow> gostring \<Rightarrow> MessageLogEntry" where
  "log_entry gwMsgID connID sourceAddr destAddr status =
     \<lparr>ml_GwMsgID = gwMsgID, ml_SmscMsgID = [], ml_ConnID = connID, ml_SourceAddr = sourceAddr, ml_DestAddr = destAddr,
      ml_Status = status, ml_DLRStatus = [], ml_Cost = 0, ml_CreatedAt = zero_time, ml_UpdatedAt = zero_time\<rparr>"

definition log_rejected :: "('d, 'p) env \<Rightarrow> Time \<Rightarrow> gostring \<Rightarrow> gostring \<Rightarrow> gostring \<Rightarrow> ('d, 'p) Router \<Rightarrow> ('d, 'p) Router" where
  "log_rejected E now connID sourceAddr destAddr r =
     (case r_store r of
        None \<Rightarrow> r
      | Some _ \<Rightarrow>
          (let n = r_msgSeq r + 1 in
           with_store (\<lambda>s. LogMessage (e_pebble E) s now
             (log_entry (lit ''rejected-'' @ dec (unat n)) connID sourceAddr destAddr (lit ''rejected''))) (r\<lparr>r_msgSeq := n\<rparr>)))"

definition map_server :: "(Server \<Rightarrow> Server) \<Rightarrow> ('d, 'p) Router \<Rightarrow> ('d, 'p) Router" where
  "map_server f r = r\<lparr>r_server := f (r_server r)\<rparr>"

text \<open>\<^verbatim>\<open>if c != nil { _ = c.SendSubmitSMResp(...) }\<close>.\<close>

definition submit_resp :: "conn_ptr option \<Rightarrow> uint32 \<Rightarrow> uint32 \<Rightarrow> gostring \<Rightarrow> ('d, 'p) Router \<Rightarrow> ('d, 'p) Router go" where
  "submit_resp c seqNum status messageID r =
     (case c of
        None \<Rightarrow> Some r
      | Some p \<Rightarrow> do {
          (c, _) \<leftarrow> SendSubmitSMResp (deref (r_server r) p) seqNum status messageID;
          Some (map_server (put_conn p c) r)
        })"

definition in_flight :: "conn_ptr option \<Rightarrow> 32 word \<Rightarrow> ('d, 'p) Router \<Rightarrow> ('d, 'p) Router" where
  "in_flight c delta r =
     (case c of None \<Rightarrow> r | Some p \<Rightarrow> map_server (map_conn p (\<lambda>c. InFlightAdd c delta)) r)"

definition reject_submit :: "('d, 'p) env \<Rightarrow> Time \<Rightarrow> gostring \<Rightarrow> conn_ptr option \<Rightarrow> uint32 \<Rightarrow> gostring \<Rightarrow> gostring \<Rightarrow> uint32 \<Rightarrow>
    ('d, 'p) Router \<Rightarrow> ('d, 'p) Router go" where
  "reject_submit E now connID c seqNum sourceAddr destAddr status r =
     submit_resp c seqNum status [] (log_rejected E now connID sourceAddr destAddr r)"

text \<open>The non-blocking send to the forwarding channel; the flag says that the task was enqueued.\<close>

definition try_forward :: "forwardTask \<Rightarrow> ('d, 'p) Router \<Rightarrow> ('d, 'p) Router \<times> bool" where
  "try_forward task r =
     (if int (length (r_forwardCh r)) < r_queueSize r then (r\<lparr>r_forwardCh := r_forwardCh r @ [task]\<rparr>, True) else (r, False))"

text \<open>\<^verbatim>\<open>HandleSubmit\<close> from the point where the submit is accepted.\<close>

definition accept_submit :: "('d, 'p) env \<Rightarrow> Time \<Rightarrow> gostring \<Rightarrow> conn_ptr option \<Rightarrow> uint32 \<Rightarrow> gostring \<Rightarrow> gostring \<Rightarrow> bytes \<Rightarrow>
    ('d, 'p) Router \<Rightarrow> ('d, 'p) Router go" where
  "accept_submit E now connID c seqNum sourceAddr destAddr body r = do {
     let r = (if destAddr \<noteq> [] then r\<lparr>r_msisdnAffinity := Set (r_msisdnAffinity r) destAddr connID\<rparr> else r);
     let (r, gwMsgID) = nextMsgID r;
     r \<leftarrow> submit_resp c seqNum StatusOK gwMsgID r;
     let r = r\<lparr>r_totalSubmits := r_totalSubmits r + 1\<rparr>;
     let corr = \<lparr>co_GwMsgID = gwMsgID, co_NorthConnID = connID, co_MSISDN = destAddr, co_SubmittedAt = now\<rparr>;
     let r = r\<lparr>r_gwCorrelation := Set (r_gwCorrelation r) gwMsgID corr\<rparr>;
     let r = with_store (\<lambda>s. StoreSubmit (e_pebble E) s
           \<lparr>sr_GwMsgID = gwMsgID, sr_SmscMsgID = [], sr_NorthConnID = connID, sr_OrigSeqNum = seqNum, sr_MSISDN = destAddr,
            sr_SourceAddr = sourceAddr, sr_Payload = body, sr_SubmittedAt = now\<rparr>) r;
     let r = with_store (\<lambda>s. LogMessage (e_pebble E) s now (log_entry gwMsgID connID sourceAddr destAddr (lit ''accepted''))) r;
     let r = in_flight c 1 r;
     let (r, enqueued) = try_forward \<lparr>ft_conn = c, ft_gwMsgID = gwMsgID, ft_destAddr = destAddr,
           ft_sourceAddr = sourceAddr, ft_rawBody = body\<rparr> r;
     if enqueued then Some r
     else do {
       let r = in_flight c (- 1) (r\<lparr>r_totalThrottled := r_totalThrottled r + 1\<rparr>);
       enqueueSubmitRetryOrFail E now gwMsgID connID destAddr sourceAddr body 0 r
     }
   }"

definition HandleSubmit :: "('d, 'p) env \<Rightarrow> Time \<Rightarrow> gostring \<Rightarrow> uint32 \<Rightarrow> bytes \<Rightarrow> ('d, 'p) Router \<Rightarrow> ('d, 'p) Router go" where
  "HandleSubmit E now connID seqNum body r = do {
     (sourceAddr, destAddr) \<leftarrow> ParseSubmitSMAddresses body;
     let c = GetConnection (r_server r) connID;
     let cfg = (case c of None \<Rightarrow> None | Some p \<Rightarrow> ConnConfig (deref (r_server r) p));
     policy \<leftarrow> source_policy cfg body sourceAddr;
     case policy of
       None \<Rightarrow> reject_submit E now connID c seqNum sourceAddr destAddr StatusSubmitFail r
     | Some (body, sourceAddr) \<Rightarrow>
         if destAddr \<noteq> [] \<and> Get (r_blacklist r) destAddr \<noteq> None
         then reject_submit E now connID c seqNum sourceAddr destAddr StatusSubmitFail r
         else if prefix_blocked cfg destAddr
         then reject_submit E now connID c seqNum sourceAddr destAddr StatusSubmitFail r
         else (case c of
           None \<Rightarrow> accept_submit E now connID c seqNum sourceAddr destAddr body r
         | Some p \<Rightarrow>
             let limit = effectiveTPS cfg r in
             if 0 < limit then
               (if of_int limit \<le> CurrentTPS now (deref (r_server r) p)
                then reject_submit E now connID c seqNum sourceAddr destAddr StatusThrottled
                  (r\<lparr>r_totalThrottled := r_totalThrottled r + 1\<rparr>)
                else accept_submit E now connID c seqNum sourceAddr destAddr body (map_server (map_conn p (RecordSubmit now)) r))
             else accept_submit E now connID c seqNum sourceAddr destAddr body r)
   }"

section \<open>Forwarding\<close>

text \<open>The route table first, then the single pool.\<close>

definition select_submitter :: "('d, 'p) env \<Rightarrow> gostring \<Rightarrow> ('d, 'p) Router \<Rightarrow> (('d, 'p) Router \<times> 'p Submitter option) go" where
  "select_submitter E destAddr r = do {
     (r, sub) \<leftarrow> (case r_poolManager r of
         None \<Rightarrow> Some (r, None)
       | Some pm \<Rightarrow> do {
           (routes, res) \<leftarrow> Resolve (e_live E) pm (r_mtRoutes r) destAddr;
           Some (r\<lparr>r_mtRoutes := routes\<rparr>, case res of Inl _ \<Rightarrow> None | Inr (s, _) \<Rightarrow> Some s)
         });
     Some (r, case sub of None \<Rightarrow> r_southbound r | Some s \<Rightarrow> Some s)
   }"

definition SubmitRaw :: "('d, 'p) env \<Rightarrow> 'p Submitter \<Rightarrow> bytes \<Rightarrow> ('d, 'p) Router \<Rightarrow> ('d, 'p) Router \<times> submit_result" where
  "SubmitRaw E sub body r = (r\<lparr>r_sent := r_sent r @ [(sub, body)]\<rparr>, e_submit E (length (r_sent r)) sub body)"

definition mark_forwarded :: "gostring \<Rightarrow> MessageLogEntry \<Rightarrow> MessageLogEntry" where
  "mark_forwarded smscMsgID e = e\<lparr>ml_Status := lit ''forwarded'', ml_SmscMsgID := smscMsgID\<rparr>"

text \<open>The bookkeeping after a successful forward, which the retry loop repeats.\<close>

definition record_forwarded :: "('d, 'p) env \<Rightarrow> Time \<Rightarrow> gostring \<Rightarrow> gostring \<Rightarrow> gostring \<Rightarrow> gostring \<Rightarrow> bytes \<Rightarrow> gostring \<Rightarrow>
    correlation \<Rightarrow> ('d, 'p) Router \<Rightarrow> ('d, 'p) Router" where
  "record_forwarded E now gwMsgID connID destAddr sourceAddr rawBody messageID corr r =
     (let r = r\<lparr>r_smscCorrelation := Set (r_smscCorrelation r) messageID corr\<rparr>;
          r = with_store (\<lambda>s. StoreSubmit (e_pebble E) s
                \<lparr>sr_GwMsgID = gwMsgID, sr_SmscMsgID = messageID, sr_NorthConnID = connID, sr_OrigSeqNum = 0,
                 sr_MSISDN = destAddr, sr_SourceAddr = sourceAddr, sr_Payload = rawBody,
                 sr_SubmittedAt = co_SubmittedAt corr\<rparr>) r;
          r = with_store (\<lambda>s. DeleteSubmitByGwID (e_pebble E) s gwMsgID) r;
          r = (if connID = rest_api then with_store (\<lambda>s. SetMessageStatus (e_pebble E) s
                \<lparr>ms_GwMsgID = gwMsgID, ms_To = destAddr, ms_From = sourceAddr, ms_Reference = [], ms_Status = lit ''forwarded'',
                 ms_DLRStatus = [], ms_SmscMsgID = messageID, ms_UpdatedAt = now\<rparr>) r else r);
          r = with_store (\<lambda>s. UpdateMessageLog (e_pebble E) s now gwMsgID (mark_forwarded messageID)) r
      in r\<lparr>r_totalForwarded := r_totalForwarded r + 1\<rparr>)"

definition forwardSubmitRaw :: "('d, 'p) env \<Rightarrow> Time \<Rightarrow> conn_ptr option \<Rightarrow> gostring \<Rightarrow> gostring \<Rightarrow> gostring \<Rightarrow> bytes \<Rightarrow>
    ('d, 'p) Router \<Rightarrow> ('d, 'p) Router go" where
  "forwardSubmitRaw E now c gwMsgID destAddr sourceAddr rawBody r = do {
     let connID = (case c of None \<Rightarrow> [] | Some p \<Rightarrow> c_ID (deref (r_server r) p));
     (r, sub) \<leftarrow> select_submitter E destAddr r;
     r \<leftarrow> (case sub of
         None \<Rightarrow> enqueueSubmitRetryOrFail E now gwMsgID connID destAddr sourceAddr rawBody 0 r
       | Some sub \<Rightarrow>
           (case SubmitRaw E sub rawBody r of
              (r, Submitted messageID) \<Rightarrow>
                let corr = (case Get (r_gwCorrelation r) gwMsgID of
                      Some corr \<Rightarrow> corr
                    | None \<Rightarrow> \<lparr>co_GwMsgID = gwMsgID, co_NorthConnID = connID, co_MSISDN = destAddr, co_SubmittedAt = now\<rparr>)
                in Some (record_forwarded E now gwMsgID connID destAddr sourceAddr rawBody messageID corr r)
            | (r, _) \<Rightarrow> enqueueSubmitRetryOrFail E now gwMsgID connID destAddr sourceAddr rawBody 0 r));
     Some (in_flight c (- 1) r)
   }"

text \<open>A worker takes the oldest task; an empty channel blocks it.\<close>

definition forwardWorker_step :: "('d, 'p) env \<Rightarrow> Time \<Rightarrow> ('d, 'p) Router \<Rightarrow> ('d, 'p) Router go" where
  "forwardWorker_step E now r =
     (case r_forwardCh r of
        [] \<Rightarrow> Some r
      | task # tasks \<Rightarrow>
          forwardSubmitRaw E now (ft_conn task) (ft_gwMsgID task) (ft_destAddr task) (ft_sourceAddr task) (ft_rawBody task)
            (r\<lparr>r_forwardCh := tasks\<rparr>))"

definition retry_submit :: "('d, 'p) env \<Rightarrow> Time \<Rightarrow> PendingSubmit \<Rightarrow> ('d, 'p) Router \<Rightarrow> ('d, 'p) Router go" where
  "retry_submit E now p r = do {
     (r, sub) \<leftarrow> select_submitter E (ps_MSISDN p) r;
     case sub of
       None \<Rightarrow> enqueueSubmitRetryOrFail E now (ps_GwMsgID p) (ps_ConnID p) (ps_MSISDN p) (ps_SourceAddr p) (ps_RawBody p) (ps_RetryCount p) r
     | Some sub \<Rightarrow>
         (case SubmitRaw E sub (ps_RawBody p) r of
            (r, Submitted messageID) \<Rightarrow>
              Some (record_forwarded E now (ps_GwMsgID p) (ps_ConnID p) (ps_MSISDN p) (ps_SourceAddr p) (ps_RawBody p) messageID
                \<lparr>co_GwMsgID = ps_GwMsgID p, co_NorthConnID = ps_ConnID p, co_MSISDN = ps_MSISDN p, co_SubmittedAt = now\<rparr> r)
          | (r, _) \<Rightarrow> enqueueSubmitRetryOrFail E now (ps_GwMsgID p) (ps_ConnID p) (ps_MSISDN p) (ps_SourceAddr p) (ps_RawBody p) (ps_RetryCount p) r)
   }"

fun retry_submits :: "('d, 'p) env \<Rightarrow> Time \<Rightarrow> PendingSubmit list \<Rightarrow> ('d, 'p) Router \<Rightarrow> ('d, 'p) Router go" where
  "retry_submits E now [] r = Some r"
| "retry_submits E now (p # ps) r = do { r \<leftarrow> retry_submit E now p r; retry_submits E now ps r }"

definition drainSubmitRetries :: "('d, 'p) env \<Rightarrow> Time \<Rightarrow> ('d, 'p) Router \<Rightarrow> ('d, 'p) Router go" where
  "drainSubmitRetries E now r =
     (case r_store r of
        None \<Rightarrow> Some r
      | Some s \<Rightarrow>
          (case DrainSubmitRetries (e_pebble E) s (r_submitRetryDrainLimit r) of
             (s, Inl _) \<Rightarrow> Some (r\<lparr>r_store := Some s\<rparr>)
           | (s, Inr pending) \<Rightarrow> retry_submits E now pending (r\<lparr>r_store := Some s\<rparr>)))"

section \<open>Receipts and mobile-originated messages\<close>

definition mark_dlr :: "gostring \<Rightarrow> MessageLogEntry \<Rightarrow> MessageLogEntry" where
  "mark_dlr status e = e\<lparr>ml_Status := (if status \<noteq> lit ''DELIVRD'' then lit ''failed'' else lit ''delivered''), ml_DLRStatus := status\<rparr>"

definition find_correlation :: "('d, 'p) env \<Rightarrow> gostring \<Rightarrow> ('d, 'p) Router \<Rightarrow> correlation option" where
  "find_correlation E smscMsgID r =
     (case Get (r_smscCorrelation r) smscMsgID of
        Some corr \<Rightarrow> Some corr
      | None \<Rightarrow>
          (case r_store r of
             None \<Rightarrow> None
           | Some s \<Rightarrow>
               (case GetSubmit (e_pebble E) s smscMsgID of
                  Inr (Some record) \<Rightarrow> Some \<lparr>co_GwMsgID = sr_GwMsgID record, co_NorthConnID = sr_NorthConnID record,
                    co_MSISDN = sr_MSISDN record, co_SubmittedAt = zero_time\<rparr>
                | _ \<Rightarrow> None)))"

definition forget_correlation :: "('d, 'p) env \<Rightarrow> gostring \<Rightarrow> gostring \<Rightarrow> ('d, 'p) Router \<Rightarrow> ('d, 'p) Router" where
  "forget_correlation E smscMsgID gwMsgID r =
     with_store (\<lambda>s. DeleteSubmit (e_pebble E) s smscMsgID)
       (r\<lparr>r_smscCorrelation := Delete (r_smscCorrelation r) smscMsgID, r_gwCorrelation := Delete (r_gwCorrelation r) gwMsgID\<rparr>)"

definition handleDLR :: "('d, 'p) env \<Rightarrow> Time \<Rightarrow> gostring \<Rightarrow> gostring \<Rightarrow> byte \<Rightarrow> bytes \<Rightarrow> ('d, 'p) Router \<Rightarrow> ('d, 'p) Router go" where
  "handleDLR E now sourceAddr destAddr esmClass payload r =
     (let r = r\<lparr>r_totalDLRs := r_totalDLRs r + 1\<rparr> in
      case ParseDLRReceipt payload of
        None \<Rightarrow> Some r
      | Some receipt \<Rightarrow>
          (case find_correlation E (dr_MessageID receipt) r of
             None \<Rightarrow> Some r
           | Some corr \<Rightarrow> do {
               let translatedPayload = translateDLRMessageID payload (dr_MessageID receipt) (co_GwMsgID corr);
               let body = BuildDeliverSMBody sourceAddr destAddr esmClass translatedPayload;
               let connID = co_NorthConnID corr;
               let r = with_store (\<lambda>s. UpdateMessageLog (e_pebble E) s now (co_GwMsgID corr) (mark_dlr (dr_Status receipt))) r;
               if connID = rest_api then do {
                 r \<leftarrow> deliverDLRCallback E now (co_GwMsgID corr) (dr_Status receipt) destAddr sourceAddr r;
                 let r = with_store (\<lambda>s. SetMessageStatus (e_pebble E) s
                       \<lparr>ms_GwMsgID = co_GwMsgID corr, ms_To = co_MSISDN corr, ms_From = [], ms_Reference = [],
                        ms_Status = lit ''delivered'', ms_DLRStatus = dr_Status receipt, ms_SmscMsgID = [], ms_UpdatedAt = now\<rparr>) r;
                 Some (forget_correlation E (dr_MessageID receipt) (co_GwMsgID corr) r)
               } else do {
                 (r, delivered) \<leftarrow> deliverWithGrace E now connID body (co_MSISDN corr) esmClass sourceAddr destAddr
                   (co_GwMsgID corr) True r;
                 if delivered then
                   deliverDLRCallback E now (co_GwMsgID corr) (dr_Status receipt) destAddr sourceAddr
                     (forget_correlation E (dr_MessageID receipt) (co_GwMsgID corr) r)
                 else Some r
               }
             }))"

definition mo_id :: "Time \<Rightarrow> gostring" where
  "mo_id now = lit ''mo-'' @ dec_int now"

definition mo_fallback :: "('d, 'p) env \<Rightarrow> Time \<Rightarrow> gostring \<Rightarrow> gostring \<Rightarrow> byte \<Rightarrow> bytes \<Rightarrow> ('d, 'p) Router \<Rightarrow> ('d, 'p) Router go" where
  "mo_fallback E now sourceAddr destAddr esmClass payload r =
     (let body = BuildDeliverSMBody sourceAddr destAddr esmClass payload;
          connID = (case Get (r_msisdnAffinity r) sourceAddr of
              Some connID \<Rightarrow> Some connID
            | None \<Rightarrow> (let i = RoundRobinConnID (e_ord E) (r_server r) in if i = [] then None else Some i))
      in case connID of
           None \<Rightarrow> Some (with_store (\<lambda>s. EnqueueRetry (e_pebble E) s (mo_id now)
               \<lparr>pd_TargetConnID = [], pd_MSISDN = sourceAddr, pd_PDUBody = body, pd_ESMClass = esmClass,
                pd_SourceAddr = sourceAddr, pd_DestAddr = destAddr, pd_EnqueuedAt = now\<rparr>) r)
         | Some connID \<Rightarrow> do {
             (r, _) \<leftarrow> deliverWithGrace E now connID body sourceAddr esmClass sourceAddr destAddr (mo_id now) False r;
             Some r
           })"

definition handleMO :: "('d, 'p) env \<Rightarrow> Time \<Rightarrow> gostring \<Rightarrow> gostring \<Rightarrow> byte \<Rightarrow> bytes \<Rightarrow> ('d, 'p) Router \<Rightarrow> ('d, 'p) Router go" where
  "handleMO E now sourceAddr destAddr esmClass payload r =
     (let r = r\<lparr>r_totalMO := r_totalMO r + 1\<rparr> in
      case MO_Resolve (r_moRoutes r) sourceAddr destAddr of
        Some target \<Rightarrow>
          if Type target = lit ''http''
          then Some (deliverMOCallback E now (CallbackURL target) sourceAddr destAddr payload r)
          else if Type target = lit ''smpp'' \<and> mt_ConnID target \<noteq> [] then do {
            let body = BuildDeliverSMBody sourceAddr destAddr esmClass payload;
            (r, _) \<leftarrow> deliverWithGrace E now (mt_ConnID target) body sourceAddr esmClass sourceAddr destAddr (mo_id now) False r;
            Some r
          } else mo_fallback E now sourceAddr destAddr esmClass payload r
      | None \<Rightarrow> mo_fallback E now sourceAddr destAddr esmClass payload r)"

text \<open>The error returned is always nil, which acknowledges the SMSC.\<close>

definition HandleDeliver :: "('d, 'p) env \<Rightarrow> Time \<Rightarrow> gostring \<Rightarrow> gostring \<Rightarrow> byte \<Rightarrow> bytes \<Rightarrow> ('d, 'p) Router \<Rightarrow> ('d, 'p) Router go" where
  "HandleDeliver E now sourceAddr destAddr esmClass payload r =
     (if IsDLR esmClass then handleDLR E now sourceAddr destAddr esmClass payload r
      else handleMO E now sourceAddr destAddr esmClass payload r)"

section \<open>Retry of buffered deliveries\<close>

definition retry_deliver :: "('d, 'p) env \<Rightarrow> Time \<Rightarrow> PendingDeliver \<Rightarrow> ('d, 'p) Router \<Rightarrow> ('d, 'p) Router go" where
  "retry_deliver E now p r = do {
     let isDLR = IsDLR (pd_ESMClass p);
     let requeue = with_store (\<lambda>s. EnqueueRetry (e_pebble E) s (lit ''retry-'' @ dec_int now) p);
     let gone = (pd_TargetConnID p = [] \<or> GetConnection (r_server r) (pd_TargetConnID p) = None);
     if gone \<and> isDLR then Some (requeue r) else do {
       let connID = (if gone then RoundRobinConnID (e_ord E) (r_server r) else pd_TargetConnID p);
       if connID = [] then Some (requeue r) else do {
         (r, ok) \<leftarrow> deliver E connID (pd_PDUBody p) r;
         Some (if ok then r else requeue r)
       }
     }
   }"

fun retry_delivers :: "('d, 'p) env \<Rightarrow> (nat \<Rightarrow> Time) \<Rightarrow> nat \<Rightarrow> PendingDeliver list \<Rightarrow> ('d, 'p) Router \<Rightarrow> ('d, 'p) Router go" where
  "retry_delivers E clock i [] r = Some r"
| "retry_delivers E clock i (p # ps) r = do { r \<leftarrow> retry_deliver E (clock i) p r; retry_delivers E clock (Suc i) ps r }"

text \<open>The ids of re-enqueued entries come from the clock, which is read anew for each: \<open>clock\<close>.\<close>

definition drainRetries :: "('d, 'p) env \<Rightarrow> Time \<Rightarrow> (nat \<Rightarrow> Time) \<Rightarrow> int \<Rightarrow> ('d, 'p) Router \<Rightarrow> ('d, 'p) Router go" where
  "drainRetries E now clock maxAge r =
     (case r_store r of
        None \<Rightarrow> Some r
      | Some s \<Rightarrow>
          (case DrainRetries (e_pebble E) s now maxAge (r_retryDrainLimit r) of
             (s, Inl _) \<Rightarrow> Some (r\<lparr>r_store := Some s\<rparr>)
           | (s, Inr pending) \<Rightarrow> retry_delivers E clock 0 pending (r\<lparr>r_store := Some s\<rparr>)))"

section \<open>Expiry of correlations and sizes\<close>

text \<open>One tick of \<^verbatim>\<open>CleanupCorrelations\<close>: collect, then delete.\<close>

definition expired_keys :: "((gostring, correlation) fmap \<Rightarrow> (gostring \<times> correlation) list) \<Rightarrow> Time \<Rightarrow> correlation ShardMap \<Rightarrow> gostring list" where
  "expired_keys ord cutoff m =
     Range ord m (\<lambda>key val acc. (True, if co_SubmittedAt val < cutoff then acc @ [key] else acc)) []"

definition CleanupCorrelations_tick :: "((gostring, correlation) fmap \<Rightarrow> (gostring \<times> correlation) list) \<Rightarrow> Time \<Rightarrow> int \<Rightarrow>
    ('d, 'p) Router \<Rightarrow> ('d, 'p) Router" where
  "CleanupCorrelations_tick ord now maxAge r =
     (let cutoff = now - maxAge;
          r = r\<lparr>r_smscCorrelation := foldl Delete (r_smscCorrelation r) (expired_keys ord cutoff (r_smscCorrelation r))\<rparr>
      in r\<lparr>r_gwCorrelation := foldl Delete (r_gwCorrelation r) (expired_keys ord cutoff (r_gwCorrelation r))\<rparr>)"

definition AffinitySize :: "('d, 'p) Router \<Rightarrow> int" where "AffinitySize r = Len (r_msisdnAffinity r)"
definition CorrelationSize :: "('d, 'p) Router \<Rightarrow> int" where "CorrelationSize r = Len (r_smscCorrelation r)"

definition SubmitRetryCount :: "('d, 'p) Router \<Rightarrow> int" where
  "SubmitRetryCount r = (case r_store r of None \<Rightarrow> 0 | Some s \<Rightarrow> PendingSubmitRetryCount s)"

definition TotalSubmits :: "('d, 'p) Router \<Rightarrow> uint64" where "TotalSubmits r = r_totalSubmits r"
definition TotalDLRs :: "('d, 'p) Router \<Rightarrow> uint64" where "TotalDLRs r = r_totalDLRs r"
definition TotalMO :: "('d, 'p) Router \<Rightarrow> uint64" where "TotalMO r = r_totalMO r"
definition TotalForwarded :: "('d, 'p) Router \<Rightarrow> uint64" where "TotalForwarded r = r_totalForwarded r"
definition TotalThrottled :: "('d, 'p) Router \<Rightarrow> uint64" where "TotalThrottled r = r_totalThrottled r"

end
