(* ===== verification/Router_Store.thy ===== *)
theory Router_Store
  imports Router
begin

text \<open>
  What the router keeps true of the message store: next to the typing of \<open>Store_Typing\<close>, the sizes of the records it
  reads back and builds PDUs from, and the retry counters of callbacks, which index a table. Every store operation
  the router calls keeps it.
\<close>

section \<open>Sizes\<close>

text \<open>
  A string and its form after a JSON round trip are at most \<open>n\<close> bytes long. JSON replaces an invalid byte by a
  three-byte rune.
\<close>

definition fits :: "nat \<Rightarrow> gostring \<Rightarrow> bool" where
  "fits n s \<longleftrightarrow> length s \<le> n \<and> length (json_string s) \<le> n"

abbreviation addr_max :: nat where "addr_max \<equiv> 2 ^ 29"
abbreviation id_max :: nat where "id_max \<equiv> 2 ^ 20"
abbreviation body_max :: nat where "body_max \<equiv> 2 ^ 27"

lemma encode_rune_length: "length (encode_rune r) \<le> 4" "r < 0x10000 \<Longrightarrow> length (encode_rune r) \<le> 3"
  "r < 0x80 \<Longrightarrow> length (encode_rune r) = 1"
  by (simp_all add: encode_rune_def)

lemma decode_rune_encode_length: "length (encode_rune (fst (decode_rune b bs))) \<le> 3 * snd (decode_rune b bs)"
  using encode_rune_length(1) [of "fst (decode_rune b bs)"] encode_rune_length(2,3)
  by (auto simp: decode_rune_def split: option.splits)

lemma decode_rune_snd_pos: "0 < snd (decode_rune b bs)"
  by (auto simp: decode_rune_def split: option.splits)

lemma json_string_length: "length (json_string s) \<le> 3 * length s"
proof (induction "length s" arbitrary: s rule: less_induct)
  case less
  show ?case
  proof (cases s)
    case (Cons b bs)
    let ?r = "fst (decode_rune b bs)" and ?w = "snd (decode_rune b bs)"
    have e: "json_string s = encode_rune ?r @ json_string (drop (?w - 1) bs)"
      by (simp add: Cons json_string_def string_of_runes_def runes_def range_runes.simps(2) split_beta)
    have w: "?w - 1 \<le> length bs" "0 < ?w" by (rule decode_rune_width) (rule decode_rune_snd_pos)
    have "length (json_string (drop (?w - 1) bs)) \<le> 3 * (length bs - (?w - 1))"
      using less [of "drop (?w - 1) bs"] Cons by simp
    then show ?thesis unfolding e using decode_rune_encode_length [of b bs] w by (simp add: Cons)
  qed simp
qed

lemma fitsI: "3 * length s \<le> n \<Longrightarrow> fits n s"
  using json_string_length [of s] by (simp add: fits_def)

lemma fits_json [simp]: "fits n s \<Longrightarrow> fits n (json_string s)"
  by (simp add: fits_def)

lemma fits_length: "fits n s \<Longrightarrow> length s \<le> n"
  by (simp add: fits_def)

section \<open>Values\<close>

definition conf_fits :: "ConnectionConfig \<Rightarrow> bool" where
  "conf_fits c \<longleftrightarrow> fits addr_max (cc_ForceSourceAddr c) \<and> fits addr_max (cc_DefaultSourceAddr c)"

fun val_ok :: "dbval \<Rightarrow> bool" where
  "val_ok (VSubmit r) = fits id_max (sr_GwMsgID r)"
| "val_ok (VPendingSubmit p) = (fits addr_max (ps_MSISDN p) \<and> fits addr_max (ps_SourceAddr p) \<and> fits id_max (ps_GwMsgID p))"
| "val_ok (VPendingDeliver p) = (length (pd_PDUBody p) < 2 ^ 31)"
| "val_ok (VCallback c) = (0 \<le> cb_Retries c)"
| "val_ok (VConnConfig c) = conf_fits c"
| "val_ok _ = True"

definition vals_ok :: "('d \<Rightarrow> (gostring, dbval) fmap) \<Rightarrow> 'd MessageStore \<Rightarrow> bool" where
  "vals_ok contents s \<longleftrightarrow> (\<forall>k v. fmlookup (contents (db s)) k = Some v \<longrightarrow> val_ok v) \<and>
     (\<forall>(k, v) \<in> set (batch s @ writeCh s). val_ok v)"

definition store_inv :: "('d \<Rightarrow> (gostring, dbval) fmap) \<Rightarrow> 'd MessageStore \<Rightarrow> bool" where
  "store_inv contents s \<longleftrightarrow> store_ok contents s \<and> vals_ok contents s"

lemma val_ok_marshal [simp]:
  "val_ok (marshal_PendingDeliver p) \<longleftrightarrow> length (pd_PDUBody p) < 2 ^ 31"
  "fits addr_max (ps_MSISDN q) \<Longrightarrow> fits addr_max (ps_SourceAddr q) \<Longrightarrow> fits id_max (ps_GwMsgID q) \<Longrightarrow> val_ok (marshal_PendingSubmit q)"
  "fits id_max (sr_GwMsgID r) \<Longrightarrow> val_ok (marshal_SubmitRecord r)"
  "val_ok (marshal_MessageStatus m)" "val_ok (marshal_MessageLogEntry e)"
  "val_ok (marshal_CallbackRecord c) \<longleftrightarrow> 0 \<le> cb_Retries c"
  by (simp_all add: marshal_PendingDeliver_def marshal_PendingSubmit_def marshal_SubmitRecord_def marshal_MessageStatus_def
      marshal_MessageLogEntry_def marshal_CallbackRecord_def)

named_theorems store_inv_ops \<open>store operations keep the store invariant\<close>

lemma store_inv_set:
  assumes "pebble_ok P contents" "store_inv contents s" "ns_ok k v" "val_ok v" "counts_only upd"
  shows "store_inv contents (fst (set_then P s k v upd))"
proof -
  obtain d where d: "pb_set P (db s) k v = Some d" "contents d = fmupd k v (contents (db s))"
    using pebble_setE [OF assms(1)] .
  have "vals_ok contents (fst (set_then P s k v upd))"
    using assms(2,4,5) d by (simp add: store_inv_def vals_ok_def set_then_def counts_only_def)
  then show ?thesis using set_then_ok [OF assms(1) _ assms(3,5)] assms(2) by (simp add: store_inv_def)
qed

lemma store_inv_delete:
  assumes "pebble_ok P contents" "store_inv contents s" "counts_only upd"
  shows "store_inv contents (fst (delete_then P s k upd))"
proof -
  obtain d where d: "pb_delete P (db s) k = Some d" "contents d = fmdrop k (contents (db s))"
    using pebble_deleteE [OF assms(1)] .
  have "vals_ok contents (fst (delete_then P s k upd))"
    using assms(2,3) d by (simp add: store_inv_def vals_ok_def delete_then_def counts_only_def)
  then show ?thesis using delete_then_ok [OF assms(1) _ assms(3)] assms(2) by (simp add: store_inv_def)
qed

lemma StoreSubmit_inv [store_inv_ops]:
  assumes "pebble_ok P contents" "store_inv contents s" "fits id_max (sr_GwMsgID r)"
  shows "store_inv contents (fst (StoreSubmit P s r))"
proof -
  have v: "val_ok (marshal_SubmitRecord r)" using assms(3) by simp
  have n: "ns_ok (if sr_SmscMsgID r \<noteq> [] then msg_key (sr_SmscMsgID r) else gw_key (sr_GwMsgID r)) (marshal_SubmitRecord r)"
    by (simp add: ns_ok_submit)
  have "vals_ok contents (fst (StoreSubmit P s r))"
    using store_inv_set [OF assms(1,2) n v] assms(2) v
    by (simp add: StoreSubmit_def Let_def store_inv_def) (simp add: vals_ok_def)
  then show ?thesis using StoreSubmit_ok [OF assms(1)] assms(2) by (simp add: store_inv_def)
qed

lemma DeleteSubmit_inv [store_inv_ops]:
  "pebble_ok P contents \<Longrightarrow> store_inv contents s \<Longrightarrow> store_inv contents (fst (DeleteSubmit P s i))"
  "pebble_ok P contents \<Longrightarrow> store_inv contents s \<Longrightarrow> store_inv contents (fst (DeleteSubmitByGwID P s i))"
  "pebble_ok P contents \<Longrightarrow> store_inv contents s \<Longrightarrow> store_inv contents (fst (DeleteKey P s i))"
  by (simp_all add: DeleteSubmit_def DeleteSubmitByGwID_def DeleteKey_def store_inv_delete)

lemma EnqueueRetry_inv [store_inv_ops]:
  "pebble_ok P contents \<Longrightarrow> store_inv contents s \<Longrightarrow> unix_nano (pd_EnqueuedAt p) \<Longrightarrow> length (pd_PDUBody p) < 2 ^ 31 \<Longrightarrow>
   store_inv contents (fst (EnqueueRetry P s i p))"
  unfolding EnqueueRetry_def by (rule store_inv_set) (simp_all add: ns_ok_retry)

lemma EnqueueSubmitRetry_inv [store_inv_ops]:
  "pebble_ok P contents \<Longrightarrow> store_inv contents s \<Longrightarrow> unix_nano (ps_EnqueuedAt p) \<Longrightarrow> fits addr_max (ps_MSISDN p) \<Longrightarrow>
   fits addr_max (ps_SourceAddr p) \<Longrightarrow> fits id_max (ps_GwMsgID p) \<Longrightarrow> store_inv contents (fst (EnqueueSubmitRetry P s p))"
  unfolding EnqueueSubmitRetry_def by (rule store_inv_set) (simp_all add: ns_ok_submit_retry)

lemma SetMessageStatus_inv [store_inv_ops]:
  "pebble_ok P contents \<Longrightarrow> store_inv contents s \<Longrightarrow> store_inv contents (fst (SetMessageStatus P s m))"
  unfolding SetMessageStatus_def SetJSON_def by (rule store_inv_set) (simp_all add: ns_ok_status)

lemma ns_ok_callback: "ns_ok (callback_key i) (marshal_CallbackRecord c)" "ns_ok (callback_retry_key t i) (marshal_CallbackRecord c)"
  by (simp_all add: ns_ok_def callback_key_def callback_retry_key_def lit_def marshal_CallbackRecord_def)

lemma SetJSON_callback_inv [store_inv_ops]:
  "pebble_ok P contents \<Longrightarrow> store_inv contents s \<Longrightarrow> 0 \<le> cb_Retries c \<Longrightarrow>
   store_inv contents (fst (SetJSON P s (callback_key i) (marshal_CallbackRecord c)))"
  "pebble_ok P contents \<Longrightarrow> store_inv contents s \<Longrightarrow> 0 \<le> cb_Retries c \<Longrightarrow>
   store_inv contents (fst (SetJSON P s (callback_retry_key t i) (marshal_CallbackRecord c)))"
  unfolding SetJSON_def by (rule store_inv_set; simp add: ns_ok_callback)+

lemma vals_ok_set:
  assumes "pebble_ok P contents" "vals_ok contents s" "val_ok v" "counts_only upd"
  shows "vals_ok contents (fst (set_then P s k v upd))"
proof -
  obtain d where "pb_set P (db s) k v = Some d" "contents d = fmupd k v (contents (db s))"
    using pebble_setE [OF assms(1)] .
  then show ?thesis using assms(2-4) by (simp add: vals_ok_def set_then_def counts_only_def)
qed

lemma LogMessage_inv [store_inv_ops]:
  assumes "pebble_ok P contents" "store_inv contents s"
  shows "store_inv contents (fst (LogMessage P s now entry))"
proof -
  have "vals_ok contents (fst (case set_then P s k (marshal_MessageLogEntry e) (\<lambda>s. s) of (s, Some e) \<Rightarrow> (s, Some e)
      | (s, None) \<Rightarrow> set_then P s (logidx_key i) (VRaw k) (\<lambda>s. s\<lparr>logCount := logCount s + 1\<rparr>)))" for k e i
    using vals_ok_set [OF assms(1), of s "marshal_MessageLogEntry e" "\<lambda>s. s" k] assms(2)
      vals_ok_set [OF assms(1), where v = "VRaw k" and upd = "\<lambda>s. s\<lparr>logCount := logCount s + 1\<rparr>"]
    by (auto simp: store_inv_def split: prod.split option.split)
  then have "vals_ok contents (fst (LogMessage P s now entry))" by (simp add: LogMessage_def Let_def)
  then show ?thesis using LogMessage_ok [OF assms(1)] assms(2) by (simp add: store_inv_def)
qed

lemma UpdateMessageLog_inv [store_inv_ops]:
  assumes "pebble_ok P contents" "store_inv contents s"
  shows "store_inv contents (fst (UpdateMessageLog P s now i upd))"
proof -
  have "vals_ok contents (fst (UpdateMessageLog P s now i upd))"
    using assms vals_ok_set [OF assms(1), where upd = "\<lambda>s. s"]
    by (auto simp: UpdateMessageLog_def store_inv_def split: get_result.splits dbval.splits)
  then show ?thesis using UpdateMessageLog_ok [OF assms(1)] assms(2) by (simp add: store_inv_def)
qed

section \<open>Reads and drains\<close>

lemma vals_ok_counts [simp]:
  "vals_ok contents (s\<lparr>retryCount := n\<rparr>) = vals_ok contents s" "vals_ok contents (s\<lparr>submitRetryCount := n\<rparr>) = vals_ok contents s"
  by (simp_all add: vals_ok_def)

lemma vals_ok_deletes:
  assumes "pebble_ok P contents" "vals_ok contents s" "pb_commit P (db s) (map BDelete ks) = Some d"
  shows "vals_ok contents (s\<lparr>db := d\<rparr>)"
proof -
  obtain d' where "pb_commit P (db s) (map BDelete ks) = Some d'"
      "contents d' = foldl batch_apply (contents (db s)) (map BDelete ks)"
    using pebble_commitE [OF assms(1)] .
  then show ?thesis using assms(2,3) by (simp add: batch_deletes vals_ok_def)
qed

lemma drain_retries_mem:
  "p \<in> set (fst (drain_retries_loop limit st n es)) \<Longrightarrow> \<exists>k. (k, Some (VPendingDeliver p)) \<in> set es"
proof (induction limit st n es rule: drain_retries_loop.induct)
  case (2 limit st n key val es)
  then show ?case by (auto split: if_splits option.splits dbval.splits prod.splits)
qed simp

lemma drain_submits_mem:
  "p \<in> set (fst (drain_submits_loop limit n es)) \<Longrightarrow> \<exists>k. (k, Some (VPendingSubmit p)) \<in> set es"
proof (induction limit n es rule: drain_submits_loop.induct)
  case (2 limit n key val es)
  then show ?case by (auto split: if_splits option.splits dbval.splits prod.splits)
qed simp

lemma drain_submits_limit: "0 < limit \<Longrightarrow> n \<le> limit \<Longrightarrow> int (length (fst (drain_submits_loop limit n es))) + n \<le> limit"
proof (induction es arbitrary: n)
  case (Cons e es)
  obtain key val where e: "e = (key, val)" by force
  have a: "n < limit \<Longrightarrow> int (length (fst (drain_submits_loop limit (n + 1) es))) + (n + 1) \<le> limit"
    and b: "int (length (fst (drain_submits_loop limit n es))) + n \<le> limit"
    using Cons.IH [of "n + 1"] Cons.IH [of n] Cons.prems by simp_all
  show ?case
  proof (cases val)
    case (Some v)
    then show ?thesis using a b Cons.prems by (cases v) (auto simp: e split_beta)
  qed (use b Cons.prems in \<open>simp add: e\<close>)
qed simp

lemma DrainRetries_inv:
  assumes "pebble_ok P contents" "store_inv contents s" "DrainRetries P s now maxAge limit = (s', res)"
  shows "store_inv contents s'"
    and "res = Inr ps \<Longrightarrow> p \<in> set ps \<Longrightarrow> unix_nano (pd_EnqueuedAt p) \<and> length (pd_PDUBody p) < 2 ^ 31"
proof -
  let ?es = "scan_map (contents (db s)) (lit ''retry:'') (Some (retry_key now []))"
  have sc: "pb_scan P (db s) (lit ''retry:'') (Some (retry_key now [])) = Some ?es" by (rule pebble_scan [OF assms(1)])
  have v: "vals_ok contents s" "typed (contents (db s))" using assms(2) by (simp_all add: store_inv_def store_ok_def)
  have "vals_ok contents s'"
    using assms(3) sc v(1) vals_ok_deletes [OF assms(1) v(1)]
    by (auto simp: DrainRetries_def Let_def split: option.splits prod.splits)
  then show "store_inv contents s'"
    using DrainRetries_ok [OF assms(1), of s now maxAge limit] assms(2,3) by (simp add: store_inv_def)
  assume "res = Inr ps" "p \<in> set ps"
  then have "p \<in> set (fst (drain_retries_loop limit (now - maxAge) 0 ?es))"
    using assms(3) sc by (auto simp: DrainRetries_def Let_def split: option.splits prod.splits)
  then obtain k where "(k, Some (VPendingDeliver p)) \<in> set ?es" using drain_retries_mem by blast
  then have k: "fmlookup (contents (db s)) k = Some (VPendingDeliver p)" "in_bounds (lit ''retry:'') (Some (retry_key now [])) k"
    by (simp_all add: scan_map_set)
  have "HasPrefix k (lit ''retry:'')"
    using k(2) prefix_bounds [of "lit ''retry:''" k] by (auto simp: in_bounds_def retry_key_def HasPrefix_iff)
  then have "unix_nano (pd_EnqueuedAt p)"
    using v(2) k(1) ns_ok_deliver [of k "VPendingDeliver p"] by (auto simp: typed_def)
  then show "unix_nano (pd_EnqueuedAt p) \<and> length (pd_PDUBody p) < 2 ^ 31"
    using v(1) k(1) by (fastforce simp: vals_ok_def)
qed

lemma DrainSubmitRetries_inv:
  assumes "pebble_ok P contents" "store_inv contents s" "DrainSubmitRetries P s limit = (s', res)"
  shows "store_inv contents s'"
    and "res = Inr ps \<Longrightarrow> p \<in> set ps \<Longrightarrow>
      fits addr_max (ps_MSISDN p) \<and> fits addr_max (ps_SourceAddr p) \<and> fits id_max (ps_GwMsgID p)"
    and "res = Inr ps \<Longrightarrow> 0 < limit \<Longrightarrow> int (length ps) \<le> limit"
proof -
  let ?es = "scan_map (contents (db s)) (lit ''submit-retry:'') (Some (lit ''submit-retry:'' @ [0xFF]))"
  have sc: "pb_scan P (db s) (lit ''submit-retry:'') (Some (lit ''submit-retry:'' @ [0xFF])) = Some ?es"
    by (rule pebble_scan [OF assms(1)])
  have v: "vals_ok contents s" using assms(2) by (simp add: store_inv_def)
  have "vals_ok contents s'"
    using assms(3) sc v vals_ok_deletes [OF assms(1) v]
    by (auto simp: DrainSubmitRetries_def Let_def split: option.splits prod.splits)
  then show "store_inv contents s'"
    using DrainSubmitRetries_ok [OF assms(1), of s limit] assms(2,3) by (simp add: store_inv_def)
  {
    assume "res = Inr ps"
    then have ps: "ps = fst (drain_submits_loop limit 0 ?es)"
      using assms(3) sc by (auto simp: DrainSubmitRetries_def Let_def split: option.splits prod.splits)
    show "int (length ps) \<le> limit" if "0 < limit"
      unfolding ps using that drain_submits_limit [of limit 0 ?es] by simp
    assume "p \<in> set ps"
    then obtain k where "(k, Some (VPendingSubmit p)) \<in> set ?es" unfolding ps using drain_submits_mem by blast
    then have "fmlookup (contents (db s)) k = Some (VPendingSubmit p)" by (simp add: scan_map_set)
    then show "fits addr_max (ps_MSISDN p) \<and> fits addr_max (ps_SourceAddr p) \<and> fits id_max (ps_GwMsgID p)"
      using v by (fastforce simp: vals_ok_def)
  }
qed

lemma GetJSON_callback:
  assumes "pebble_ok P contents" "store_inv contents s" "GetJSON P s k as_callback = Inr cb"
  shows "0 \<le> cb_Retries cb"
proof -
  obtain v where v: "fmlookup (contents (db s)) k = Some v" "as_callback v = Some cb"
    using assms(3) by (auto simp: GetJSON_def pebble_get [OF assms(1)] split: option.splits)
  then have "v = VCallback cb" by (cases v) auto
  then show ?thesis using assms(2) v(1) by (fastforce simp: store_inv_def vals_ok_def)
qed

lemma GetSubmit_fits:
  assumes "pebble_ok P contents" "store_inv contents s" "GetSubmit P s i = Inr (Some rec)"
  shows "fits id_max (sr_GwMsgID rec)"
proof -
  have "fmlookup (contents (db s)) (msg_key i) = Some (VSubmit rec)"
    using assms(3) by (auto simp: GetSubmit_def get_submit_at_def pebble_get [OF assms(1)] split: option.splits dbval.splits)
  then show ?thesis using assms(2) by (fastforce simp: store_inv_def vals_ok_def)
qed

lemma store_inv_new: "contents d = fmempty \<Longrightarrow> store_inv contents (NewMessageStore d)"
  by (simp add: store_inv_def store_ok_def vals_ok_def NewMessageStore_def typed_def)

end
