(* ===== verification/Router_Inv.thy ===== *)
theory Router_Inv
  imports Router_Store
begin

text \<open>
  The invariant of the running gateway, and that every operation of the router returns and keeps it. "Returns" is
  the absence of a run-time panic: no index or slice goes out of range, for any answers of the SMSCs, the engines
  and the HTTP peers, as long as addresses and bodies stay below the sizes at which a PDU would overflow its 32-bit
  length. The lemmas also say what an operation leaves alone.
\<close>

section \<open>Deliveries only\<close>

definition is_deliver :: "bytes \<Rightarrow> bool" where
  "is_deliver w \<longleftrightarrow> (\<exists>sq body. w = pdu_wire (plain_pdu CmdDeliverSM StatusOK sq body))"

text \<open>From one server state to another nothing happened but deliver\_sm PDUs written to sessions.\<close>

definition conn_frame :: "Connection \<Rightarrow> Connection \<Rightarrow> bool" where
  "conn_frame c c' \<longleftrightarrow> c_ID c' = c_ID c \<and> c_bound c' = c_bound c \<and> c_connConfig c' = c_connConfig c \<and>
     c_tpsWindow c' = c_tpsWindow c \<and> c_tpsCount c' = c_tpsCount c \<and> c_inFlight c' = c_inFlight c \<and> conn_up c' = conn_up c \<and>
     (\<exists>ds. written c' = written c @ ds \<and> list_all is_deliver ds)"

definition server_frame :: "Server \<Rightarrow> Server \<Rightarrow> bool" where
  "server_frame s s' \<longleftrightarrow> sv_conns s' = sv_conns s \<and> sv_disconnects s' = sv_disconnects s \<and>
     length (sv_heap s') = length (sv_heap s) \<and> (\<forall>q. conn_frame (deref s q) (deref s' q))"

lemma conn_frame_refl [simp]: "conn_frame c c"
  by (simp add: conn_frame_def)

lemma conn_frame_trans: "conn_frame a b \<Longrightarrow> conn_frame b c \<Longrightarrow> conn_frame a c"
  unfolding conn_frame_def by (auto simp: list_all_iff)

lemma server_frame_refl [simp]: "server_frame s s"
  by (simp add: server_frame_def)

lemma server_frame_trans: "server_frame a b \<Longrightarrow> server_frame b c \<Longrightarrow> server_frame a c"
  unfolding server_frame_def using conn_frame_trans by metis

lemma server_frame_put:
  "p < length (sv_heap s) \<Longrightarrow> conn_frame (deref s p) c \<Longrightarrow> server_frame s (put_conn p c s)"
  by (auto simp: server_frame_def put_conn_def nth_list_update)

lemma DeliverToConn_frame:
  assumes "server_ok s" "length body < 2 ^ 31"
  obtains s' sq err where "DeliverToConn a i body s = Some (s', sq, err)" "server_ok s'" "server_frame s s'"
    "err = None \<longleftrightarrow> (\<exists>p. GetConnection s i = Some p \<and> conn_up (deref s p)) \<and> a = Answered StatusOK"
proof (cases "GetConnection s i")
  case None
  then show thesis using assms(1) that by (simp add: DeliverToConn_def)
next
  case (Some p)
  have sz: "16 + length body < 2 ^ 32" using assms(2) by simp
  obtain c sq where c: "DeliverToConn a i body s = Some (put_conn p c s, sq, deliver_result a (deref s p))"
    "c_ID c = c_ID (deref s p)" "c_bound c" "c_conn c = c_conn (wrote (pdu_wire (deliver_pdu (deref s p) body)) (deref s p))"
    "c_inFlight c = c_inFlight (deref s p)" "c_connConfig c = c_connConfig (deref s p)"
    "c_tpsWindow c = c_tpsWindow (deref s p)" "c_tpsCount c = c_tpsCount (deref s p)"
    using DeliverToConn_bound [OF assms(1) Some sz] .
  have p: "p < length (sv_heap s)" "c_bound (deref s p)" using GetConnection_valid [OF assms(1) Some] by simp_all
  have "is_deliver (pdu_wire (deliver_pdu (deref s p) body))" by (auto simp: is_deliver_def)
  then have "conn_frame (deref s p) c" using c p(2) by (auto simp: conn_frame_def written_wrote)
  then have "server_frame s (put_conn p c s)" by (rule server_frame_put [OF p(1)])
  moreover have "server_ok (put_conn p c s)" using assms(1) c(3) by (rule server_ok_put)
  moreover have "deliver_result a (deref s p) = None \<longleftrightarrow> conn_up (deref s p) \<and> a = Answered StatusOK"
    by (simp add: deliver_result_def split: ack.splits)
  ultimately show thesis using that c(1) Some by simp
qed

section \<open>The invariant\<close>

definition task_ok :: "forwardTask \<Rightarrow> bool" where
  "task_ok t \<longleftrightarrow> fits id_max (ft_gwMsgID t) \<and> fits addr_max (ft_destAddr t) \<and> fits addr_max (ft_sourceAddr t)"

definition corrs_ok :: "correlation ShardMap \<Rightarrow> bool" where
  "corrs_ok m \<longleftrightarrow> wf_shardmap m \<and> (\<forall>i c. Get m i = Some c \<longrightarrow> fits id_max (co_GwMsgID c))"

definition confs_ok :: "Server \<Rightarrow> bool" where
  "confs_ok s \<longleftrightarrow> (\<forall>p < length (sv_heap s). \<forall>cfg. c_connConfig (deref s p) = Some cfg \<longrightarrow> conf_fits cfg)"

lemma confs_ok_frame: "confs_ok s \<Longrightarrow> server_frame s s' \<Longrightarrow> confs_ok s'"
  by (simp add: confs_ok_def server_frame_def conn_frame_def)

lemma confs_ok_put:
  assumes "confs_ok s" "c_connConfig c = c_connConfig (deref s p) \<or> (\<forall>cfg. c_connConfig c = Some cfg \<longrightarrow> conf_fits cfg)"
  shows "confs_ok (put_conn p c s)"
proof -
  have "conf_fits cfg" if "q < length (sv_heap s)" "c_connConfig (deref (put_conn p c s) q) = Some cfg" for q cfg
    using assms that by (cases "q = p") (auto simp: confs_ok_def)
  then show ?thesis by (simp add: confs_ok_def)
qed

definition router_ok :: "('d \<Rightarrow> (gostring, dbval) fmap) \<Rightarrow> ('d, 'p) Router \<Rightarrow> bool" where
  "router_ok contents r \<longleftrightarrow> server_ok (r_server r) \<and> confs_ok (r_server r) \<and> (\<forall>s. r_store r = Some s \<longrightarrow> store_inv contents s) \<and>
     wf_shardmap (r_msisdnAffinity r) \<and> corrs_ok (r_smscCorrelation r) \<and> corrs_ok (r_gwCorrelation r) \<and>
     (\<forall>t \<in> set (r_forwardCh r). task_ok t) \<and> int (length (r_forwardCh r)) \<le> r_queueSize r \<and>
     0 < r_submitRetryDrainLimit r"

text \<open>What an operation that only delivers, buffers and calls back leaves alone.\<close>

definition router_frame :: "('d, 'p) Router \<Rightarrow> ('d, 'p) Router \<Rightarrow> bool" where
  "router_frame r r' \<longleftrightarrow> server_frame (r_server r) (r_server r') \<and> r_forwardCh r' = r_forwardCh r \<and>
     r_queueSize r' = r_queueSize r \<and> r_msisdnAffinity r' = r_msisdnAffinity r \<and> r_smscCorrelation r' = r_smscCorrelation r \<and>
     r_blacklist r' = r_blacklist r \<and> r_rateLimitTPS r' = r_rateLimitTPS r \<and> r_maxSubmitRetries r' = r_maxSubmitRetries r \<and>
     r_totalSubmits r' = r_totalSubmits r \<and> r_msgSeq r' = r_msgSeq r \<and> r_mtRoutes r' = r_mtRoutes r \<and>
     r_sent r' = r_sent r \<and> (r_store r' = None \<longleftrightarrow> r_store r = None) \<and> r_poolManager r' = r_poolManager r \<and>
     r_southbound r' = r_southbound r \<and> r_moRoutes r' = r_moRoutes r"

lemma router_frame_refl [simp]: "router_frame r r"
  by (simp add: router_frame_def)

lemma router_frame_trans: "router_frame a b \<Longrightarrow> router_frame b c \<Longrightarrow> router_frame a c"
  unfolding router_frame_def using server_frame_trans by simp metis

text \<open>
  A step \<open>m\<close> from \<open>r\<close> returns, keeps the invariant and the frame. The rules compose such steps the way the code
  composes them.
\<close>

definition keeps :: "('d \<Rightarrow> (gostring, dbval) fmap) \<Rightarrow> ('d, 'p) Router \<Rightarrow> ('d, 'p) Router go \<Rightarrow> bool" where
  "keeps contents r m \<longleftrightarrow> (\<exists>r'. m = Some r' \<and> router_ok contents r' \<and> router_frame r r')"

definition keeps2 :: "('d \<Rightarrow> (gostring, dbval) fmap) \<Rightarrow> ('d, 'p) Router \<Rightarrow> (('d, 'p) Router \<times> bool) go \<Rightarrow> bool" where
  "keeps2 contents r m \<longleftrightarrow> (\<exists>r' b. m = Some (r', b) \<and> router_ok contents r' \<and> router_frame r r')"

named_theorems keeps_rules \<open>steps that return and keep the invariant\<close>

lemma keeps_Some [keeps_rules]: "router_ok contents r' \<Longrightarrow> router_frame r r' \<Longrightarrow> keeps contents r (Some r')"
  by (simp add: keeps_def)

lemma keeps2_Some [keeps_rules]: "router_ok contents r' \<Longrightarrow> router_frame r r' \<Longrightarrow> keeps2 contents r (Some (r', b))"
  by (simp add: keeps2_def)

lemma keeps_bind:
  "keeps contents r m \<Longrightarrow> (\<And>r'. router_ok contents r' \<Longrightarrow> router_frame r r' \<Longrightarrow> keeps contents r' (f r')) \<Longrightarrow> keeps contents r (m \<bind> f)"
  unfolding keeps_def using router_frame_trans by fastforce

lemma keeps_bind2:
  "keeps2 contents r m \<Longrightarrow> (\<And>r' b. router_ok contents r' \<Longrightarrow> router_frame r r' \<Longrightarrow> keeps contents r' (f (r', b))) \<Longrightarrow> keeps contents r (m \<bind> f)"
  unfolding keeps_def keeps2_def using router_frame_trans by fastforce

lemma keeps2_bind2:
  "keeps2 contents r m \<Longrightarrow> (\<And>r' b. router_ok contents r' \<Longrightarrow> router_frame r r' \<Longrightarrow> keeps2 contents r' (f (r', b))) \<Longrightarrow> keeps2 contents r (m \<bind> f)"
  unfolding keeps2_def using router_frame_trans by fastforce

lemma keeps_from: "router_frame r r' \<Longrightarrow> keeps contents r' m \<Longrightarrow> keeps contents r m"
  unfolding keeps_def using router_frame_trans by metis

lemma keeps2_from: "router_frame r r' \<Longrightarrow> keeps2 contents r' m \<Longrightarrow> keeps2 contents r m"
  unfolding keeps2_def using router_frame_trans by metis

section \<open>Store steps\<close>

lemma with_store_simps [simp]:
  "r_server (with_store f r) = r_server r" "r_forwardCh (with_store f r) = r_forwardCh r"
  "r_queueSize (with_store f r) = r_queueSize r" "r_msisdnAffinity (with_store f r) = r_msisdnAffinity r"
  "r_gwCorrelation (with_store f r) = r_gwCorrelation r" "r_smscCorrelation (with_store f r) = r_smscCorrelation r"
  "r_delivers (with_store f r) = r_delivers r" "r_posts (with_store f r) = r_posts r" "r_sent (with_store f r) = r_sent r"
  "r_maxSubmitRetries (with_store f r) = r_maxSubmitRetries r" "r_totalSubmits (with_store f r) = r_totalSubmits r"
  "r_blacklist (with_store f r) = r_blacklist r" "r_rateLimitTPS (with_store f r) = r_rateLimitTPS r"
  "r_msgSeq (with_store f r) = r_msgSeq r" "r_reconnectGrace (with_store f r) = r_reconnectGrace r"
  "r_mtRoutes (with_store f r) = r_mtRoutes r" "r_moRoutes (with_store f r) = r_moRoutes r"
  "r_poolManager (with_store f r) = r_poolManager r" "r_southbound (with_store f r) = r_southbound r"
  "r_submitRetryDrainLimit (with_store f r) = r_submitRetryDrainLimit r"
  "r_store (with_store f r) = map_option (\<lambda>s. fst (f s)) (r_store r)"
  by (simp_all add: with_store_def split: option.splits)

lemma with_store_frame [simp]: "router_frame r (with_store f r') = router_frame r r'" "router_frame (with_store f r) r' = router_frame r r'"
  by (simp_all add: router_frame_def)

lemma with_store_ok:
  "router_ok contents r \<Longrightarrow> (\<And>s. store_inv contents s \<Longrightarrow> store_inv contents (fst (f s))) \<Longrightarrow> router_ok contents (with_store f r)"
  by (auto simp: router_ok_def)

lemma keeps_with_store:
  "router_ok contents r \<Longrightarrow> (\<And>s. store_inv contents s \<Longrightarrow> store_inv contents (fst (f s))) \<Longrightarrow> keeps contents r (Some (with_store f r))"
  by (simp add: keeps_Some with_store_ok)

section \<open>Deliveries\<close>

lemma deliver_keeps:
  assumes "router_ok contents r" "length body < 2 ^ 31"
  shows "keeps2 contents r (deliver E i body r)"
proof -
  have s: "server_ok (r_server r)" using assms(1) by (simp add: router_ok_def)
  obtain s' sq err where d: "DeliverToConn (e_ack E (length (r_delivers r))) i body (r_server r) = Some (s', sq, err)"
    "server_ok s'" "server_frame (r_server r) s'"
    using DeliverToConn_frame [OF s assms(2)] .
  then have "router_ok contents (r\<lparr>r_server := s', r_delivers := r_delivers r @ [(i, body)]\<rparr>)"
    using assms(1) confs_ok_frame by (auto simp: router_ok_def)
  then show ?thesis using d by (simp add: keeps2_def deliver_def router_frame_def)
qed

lemma deliverWithGrace_keeps:
  assumes "pebble_ok (e_pebble E) contents" "router_ok contents r" "unix_nano now" "length body < 2 ^ 31"
  shows "keeps2 contents r (deliverWithGrace E now connID body msisdn esm src dst retryID isDLR r)"
proof -
  have buf: "router_ok contents r' \<Longrightarrow> router_ok contents (with_store (\<lambda>s. EnqueueRetry (e_pebble E) s retryID
      \<lparr>pd_TargetConnID = connID, pd_MSISDN = msisdn, pd_PDUBody = body, pd_ESMClass = esm,
       pd_SourceAddr = src, pd_DestAddr = dst, pd_EnqueuedAt = now\<rparr>) r')" for r' :: "('a, 'b) Router"
    using assms by (intro with_store_ok EnqueueRetry_inv) simp_all
  show ?thesis
    unfolding deliverWithGrace_def Let_def
    by (intro keeps2_bind2 deliver_keeps assms)
      (auto intro!: keeps2_bind2 deliver_keeps keeps2_Some buf assms)
qed

section \<open>Callbacks\<close>

lemma postCallback_keeps:
  "router_ok contents r \<Longrightarrow> router_ok contents (fst (postCallback E url pl r)) \<and> router_frame r (fst (postCallback E url pl r))"
  by (simp add: postCallback_def router_ok_def router_frame_def)

lemma enqueueCallbackRetry_keeps:
  assumes "pebble_ok (e_pebble E) contents" "router_ok contents r" "0 \<le> cb_Retries cb"
  shows "keeps contents r (enqueueCallbackRetry E now i cb r)"
  using assms unfolding enqueueCallbackRetry_def Let_def
  by (auto intro!: keeps_Some with_store_ok DeleteSubmit_inv SetJSON_callback_inv intro: router_frame_trans)

lemma deliverDLRCallback_keeps:
  assumes "pebble_ok (e_pebble E) contents" "router_ok contents r"
  shows "keeps contents r (deliverDLRCallback E now i st dst src r)"
proof (cases "r_store r")
  case (Some s)
  then have inv: "store_inv contents s" using assms(2) by (simp add: router_ok_def)
  show ?thesis
  proof (cases "GetJSON (e_pebble E) s (callback_key i) as_callback")
    case (Inr cb)
    let ?pl = "DLRPayload \<lparr>dc_Event = lit ''dlr'', dc_ID = i, dc_Status = st, dc_To = dst, dc_From = src,
      dc_Reference = cb_Reference cb, dc_Timestamp = now\<rparr>"
    obtain r' ok where p: "postCallback E (cb_CallbackURL cb) ?pl r = (r', ok)" by force
    have k: "router_ok contents r'" "router_frame r r'" using postCallback_keeps [OF assms(2), of E "cb_CallbackURL cb" ?pl] p by simp_all
    have "keeps contents r' (enqueueCallbackRetry E now i cb r')"
      using GetJSON_callback [OF assms(1) inv Inr] by (rule enqueueCallbackRetry_keeps [OF assms(1) k(1)])
    moreover have "keeps contents r' (Some (with_store (\<lambda>s. DeleteKey (e_pebble E) s (callback_key i)) r'))"
      using assms(1) k(1) by (intro keeps_with_store DeleteSubmit_inv)
    ultimately show ?thesis
      using keeps_from [OF k(2)] by (simp add: deliverDLRCallback_def Some Inr p)
  qed (simp add: deliverDLRCallback_def Some keeps_Some assms(2))
qed (simp add: deliverDLRCallback_def keeps_Some assms(2))

section \<open>Giving up on a submit\<close>

lemma length_BuildDeliverSMBody: "length (BuildDeliverSMBody src dst esm sm) \<le> length src + length dst + length sm + 30"
  by (simp add: BuildDeliverSMBody_def appendCString_def Let_def)

lemma length_synthetic_receipt: "length (synthetic_receipt i) \<le> length i + 120"
  by (simp add: synthetic_receipt_def)

lemma wf_shardmap_shard: "wf_shardmap m \<Longrightarrow> shard_ok m"
  by (simp add: wf_shardmap_def)

lemma corrs_ok_Delete [simp]: "corrs_ok m \<Longrightarrow> corrs_ok (Delete m i)"
  unfolding corrs_ok_def using wf_Delete [of m i] Get_Delete [of m i] by (auto simp: wf_shardmap_shard split: if_splits)

lemma corrs_ok_Set: "corrs_ok m \<Longrightarrow> fits id_max (co_GwMsgID c) \<Longrightarrow> corrs_ok (Set m i c)"
  unfolding corrs_ok_def using wf_Set [of m i c] Get_Set [of m i c] by (auto simp: wf_shardmap_shard split: if_splits)

lemma gw_update [simp]:
  "router_frame r (r'\<lparr>r_gwCorrelation := m\<rparr>) = router_frame r r'"
  "router_ok contents r \<Longrightarrow> corrs_ok m \<Longrightarrow> router_ok contents (r\<lparr>r_gwCorrelation := m\<rparr>)"
  by (simp_all add: router_frame_def router_ok_def)

lemma router_okD: "router_ok contents r \<Longrightarrow> corrs_ok (r_gwCorrelation r)" "router_ok contents r \<Longrightarrow> corrs_ok (r_smscCorrelation r)"
  "router_ok contents r \<Longrightarrow> server_ok (r_server r)"
  by (simp_all add: router_ok_def)

lemma sendSyntheticDLR_keeps:
  assumes "pebble_ok (e_pebble E) contents" "router_ok contents r" "unix_nano now"
    and "fits id_max i" "fits addr_max dst" "fits addr_max src"
  shows "keeps contents r (sendSyntheticDLR E now connID i dst src r)"
proof -
  let ?r = "with_store (\<lambda>s. UpdateMessageLog (e_pebble E) s now i mark_failed) r"
  have r: "router_ok contents ?r" using assms(1,2) by (intro with_store_ok UpdateMessageLog_inv)
  have sz: "length (BuildDeliverSMBody src dst 0x04 (synthetic_receipt i)) < 2 ^ 31"
    using length_BuildDeliverSMBody [of src dst 4 "synthetic_receipt i"] length_synthetic_receipt [of i]
      fits_length [OF assms(4)] fits_length [OF assms(5)] fits_length [OF assms(6)] by simp
  have st: "router_ok contents (with_store (\<lambda>s. SetMessageStatus (e_pebble E) s m) ?r)" for m
    by (rule with_store_ok [OF r]) (rule SetMessageStatus_inv [OF assms(1)])
  show ?thesis
    unfolding sendSyntheticDLR_def Let_def
    by (rule keeps_from [of _ ?r])
      (auto intro!: keeps_bind keeps_bind2 deliverDLRCallback_keeps [THEN keeps_from [rotated]] deliverWithGrace_keeps keeps_Some
        st r assms(1,3) sz simp: router_okD)
qed

lemma enqueueSubmitRetryOrFail_keeps:
  assumes "pebble_ok (e_pebble E) contents" "router_ok contents r" "unix_nano now"
    and "fits id_max i" "fits addr_max dst" "fits addr_max src"
  shows "keeps contents r (enqueueSubmitRetryOrFail E now i connID dst src raw n r)"
  using sendSyntheticDLR_keeps [OF assms] unfolding enqueueSubmitRetryOrFail_def
  using assms by (auto intro!: keeps_with_store EnqueueSubmitRetry_inv)

section \<open>Submits\<close>

definition returns :: "('d \<Rightarrow> (gostring, dbval) fmap) \<Rightarrow> ('d, 'p) Router go \<Rightarrow> bool" where
  "returns contents m \<longleftrightarrow> (\<exists>r'. m = Some r' \<and> router_ok contents r')"

lemma returns_Some: "router_ok contents r \<Longrightarrow> returns contents (Some r)"
  by (simp add: returns_def)

lemma keeps_returns: "keeps contents r m \<Longrightarrow> returns contents m"
  by (auto simp: keeps_def returns_def)

lemma returns_bind: "returns contents m \<Longrightarrow> (\<And>r'. router_ok contents r' \<Longrightarrow> returns contents (f r')) \<Longrightarrow> returns contents (m \<bind> f)"
  by (auto simp: returns_def)

lemma returns_bind2:
  "keeps2 contents r m \<Longrightarrow> (\<And>r' b. router_ok contents r' \<Longrightarrow> returns contents (f (r', b))) \<Longrightarrow> returns contents (m \<bind> f)"
  by (auto simp: returns_def keeps2_def)

lemma ReadCString_length: "ReadCString body i = Some (s, j) \<Longrightarrow> length s \<le> length body"
  by (auto simp: ReadCString_def slice_def Let_def bind_eq_Some_conv split: if_splits)

lemma ParseSubmitSMAddresses_length:
  "ParseSubmitSMAddresses body = Some (s, d) \<Longrightarrow> length s \<le> length body \<and> length d \<le> length body"
  by (auto simp: ParseSubmitSMAddresses_def readCString_def Let_def bind_eq_Some_conv dest!: ReadCString_length split: if_splits prod.splits)

lemma dec_length: "n < 10 ^ k \<Longrightarrow> length (dec n) \<le> max 1 k"
proof (induction k arbitrary: n)
  case 0
  then show ?case by (subst dec.simps) simp
next
  case (Suc k)
  show ?case
  proof (cases "n < 10")
    case False
    then have "length (dec (n div 10)) \<le> max 1 k" using Suc by (auto simp: less_mult_imp_div_less)
    moreover have "0 < k" using Suc.prems False by (cases k) auto
    ultimately show ?thesis using False by (subst dec.simps) simp
  qed (subst dec.simps, simp)
qed

lemma length_dec64: "length (dec (unat (n :: uint64))) \<le> 20"
proof -
  have "unat n < 2 ^ 64" using unsigned_less [where ?'a = nat, of n] by simp
  then have "unat n < 10 ^ 20" by simp
  then show ?thesis using dec_length [of "unat n" 20] by simp
qed

lemma map_server_ok:
  "router_ok contents r \<Longrightarrow> server_ok (f (r_server r)) \<Longrightarrow> confs_ok (f (r_server r)) \<Longrightarrow> router_ok contents (map_server f r)"
  by (simp add: router_ok_def map_server_def)

lemma map_conn_ok:
  assumes "router_ok contents r" "\<And>c. c_bound (g c) = c_bound c" "\<And>c. c_connConfig (g c) = c_connConfig c"
  shows "router_ok contents (map_server (map_conn p g) r)"
proof -
  have "server_ok (map_conn p g (r_server r))" using router_okD(3) [OF assms(1)] by (rule server_ok_put) (simp add: assms(2))
  moreover have "confs_ok (map_conn p g (r_server r))" using assms(1) by (intro confs_ok_put) (simp_all add: assms(3) router_ok_def)
  ultimately show ?thesis by (rule map_server_ok [OF assms(1)])
qed

lemma submit_resp_eq:
  "length mid < 100 \<Longrightarrow> submit_resp (Some p) sq st mid r =
     Some (map_server (map_conn p (wrote (pdu_wire (plain_pdu CmdSubmitSMResp st sq (mid @ [0]))))) r)"
  by (simp add: submit_resp_def SendSubmitSMResp_eq map_server_def)

lemma submit_resp_returns: "router_ok contents r \<Longrightarrow> length mid < 100 \<Longrightarrow> returns contents (submit_resp c sq st mid r)"
proof (cases c)
  case (Some p)
  then show "router_ok contents r \<Longrightarrow> length mid < 100 \<Longrightarrow> returns contents (submit_resp c sq st mid r)"
    unfolding Some by (subst submit_resp_eq) (simp_all add: returns_Some map_conn_ok)
qed (simp add: submit_resp_def returns_Some)

lemma in_flight_ok: "router_ok contents r \<Longrightarrow> router_ok contents (in_flight c d r)"
  by (auto simp: in_flight_def InFlightAdd_def intro: map_conn_ok split: option.splits)

lemma update_ok [simp]:
  "router_ok contents (r\<lparr>r_totalSubmits := n\<rparr>) = router_ok contents r" "router_ok contents (r\<lparr>r_totalThrottled := n\<rparr>) = router_ok contents r"
  "router_ok contents (r\<lparr>r_msgSeq := n\<rparr>) = router_ok contents r" "router_ok contents (r\<lparr>r_totalDLRs := n\<rparr>) = router_ok contents r"
  "router_ok contents (r\<lparr>r_totalMO := n\<rparr>) = router_ok contents r" "router_ok contents (r\<lparr>r_totalForwarded := n\<rparr>) = router_ok contents r"
  "router_ok contents (r\<lparr>r_sent := x\<rparr>) = router_ok contents r" "router_ok contents (r\<lparr>r_mtRoutes := y\<rparr>) = router_ok contents r"
  by (simp_all add: router_ok_def)

lemma log_rejected_ok:
  "pebble_ok (e_pebble E) contents \<Longrightarrow> router_ok contents r \<Longrightarrow> router_ok contents (log_rejected E now connID src dst r)"
  by (auto simp: log_rejected_def Let_def intro!: with_store_ok LogMessage_inv split: option.splits)

lemma reject_submit_returns:
  "pebble_ok (e_pebble E) contents \<Longrightarrow> router_ok contents r \<Longrightarrow> returns contents (reject_submit E now connID c sq src dst st r)"
  by (simp add: reject_submit_def submit_resp_returns log_rejected_ok)

lemma gwMsgID_fits: "fits id_max (lit ''GW-'' @ dec (unat (n :: uint64)))" "length (lit ''GW-'' @ dec (unat n)) < 100"
  using length_dec64 [of n] by (auto intro!: fitsI)

lemma try_forward_ok: "router_ok contents r \<Longrightarrow> task_ok t \<Longrightarrow> router_ok contents (fst (try_forward t r))"
  by (auto simp: try_forward_def router_ok_def)

lemma accept_submit_returns:
  assumes "pebble_ok (e_pebble E) contents" "router_ok contents r" "unix_nano now" "fits addr_max src" "fits addr_max dst"
  shows "returns contents (accept_submit E now connID c sq src dst body r)"
proof -
  let ?n = "r_msgSeq r + 1"
  let ?i = "lit ''GW-'' @ dec (unat ?n)"
  let ?task = "\<lparr>ft_conn = c, ft_gwMsgID = ?i, ft_destAddr = dst, ft_sourceAddr = src, ft_rawBody = body\<rparr>"
  let ?corr = "\<lparr>co_GwMsgID = ?i, co_NorthConnID = connID, co_MSISDN = dst, co_SubmittedAt = now\<rparr>"
  have a: "router_ok contents ((if dst \<noteq> [] then r\<lparr>r_msisdnAffinity := Set (r_msisdnAffinity r) dst connID\<rparr> else r)\<lparr>r_msgSeq := ?n\<rparr>)"
    using assms(2) by (simp add: router_ok_def wf_Set)
  have seq: "r_msgSeq (if dst \<noteq> [] then r\<lparr>r_msisdnAffinity := Set (r_msisdnAffinity r) dst connID\<rparr> else r) = r_msgSeq r" by simp
  have t: "task_ok ?task" using assms(4,5) gwMsgID_fits by (simp add: task_ok_def)
  have "returns contents (let (r, enqueued) = try_forward ?task (in_flight c 1
        (with_store (\<lambda>s. LogMessage (e_pebble E) s now (log_entry ?i connID src dst (lit ''accepted'')))
          (with_store (\<lambda>s. StoreSubmit (e_pebble E) s \<lparr>sr_GwMsgID = ?i, sr_SmscMsgID = [], sr_NorthConnID = connID,
            sr_OrigSeqNum = sq, sr_MSISDN = dst, sr_SourceAddr = src, sr_Payload = body, sr_SubmittedAt = now\<rparr>)
            (r\<lparr>r_totalSubmits := r_totalSubmits r + 1, r_gwCorrelation := Set (r_gwCorrelation r) ?i ?corr\<rparr>))))
      in if enqueued then Some r
         else enqueueSubmitRetryOrFail E now ?i connID dst src body 0
           (in_flight c (- 1) (r\<lparr>r_totalThrottled := r_totalThrottled r + 1\<rparr>)))" (is "returns _ (let (r, e) = try_forward _ ?r4 in _)")
    if r: "router_ok contents r" for r :: "('a, 'b) Router"
  proof -
    have "corrs_ok (Set (r_gwCorrelation r) ?i ?corr)" using r gwMsgID_fits by (intro corrs_ok_Set) (simp_all add: router_okD)
    then have "router_ok contents ?r4"
      using r gwMsgID_fits(1) by (intro in_flight_ok with_store_ok LogMessage_inv StoreSubmit_inv assms(1)) simp_all
    then obtain r5 e where f: "try_forward ?task ?r4 = (r5, e)" "router_ok contents r5"
      using try_forward_ok [OF _ t] by (metis prod.collapse)
    then have "router_ok contents (in_flight c (- 1) (r5\<lparr>r_totalThrottled := r_totalThrottled r5 + 1\<rparr>))"
      by (simp add: in_flight_ok)
    then have "returns contents (enqueueSubmitRetryOrFail E now ?i connID dst src body 0
        (in_flight c (- 1) (r5\<lparr>r_totalThrottled := r_totalThrottled r5 + 1\<rparr>)))"
      using gwMsgID_fits(1) assms by (intro keeps_returns [OF enqueueSubmitRetryOrFail_keeps])
    then show ?thesis using f by (simp add: returns_Some)
  qed
  then show ?thesis
    unfolding accept_submit_def nextMsgID_def Let_def prod.case seq
    by (intro returns_bind [OF submit_resp_returns [OF a gwMsgID_fits(2)]]) (simp add: Let_def cong: if_cong)
qed

lemma fits_Nil: "fits n []"
  by (simp add: fits_def)

lemma source_policy_total:
  obtains pol where "source_policy cfg body src = Some pol"
    "\<And>b s. pol = Some (b, s) \<Longrightarrow> s = src \<or> (\<exists>c. cfg = Some c \<and> (s = cc_ForceSourceAddr c \<or> s = cc_DefaultSourceAddr c))"
proof -
  have rw: "\<exists>b. RewriteSubmitSMSource body a t n = Some b" for a t n using RewriteSubmitSMSource_no_panic [of body a t n] by blast
  have "\<exists>pol. source_policy cfg body src = Some pol \<and> (\<forall>b s. pol = Some (b, s) \<longrightarrow>
      s = src \<or> (\<exists>c. cfg = Some c \<and> (s = cc_ForceSourceAddr c \<or> s = cc_DefaultSourceAddr c)))"
  proof (cases cfg)
    case (Some c)
    then show ?thesis
      using rw [of "cc_ForceSourceAddr c" "cc_ForceSourceTON c" "cc_ForceSourceNPI c"]
        rw [of "cc_DefaultSourceAddr c" "cc_DefaultSourceTON c" "cc_DefaultSourceNPI c"]
      by (auto simp: source_policy_def)
  qed (simp add: source_policy_def)
  then show thesis using that by blast
qed

lemma HandleSubmit_returns:
  assumes "pebble_ok (e_pebble E) contents" "router_ok contents r" "unix_nano now" "length body \<le> body_max"
  shows "returns contents (HandleSubmit E now connID sq body r)"
proof -
  obtain src dst where p: "ParseSubmitSMAddresses body = Some (src, dst)"
    using ParseSubmitSMAddresses_no_panic [of body] by fastforce
  have f: "fits addr_max src" "fits addr_max dst"
    using ParseSubmitSMAddresses_length [OF p] assms(4) by (auto intro!: fitsI)
  let ?c = "GetConnection (r_server r) connID"
  let ?cfg = "case ?c of None \<Rightarrow> None | Some q \<Rightarrow> ConnConfig (deref (r_server r) q)"
  obtain pol where pol: "source_policy ?cfg body src = Some pol"
    "\<And>b s. pol = Some (b, s) \<Longrightarrow> s = src \<or> (\<exists>c. ?cfg = Some c \<and> (s = cc_ForceSourceAddr c \<or> s = cc_DefaultSourceAddr c))"
    by (rule source_policy_total [of ?cfg body src]) blast
  have cf: "conf_fits c" if "?cfg = Some c" for c
    using that assms(2) GetConnection_valid [of "r_server r" connID] router_okD(3) [OF assms(2)]
    by (auto simp: ConnConfig_def router_ok_def confs_ok_def split: option.splits)
  have sf: "fits addr_max s" if "pol = Some (b, s)" for b s
    using pol(2) [OF that] cf f(1) by (auto simp: conf_fits_def)
  have rec: "router_ok contents (map_server (map_conn q (RecordSubmit now)) r)" for q
    by (rule map_conn_ok [OF assms(2)]) (simp_all add: RecordSubmit_def Let_def)
  note acc = accept_submit_returns [OF assms(1) _ assms(3)]
  note rej = reject_submit_returns [OF assms(1)]
  show ?thesis
    unfolding HandleSubmit_def p Option.bind.simps prod.case Let_def pol(1)
    using assms(2) rec sf f(2) by (auto intro!: acc rej simp: fits_Nil split: option.split)
qed

end
