(* ===== verification/Router_Safe.thy ===== *)
theory Router_Safe
  imports Router_Inv
begin

text \<open>
  The remaining operations of the router return and keep the invariant: forwarding, receipts, mobile-originated
  messages and the retry loops. Forwarding consults the round-robin counters of the routes, whose index goes negative
  and panics once a counter passes \<open>2 ^ 63\<close>; the lemmas count the lookups that are left before that.
\<close>

section \<open>Route lookups\<close>

definition rr_room :: "nat \<Rightarrow> MTRouteTable \<Rightarrow> bool" where
  "rr_room n routes \<longleftrightarrow> (\<forall>r \<in> set routes. unat (rrIndex r) + length (Pools r) + n \<le> 2 ^ 63)"

lemma unat_Suc_le: "unat (w + 1 :: uint64) \<le> unat w + 1"
  by (simp add: unat_word_ariths)

lemma applyStrategy_room:
  assumes "unat (rrIndex route) + length (Pools route) + Suc n \<le> 2 ^ 63"
  shows "\<exists>route' res. applyStrategy live pm route = Some (route', res) \<and>
    unat (rrIndex route') + length (Pools route') + n \<le> 2 ^ 63"
proof (cases "Strategy route = lit ''round_robin''")
  case True
  have s: "applyStrategy live pm route = resolveRoundRobin live pm route" by (simp add: applyStrategy_def True)
  show ?thesis
  proof (cases "Pools route = []")
    case False
    then show ?thesis
      using assms unat_Suc_le [of "rrIndex route"] resolveRoundRobin_eq [OF False, of live pm] by (simp add: s)
  qed (use assms in \<open>simp add: s resolveRoundRobin_def\<close>)
next
  case False
  then show ?thesis using assms by (simp add: applyStrategy_def)
qed

lemma rr_room_le: "rr_room n routes \<Longrightarrow> m \<le> n \<Longrightarrow> rr_room m routes"
  by (force simp: rr_room_def)

lemma Resolve_room:
  "rr_room (Suc n) routes \<Longrightarrow> \<exists>routes' res. Resolve live pm routes d = Some (routes', res) \<and> rr_room n routes'"
proof (induction routes)
  case (Cons route routes)
  show ?case
  proof (cases "Prefix route \<noteq> star \<and> \<not> HasPrefix d (Prefix route)")
    case True
    obtain routes' res where "Resolve live pm routes d = Some (routes', res)" "rr_room n routes'"
      using Cons by (auto simp: rr_room_def)
    then show ?thesis using Cons.prems True by (auto simp: rr_room_def)
  next
    case False
    have "unat (rrIndex route) + length (Pools route) + Suc n \<le> 2 ^ 63" using Cons.prems by (simp add: rr_room_def)
    then obtain route' res where "applyStrategy live pm route = Some (route', res)"
      "unat (rrIndex route') + length (Pools route') + n \<le> 2 ^ 63"
      using applyStrategy_room by blast
    moreover have "rr_room n routes" using Cons.prems by (auto simp: rr_room_def)
    ultimately show ?thesis using False by (auto simp: rr_room_def)
  qed
qed (simp add: rr_room_def)

lemma select_submitter_room:
  assumes "router_ok contents r" "rr_room (Suc n) (r_mtRoutes r)"
  obtains r' sub where "select_submitter E d r = Some (r', sub)" "router_ok contents r'" "rr_room n (r_mtRoutes r')"
proof (cases "r_poolManager r")
  case None
  then show thesis
    using that [of r "r_southbound r"] assms rr_room_le [of "Suc n" "r_mtRoutes r" n] by (simp add: select_submitter_def None)
next
  case (Some pm)
  obtain t res where "Resolve (e_live E) pm (r_mtRoutes r) d = Some (t, res)" "rr_room n t"
    using Resolve_room [OF assms(2)] by blast
  then show thesis using that [of "r\<lparr>r_mtRoutes := t\<rparr>"] assms(1) by (auto simp: select_submitter_def Some)
qed

section \<open>Forwarding\<close>

definition returns_room :: "nat \<Rightarrow> ('d \<Rightarrow> (gostring, dbval) fmap) \<Rightarrow> ('d, 'p) Router go \<Rightarrow> bool" where
  "returns_room n contents m \<longleftrightarrow> (\<exists>r'. m = Some r' \<and> router_ok contents r' \<and> rr_room n (r_mtRoutes r'))"

lemma keeps_room: "keeps contents r m \<Longrightarrow> rr_room n (r_mtRoutes r) \<Longrightarrow> returns_room n contents m"
  by (auto simp: keeps_def returns_room_def router_frame_def)

lemma record_forwarded_ok:
  assumes "pebble_ok (e_pebble E) contents" "router_ok contents r" "fits id_max i" "fits id_max (co_GwMsgID corr)"
  shows "router_ok contents (record_forwarded E now i connID dst src raw mid corr r) \<and>
    r_mtRoutes (record_forwarded E now i connID dst src raw mid corr r) = r_mtRoutes r"
proof -
  have c: "router_ok contents (r\<lparr>r_smscCorrelation := Set (r_smscCorrelation r) mid corr\<rparr>)"
    using assms(2,4) corrs_ok_Set [of "r_smscCorrelation r" corr mid] by (simp add: router_ok_def)
  show ?thesis
    using assms(3) unfolding record_forwarded_def Let_def
    by (auto intro!: with_store_ok StoreSubmit_inv DeleteSubmit_inv SetMessageStatus_inv UpdateMessageLog_inv assms(1) c)
qed

lemma in_flight_room: "returns_room n contents m \<Longrightarrow> returns_room n contents (m \<bind> (\<lambda>r. Some (in_flight c d r)))"
  by (auto simp: returns_room_def in_flight_ok) (auto simp: in_flight_def map_server_def split: option.splits)

lemma SubmitRaw_ok: "SubmitRaw E sub raw r = (r', res) \<Longrightarrow> router_ok contents r' = router_ok contents r \<and> r_mtRoutes r' = r_mtRoutes r \<and> r_gwCorrelation r' = r_gwCorrelation r"
  by (auto simp: SubmitRaw_def)

lemma forwardSubmitRaw_returns:
  assumes "pebble_ok (e_pebble E) contents" "router_ok contents r" "unix_nano now" "rr_room (Suc n) (r_mtRoutes r)"
    and "fits id_max i" "fits addr_max dst" "fits addr_max src"
  shows "returns_room n contents (forwardSubmitRaw E now c i dst src raw r)"
proof -
  let ?id = "case c of None \<Rightarrow> [] | Some p \<Rightarrow> c_ID (deref (r_server r) p)"
  obtain r1 sub where s: "select_submitter E dst r = Some (r1, sub)" "router_ok contents r1" "rr_room n (r_mtRoutes r1)"
    using select_submitter_room [OF assms(2,4)] .
  have f: "returns_room n contents (enqueueSubmitRetryOrFail E now i ?id dst src raw 0 r')"
    if "router_ok contents r'" "r_mtRoutes r' = r_mtRoutes r1" for r'
    using that s(3) by (intro keeps_room [OF enqueueSubmitRetryOrFail_keeps] assms) simp_all
  show ?thesis
  proof (cases sub)
    case None
    then show ?thesis
      unfolding forwardSubmitRaw_def Let_def s(1) Option.bind.simps prod.case None option.case
      using f s(2) by (intro in_flight_room) simp
  next
    case (Some sb)
    obtain r2 res where sr: "SubmitRaw E sb raw r1 = (r2, res)" by force
    note ok = SubmitRaw_ok [OF sr, where contents = contents]
    let ?corr = "case Get (r_gwCorrelation r2) i of Some corr \<Rightarrow> corr
      | None \<Rightarrow> \<lparr>co_GwMsgID = i, co_NorthConnID = ?id, co_MSISDN = dst, co_SubmittedAt = now\<rparr>"
    have "fits id_max (co_GwMsgID ?corr)"
      using ok s(2) assms(5) router_okD(1) [of contents r2] by (auto simp: corrs_ok_def split: option.splits)
    then have "returns_room n contents (Some (record_forwarded E now i ?id dst src raw mid ?corr r2))" for mid
      using record_forwarded_ok [OF assms(1) _ assms(5)] ok s by (simp add: returns_room_def)
    then show ?thesis
      unfolding forwardSubmitRaw_def Let_def s(1) Option.bind.simps prod.case Some option.case sr
      using f ok s(2) by (intro in_flight_room) (auto split: submit_result.split)
  qed
qed

lemma forwardWorker_returns:
  assumes "pebble_ok (e_pebble E) contents" "router_ok contents r" "unix_nano now" "rr_room 1 (r_mtRoutes r)"
  shows "returns contents (forwardWorker_step E now r)"
proof (cases "r_forwardCh r")
  case (Cons t ts)
  have t: "task_ok t" and r: "router_ok contents (r\<lparr>r_forwardCh := ts\<rparr>)"
    using assms(2) Cons by (auto simp: router_ok_def)
  have "returns_room 0 contents (forwardWorker_step E now r)"
    using t assms(4) unfolding forwardWorker_step_def Cons list.case task_ok_def
    by (intro forwardSubmitRaw_returns assms(1,3) r) simp_all
  then show ?thesis by (auto simp: returns_room_def returns_def)
qed (simp add: forwardWorker_step_def returns_Some assms(2))

lemma retry_submit_returns:
  assumes "pebble_ok (e_pebble E) contents" "router_ok contents r" "unix_nano now" "rr_room (Suc n) (r_mtRoutes r)"
    and "fits addr_max (ps_MSISDN p) \<and> fits addr_max (ps_SourceAddr p) \<and> fits id_max (ps_GwMsgID p)"
  shows "returns_room n contents (retry_submit E now p r)"
proof -
  obtain r1 sub where s: "select_submitter E (ps_MSISDN p) r = Some (r1, sub)" "router_ok contents r1" "rr_room n (r_mtRoutes r1)"
    using select_submitter_room [OF assms(2,4)] .
  have f: "returns_room n contents (enqueueSubmitRetryOrFail E now (ps_GwMsgID p) (ps_ConnID p) (ps_MSISDN p) (ps_SourceAddr p)
      (ps_RawBody p) (ps_RetryCount p) r')" if "router_ok contents r'" "r_mtRoutes r' = r_mtRoutes r1" for r'
    using that s(3) assms(5) by (intro keeps_room [OF enqueueSubmitRetryOrFail_keeps] assms) simp_all
  show ?thesis
  proof (cases sub)
    case None
    then show ?thesis using f s by (simp add: retry_submit_def)
  next
    case (Some sb)
    obtain r2 res where sr: "SubmitRaw E sb (ps_RawBody p) r1 = (r2, res)" by force
    note ok = SubmitRaw_ok [OF sr, where contents = contents]
    show ?thesis
      using f ok s record_forwarded_ok [OF assms(1), of r2 "ps_GwMsgID p"] assms(5)
      by (cases res) (simp_all add: retry_submit_def Some sr returns_room_def)
  qed
qed

lemma retry_submits_returns:
  assumes "pebble_ok (e_pebble E) contents" "unix_nano now"
  shows "router_ok contents r \<Longrightarrow> rr_room (length ps) (r_mtRoutes r) \<Longrightarrow>
    \<forall>p \<in> set ps. fits addr_max (ps_MSISDN p) \<and> fits addr_max (ps_SourceAddr p) \<and> fits id_max (ps_GwMsgID p) \<Longrightarrow>
    returns contents (retry_submits E now ps r)"
proof (induction ps arbitrary: r)
  case (Cons p ps)
  have "returns_room (length ps) contents (retry_submit E now p r)"
    using Cons.prems by (intro retry_submit_returns assms) simp_all
  then show ?case using Cons by (auto simp: returns_room_def)
qed (simp add: returns_Some)

lemma drainSubmitRetries_returns:
  assumes "pebble_ok (e_pebble E) contents" "router_ok contents r" "unix_nano now"
    and "rr_room (nat (r_submitRetryDrainLimit r)) (r_mtRoutes r)"
  shows "returns contents (drainSubmitRetries E now r)"
proof (cases "r_store r")
  case (Some s)
  then have inv: "store_inv contents s" and l: "0 < r_submitRetryDrainLimit r" using assms(2) by (simp_all add: router_ok_def)
  obtain s' res where d: "DrainSubmitRetries (e_pebble E) s (r_submitRetryDrainLimit r) = (s', res)" by force
  note di = DrainSubmitRetries_inv [OF assms(1) inv d]
  have r: "router_ok contents (r\<lparr>r_store := Some s'\<rparr>)" using assms(2) di(1) by (simp add: router_ok_def)
  show ?thesis
  proof (cases res)
    case (Inr ps)
    have "rr_room (length ps) (r_mtRoutes (r\<lparr>r_store := Some s'\<rparr>))"
      using rr_room_le [OF assms(4), of "length ps"] di(3) [OF Inr l] by simp
    then show ?thesis
      using retry_submits_returns [OF assms(1,3) r] di(2) [OF Inr] by (simp add: drainSubmitRetries_def Some d Inr)
  qed (simp add: drainSubmitRetries_def Some d returns_Some r)
qed (simp add: drainSubmitRetries_def returns_Some assms(2))

section \<open>Receipts and mobile-originated messages\<close>

lemma length_replace_first: "length (replace_first old new s) \<le> length s + length new"
  by (induction s) auto

lemma length_translate: "length (translateDLRMessageID t a b) \<le> length t + length b + 3"
  using length_replace_first [of "lit ''id:'' @ a" "lit ''id:'' @ b" t] by (simp add: translateDLRMessageID_def)

lemma find_correlation_fits:
  assumes "pebble_ok (e_pebble E) contents" "router_ok contents r" "find_correlation E i r = Some corr"
  shows "fits id_max (co_GwMsgID corr)"
proof (cases "Get (r_smscCorrelation r) i")
  case (Some c)
  then show ?thesis
    using assms(3) router_okD(2) [OF assms(2)] by (auto simp: find_correlation_def corrs_ok_def)
next
  case None
  then obtain s rec where "r_store r = Some s" "GetSubmit (e_pebble E) s i = Inr (Some rec)" "co_GwMsgID corr = sr_GwMsgID rec"
    using assms(3) by (auto simp: find_correlation_def split: option.splits sum.splits)
  then show ?thesis using GetSubmit_fits [OF assms(1)] assms(2) by (auto simp: router_ok_def)
qed

lemma forget_correlation_ok:
  "pebble_ok (e_pebble E) contents \<Longrightarrow> router_ok contents r \<Longrightarrow> router_ok contents (forget_correlation E a b r)"
  unfolding forget_correlation_def
  by (intro with_store_ok DeleteSubmit_inv) (auto simp: router_ok_def)

abbreviation deliver_fits :: "gostring \<Rightarrow> gostring \<Rightarrow> bytes \<Rightarrow> bool" where
  "deliver_fits src dst payload \<equiv> length src \<le> body_max \<and> length dst \<le> body_max \<and> length payload \<le> body_max"

lemma handleDLR_returns:
  assumes "pebble_ok (e_pebble E) contents" "router_ok contents r" "unix_nano now" "deliver_fits src dst payload"
  shows "returns contents (handleDLR E now src dst esm payload r)"
proof -
  let ?r = "r\<lparr>r_totalDLRs := r_totalDLRs r + 1\<rparr>"
  have r: "router_ok contents ?r" using assms(2) by simp
  show ?thesis
  proof (cases "ParseDLRReceipt payload")
    case (Some rc)
    show ?thesis
    proof (cases "find_correlation E (dr_MessageID rc) ?r")
      case corr: (Some corr)
      let ?body = "BuildDeliverSMBody src dst esm (translateDLRMessageID payload (dr_MessageID rc) (co_GwMsgID corr))"
      have sz: "length ?body < 2 ^ 31"
        using length_BuildDeliverSMBody [of src dst esm "translateDLRMessageID payload (dr_MessageID rc) (co_GwMsgID corr)"]
          length_translate [of payload "dr_MessageID rc" "co_GwMsgID corr"]
          fits_length [OF find_correlation_fits [OF assms(1) r corr]] assms(4) by simp
      let ?u = "with_store (\<lambda>s. UpdateMessageLog (e_pebble E) s now (co_GwMsgID corr) (mark_dlr (dr_Status rc))) ?r"
      have u: "router_ok contents ?u" by (rule with_store_ok [OF r]) (rule UpdateMessageLog_inv [OF assms(1)])
      have cb: "returns contents (deliverDLRCallback E now a b c d r')" if "router_ok contents r'" for a b c d r'
        using that by (intro keeps_returns [OF deliverDLRCallback_keeps] assms(1))
      have st: "router_ok contents r' \<Longrightarrow> router_ok contents (with_store (\<lambda>s. SetMessageStatus (e_pebble E) s m) r')" for m r'
        by (erule with_store_ok) (rule SetMessageStatus_inv [OF assms(1)])
      have rest: "returns contents (deliverDLRCallback E now (co_GwMsgID corr) (dr_Status rc) dst src ?u \<bind>
          (\<lambda>r. Some (forget_correlation E (dr_MessageID rc) (co_GwMsgID corr) (with_store (\<lambda>s. SetMessageStatus (e_pebble E) s m) r))))" for m
        by (rule returns_bind [OF cb [OF u]]) (simp add: returns_Some forget_correlation_ok st assms(1))
      have smpp: "returns contents (deliverWithGrace E now (co_NorthConnID corr) ?body (co_MSISDN corr) esm src dst (co_GwMsgID corr) True ?u \<bind>
          (\<lambda>(r, delivered). if delivered then deliverDLRCallback E now (co_GwMsgID corr) (dr_Status rc) dst src
             (forget_correlation E (dr_MessageID rc) (co_GwMsgID corr) r) else Some r))"
        by (rule returns_bind2 [OF deliverWithGrace_keeps [OF assms(1) u assms(3) sz]])
          (auto simp: returns_Some forget_correlation_ok assms(1) intro!: cb)
      show ?thesis using rest smpp by (simp add: handleDLR_def Let_def Some corr)
    qed (use r in \<open>simp add: handleDLR_def Let_def Some returns_Some\<close>)
  qed (use r in \<open>simp add: handleDLR_def Let_def returns_Some\<close>)
qed

lemma deliverMOCallback_ok: "router_ok contents r \<Longrightarrow> router_ok contents (deliverMOCallback E now url src dst payload r)"
  by (simp add: deliverMOCallback_def postCallback_keeps)

lemma grace_returns:
  assumes "pebble_ok (e_pebble E) contents" "router_ok contents r" "unix_nano now" "deliver_fits src dst payload"
  shows "returns contents (deliverWithGrace E now connID (BuildDeliverSMBody src dst esm payload) m esm src dst rid isDLR r \<bind> (\<lambda>(r, _). Some r))"
proof -
  have "length (BuildDeliverSMBody src dst esm payload) < 2 ^ 31"
    using length_BuildDeliverSMBody [of src dst esm payload] assms(4) by simp
  then show ?thesis
    by (intro returns_bind2 [OF deliverWithGrace_keeps [OF assms(1-3)]]) (simp_all add: returns_Some)
qed

lemma mo_fallback_returns:
  assumes "pebble_ok (e_pebble E) contents" "router_ok contents r" "unix_nano now" "deliver_fits src dst payload"
  shows "returns contents (mo_fallback E now src dst esm payload r)"
proof -
  have "length (BuildDeliverSMBody src dst esm payload) < 2 ^ 31"
    using length_BuildDeliverSMBody [of src dst esm payload] assms(4) by simp
  then have "returns contents (Some (with_store (\<lambda>s. EnqueueRetry (e_pebble E) s (mo_id now)
      \<lparr>pd_TargetConnID = [], pd_MSISDN = src, pd_PDUBody = BuildDeliverSMBody src dst esm payload, pd_ESMClass = esm,
       pd_SourceAddr = src, pd_DestAddr = dst, pd_EnqueuedAt = now\<rparr>) r))"
    using assms by (intro returns_Some with_store_ok EnqueueRetry_inv) simp_all
  then show ?thesis
    using grace_returns [OF assms] unfolding mo_fallback_def Let_def by (simp split: option.split)
qed

lemma handleMO_returns:
  assumes "pebble_ok (e_pebble E) contents" "router_ok contents r" "unix_nano now" "deliver_fits src dst payload"
  shows "returns contents (handleMO E now src dst esm payload r)"
proof -
  let ?r = "r\<lparr>r_totalMO := r_totalMO r + 1\<rparr>"
  have r: "router_ok contents ?r" using assms(2) by simp
  show ?thesis
    using mo_fallback_returns [OF assms(1) r assms(3,4)] grace_returns [OF assms(1) r assms(3,4)] deliverMOCallback_ok [OF r]
    unfolding handleMO_def Let_def by (simp add: returns_Some split: option.split)
qed

lemma HandleDeliver_returns:
  "pebble_ok (e_pebble E) contents \<Longrightarrow> router_ok contents r \<Longrightarrow> unix_nano now \<Longrightarrow> deliver_fits src dst payload \<Longrightarrow>
   returns contents (HandleDeliver E now src dst esm payload r)"
  by (simp add: HandleDeliver_def handleDLR_returns handleMO_returns)

section \<open>Retry loops\<close>

lemma retry_deliver_keeps:
  assumes "pebble_ok (e_pebble E) contents" "router_ok contents r" "unix_nano (pd_EnqueuedAt p) \<and> length (pd_PDUBody p) < 2 ^ 31"
  shows "keeps contents r (retry_deliver E now p r)"
proof -
  have q: "router_ok contents r' \<Longrightarrow> router_ok contents (with_store (\<lambda>s. EnqueueRetry (e_pebble E) s i p) r')" for i and r' :: "('a, 'b) Router"
    using assms by (intro with_store_ok EnqueueRetry_inv) simp_all
  show ?thesis
    using assms q unfolding retry_deliver_def Let_def
    by (auto intro!: keeps_Some keeps_bind2 deliver_keeps)
qed

lemma retry_delivers_returns:
  assumes "pebble_ok (e_pebble E) contents"
  shows "router_ok contents r \<Longrightarrow> \<forall>p \<in> set ps. unix_nano (pd_EnqueuedAt p) \<and> length (pd_PDUBody p) < 2 ^ 31 \<Longrightarrow>
    returns contents (retry_delivers E clock i ps r)"
proof (induction ps arbitrary: r i)
  case (Cons p ps)
  have "returns contents (retry_deliver E (clock i) p r)"
    using Cons.prems by (intro keeps_returns [OF retry_deliver_keeps] assms) simp_all
  then show ?case using Cons by (auto simp: returns_def)
qed (simp add: returns_Some)

lemma drainRetries_returns:
  assumes "pebble_ok (e_pebble E) contents" "router_ok contents r"
  shows "returns contents (drainRetries E now clock maxAge r)"
proof (cases "r_store r")
  case (Some s)
  then have inv: "store_inv contents s" using assms(2) by (simp add: router_ok_def)
  obtain s' res where d: "DrainRetries (e_pebble E) s now maxAge (r_retryDrainLimit r) = (s', res)" by force
  note di = DrainRetries_inv [OF assms(1) inv d]
  have r: "router_ok contents (r\<lparr>r_store := Some s'\<rparr>)" using assms(2) di(1) by (simp add: router_ok_def)
  show ?thesis
  proof (cases res)
    case (Inr ps)
    then show ?thesis using retry_delivers_returns [OF assms(1) r] di(2) by (simp add: drainRetries_def Some d Inr)
  qed (simp add: drainRetries_def Some d returns_Some r)
qed (simp add: drainRetries_def returns_Some assms(2))

lemma process_callback_returns:
  assumes "pebble_ok (e_pebble E) contents" "router_ok contents r"
  shows "returns contents (process_callback E now item r)"
proof -
  let ?r = "with_store (\<lambda>s. DeleteKey (e_pebble E) s (fst item)) r"
  have r: "router_ok contents ?r" using assms by (intro with_store_ok DeleteSubmit_inv)
  show ?thesis
  proof (cases "r_store ?r")
    case (Some s)
    then have inv: "store_inv contents s" using r by (simp only: router_ok_def)
    show ?thesis
    proof (cases "GetJSON (e_pebble E) s (callback_key (cb_GwMsgID (snd item))) as_callback")
      case (Inr cb)
      let ?pl = "DLRPayload \<lparr>dc_Event = lit ''dlr'', dc_ID = cb_GwMsgID cb, dc_Status = lit ''DELIVRD'', dc_To = [], dc_From = [],
        dc_Reference = cb_Reference cb, dc_Timestamp = now\<rparr>"
      obtain r' ok where p: "postCallback E (cb_CallbackURL cb) ?pl ?r = (r', ok)" by force
      have k: "router_ok contents r'" using postCallback_keeps [OF r, of E "cb_CallbackURL cb" ?pl] p by simp
      have "returns contents (enqueueCallbackRetry E now (cb_GwMsgID cb) cb r')"
        using GetJSON_callback [OF assms(1) inv Inr] by (intro keeps_returns [OF enqueueCallbackRetry_keeps] assms(1) k)
      moreover have "returns contents (Some (with_store (\<lambda>s. DeleteKey (e_pebble E) s (callback_key (cb_GwMsgID cb))) r'))"
        using assms(1) k by (intro returns_Some with_store_ok DeleteSubmit_inv)
      ultimately show ?thesis unfolding process_callback_def Let_def Some option.case Inr sum.case p by simp
    qed (use r Some in \<open>simp only: process_callback_def Let_def option.case sum.case returns_Some\<close>)
  qed (use r in \<open>simp only: process_callback_def Let_def option.case returns_Some\<close>)
qed

lemma process_callbacks_returns:
  "pebble_ok (e_pebble E) contents \<Longrightarrow> router_ok contents r \<Longrightarrow> returns contents (process_callbacks E now items r)"
  by (induction items arbitrary: r) (auto intro!: returns_Some returns_bind process_callback_returns)

lemma drainCallbackRetries_returns:
  "pebble_ok (e_pebble E) contents \<Longrightarrow> router_ok contents r \<Longrightarrow> returns contents (drainCallbackRetries E now r)"
  by (auto simp: drainCallbackRetries_def returns_Some process_callbacks_returns split: option.split)

lemma corrs_ok_deletes: "corrs_ok m \<Longrightarrow> corrs_ok (foldl Delete m ks)"
  by (induction ks arbitrary: m) auto

lemma CleanupCorrelations_ok: "router_ok contents r \<Longrightarrow> router_ok contents (CleanupCorrelations_tick ord now maxAge r)"
  by (simp add: CleanupCorrelations_tick_def Let_def router_ok_def corrs_ok_deletes)

end
