(* ===== verification/Rest_Api.thy ===== *)
theory Rest_Api
  imports Router_Safe
begin

text \<open>
  The REST interface \<^verbatim>\<open>gateway/rest_api.go\<close>: submission of one message or a batch, and the status query. A request is the
  decoded JSON body, \<open>None\<close> when it does not decode; a response is its status code and its JSON value.
\<close>

section \<open>Requests and responses\<close>

record SMSSubmitRequest =
  rq_To :: gostring
  rq_From :: gostring
  rq_Body :: gostring
  rq_Encoding :: gostring
  rq_CallbackURL :: gostring
  rq_Reference :: gostring
  rq_RegisteredDelivery :: "bool option"

record SMSSubmitResponse =
  rs_ID :: gostring
  rs_Status :: gostring
  rs_To :: gostring
  rs_Reference :: gostring

record SMSBatchRequest =
  bq_Messages :: "SMSSubmitRequest list"
  bq_CallbackURL :: gostring
  bq_ReferencePrefix :: gostring

datatype rest_json =
    RestError string
  | RestAccepted SMSSubmitResponse
  | RestBatch "SMSSubmitResponse list"
  | RestObject "(string \<times> gostring) list"

type_synonym rest_response = "nat \<times> rest_json"

section \<open>Submission\<close>

text \<open>The part of both handlers that takes one message: what they record, and the hand-over to the forwarding queue.\<close>

definition rest_record :: "('d, 'p) env \<Rightarrow> Time \<Rightarrow> gostring \<Rightarrow> bytes \<Rightarrow> SMSSubmitRequest \<Rightarrow> ('d, 'p) Router \<Rightarrow> ('d, 'p) Router" where
  "rest_record E now gwMsgID rawBody body r =
     (let corr = \<lparr>co_GwMsgID = gwMsgID, co_NorthConnID = rest_api, co_MSISDN = rq_To body, co_SubmittedAt = now\<rparr>;
          r = r\<lparr>r_gwCorrelation := Set (r_gwCorrelation r) gwMsgID corr\<rparr>;
          r = with_store (\<lambda>s. StoreSubmit (e_pebble E) s
                \<lparr>sr_GwMsgID = gwMsgID, sr_SmscMsgID = [], sr_NorthConnID = rest_api, sr_OrigSeqNum = 0, sr_MSISDN = rq_To body,
                 sr_SourceAddr = rq_From body, sr_Payload = rawBody, sr_SubmittedAt = now\<rparr>) r;
          r = with_store (\<lambda>s. SetMessageStatus (e_pebble E) s
                \<lparr>ms_GwMsgID = gwMsgID, ms_To = rq_To body, ms_From = rq_From body, ms_Reference = rq_Reference body,
                 ms_Status = lit ''accepted'', ms_DLRStatus = [], ms_SmscMsgID = [], ms_UpdatedAt = now\<rparr>) r
      in if rq_CallbackURL body \<noteq> [] then with_store (\<lambda>s. SetJSON (e_pebble E) s (callback_key gwMsgID)
           (marshal_CallbackRecord \<lparr>cb_GwMsgID = gwMsgID, cb_CallbackURL = rq_CallbackURL body,
              cb_Reference = rq_Reference body, cb_Retries = 0, cb_NextAttempt = zero_time\<rparr>)) r else r)"

definition rest_submit :: "('d, 'p) env \<Rightarrow> Time \<Rightarrow> SMSSubmitRequest \<Rightarrow> ('d, 'p) Router \<Rightarrow> (('d, 'p) Router \<times> gostring) go" where
  "rest_submit E now body r = do {
     let (r, gwMsgID) = nextMsgID r;
     let rawBody = BuildSubmitSMBody (rq_From body) (rq_To body) (rq_Body body);
     let r = rest_record E now gwMsgID rawBody body r;
     let (r, enqueued) = try_forward \<lparr>ft_conn = None, ft_gwMsgID = gwMsgID, ft_destAddr = rq_To body,
           ft_sourceAddr = rq_From body, ft_rawBody = rawBody\<rparr> r;
     r \<leftarrow> (if enqueued then Some r
           else enqueueSubmitRetryOrFail E now gwMsgID rest_api (rq_To body) (rq_From body) rawBody 0 r);
     Some (r, gwMsgID)
   }"

definition accepted_response :: "gostring \<Rightarrow> SMSSubmitRequest \<Rightarrow> SMSSubmitResponse" where
  "accepted_response gwMsgID body =
     \<lparr>rs_ID = gwMsgID, rs_Status = lit ''accepted'', rs_To = rq_To body, rs_Reference = rq_Reference body\<rparr>"

definition HandleHTTPSubmit :: "('d, 'p) env \<Rightarrow> Time \<Rightarrow> SMSSubmitRequest option \<Rightarrow> ('d, 'p) Router \<Rightarrow>
    (('d, 'p) Router \<times> rest_response) go" where
  "HandleHTTPSubmit E now req r =
     (case req of
        None \<Rightarrow> Some (r, 400, RestError ''invalid JSON'')
      | Some body \<Rightarrow>
          if rq_To body = [] \<or> rq_Body body = [] then Some (r, 400, RestError ''to and body are required'')
          else do {
            (r, gwMsgID) \<leftarrow> rest_submit E now body r;
            Some (r, 202, RestAccepted (accepted_response gwMsgID body))
          })"

text \<open>The defaults a batch gives its \<open>i\<close>-th message.\<close>

definition batch_defaults :: "SMSBatchRequest \<Rightarrow> nat \<Rightarrow> SMSSubmitRequest \<Rightarrow> SMSSubmitRequest" where
  "batch_defaults breq i msg =
     (let msg = (if rq_CallbackURL msg = [] then msg\<lparr>rq_CallbackURL := bq_CallbackURL breq\<rparr> else msg)
      in if rq_Reference msg = [] \<and> bq_ReferencePrefix breq \<noteq> []
         then msg\<lparr>rq_Reference := bq_ReferencePrefix breq @ lit ''-'' @ dec i\<rparr> else msg)"

fun batch_loop :: "('d, 'p) env \<Rightarrow> (nat \<Rightarrow> Time) \<Rightarrow> SMSBatchRequest \<Rightarrow> nat \<Rightarrow> SMSSubmitRequest list \<Rightarrow> SMSSubmitResponse list \<Rightarrow>
    ('d, 'p) Router \<Rightarrow> (('d, 'p) Router \<times> SMSSubmitResponse list) go" where
  "batch_loop E clock breq i [] results r = Some (r, results)"
| "batch_loop E clock breq i (msg # msgs) results r = do {
     let msg = batch_defaults breq i msg;
     (r, gwMsgID) \<leftarrow> rest_submit E (clock i) msg r;
     batch_loop E clock breq (Suc i) msgs (results @ [accepted_response gwMsgID msg]) r
   }"

definition HandleHTTPBatchSubmit :: "('d, 'p) env \<Rightarrow> (nat \<Rightarrow> Time) \<Rightarrow> SMSBatchRequest option \<Rightarrow> ('d, 'p) Router \<Rightarrow>
    (('d, 'p) Router \<times> rest_response) go" where
  "HandleHTTPBatchSubmit E clock req r =
     (case req of
        None \<Rightarrow> Some (r, 400, RestError ''invalid JSON'')
      | Some breq \<Rightarrow>
          if bq_Messages breq = [] then Some (r, 400, RestError ''messages array is empty'')
          else if 1000 < length (bq_Messages breq) then Some (r, 400, RestError ''max 1000 messages per batch'')
          else do {
            (r, results) \<leftarrow> batch_loop E clock breq 0 (bq_Messages breq) [] r;
            Some (r, 202, RestBatch results)
          })"

section \<open>Query\<close>

definition status_object :: "gostring \<Rightarrow> MessageStatus \<Rightarrow> (string \<times> gostring) list" where
  "status_object i st =
     [(''id'', i), (''status'', ms_Status st), (''to'', ms_To st)] @
     (if ms_From st \<noteq> [] then [(''from'', ms_From st)] else []) @
     (if ms_Reference st \<noteq> [] then [(''reference'', ms_Reference st)] else []) @
     (if ms_DLRStatus st \<noteq> [] then [(''dlr_status'', ms_DLRStatus st)] else []) @
     (if ms_SmscMsgID st \<noteq> [] then [(''smsc_msg_id'', ms_SmscMsgID st)] else [])"

definition query_memory :: "('d, 'p) Router \<Rightarrow> gostring \<Rightarrow> rest_response" where
  "query_memory r i =
     (case Get (r_gwCorrelation r) i of
        Some corr \<Rightarrow> (200, RestObject [(''id'', i), (''status'', lit ''submitted''), (''to'', co_MSISDN corr)])
      | None \<Rightarrow> (404, RestError ''message not found''))"

definition HandleHTTPQuery :: "('d, 'p) env \<Rightarrow> gostring \<Rightarrow> ('d, 'p) Router \<Rightarrow> rest_response" where
  "HandleHTTPQuery E i r =
     (if i = [] then (400, RestError ''id required'')
      else case r_store r of
        None \<Rightarrow> query_memory r i
      | Some s \<Rightarrow>
          (case GetMessageStatus (e_pebble E) s i of
             Inr (Some st) \<Rightarrow> (200, RestObject (status_object i st))
           | _ \<Rightarrow>
               (case GetSubmitByGwID (e_pebble E) s i of
                  Inr (Some record) \<Rightarrow>
                    (200, RestObject [(''id'', i), (''status'', lit ''pending''), (''to'', sr_MSISDN record)])
                | _ \<Rightarrow> query_memory r i)))"

section \<open>Submission returns\<close>

abbreviation request_fits :: "SMSSubmitRequest \<Rightarrow> bool" where
  "request_fits m \<equiv> length (rq_To m) \<le> body_max \<and> length (rq_From m) \<le> body_max"

lemma rest_record_ok:
  assumes "pebble_ok (e_pebble E) contents" "router_ok contents r" "fits id_max i"
  shows "router_ok contents (rest_record E now i raw m r)"
proof -
  have "corrs_ok (Set (r_gwCorrelation r) i \<lparr>co_GwMsgID = i, co_NorthConnID = rest_api, co_MSISDN = rq_To m, co_SubmittedAt = now\<rparr>)"
    using router_okD(1) [OF assms(2)] assms(3) by (intro corrs_ok_Set) simp_all
  then show ?thesis
    using assms(2,3) unfolding rest_record_def Let_def
    by (auto intro!: with_store_ok StoreSubmit_inv SetMessageStatus_inv SetJSON_callback_inv assms(1))
qed

lemma rest_submit_returns:
  assumes "pebble_ok (e_pebble E) contents" "router_ok contents r" "unix_nano now" "request_fits m"
  shows "\<exists>r'. rest_submit E now m r = Some (r', snd (nextMsgID r)) \<and> router_ok contents r'"
proof -
  let ?i = "snd (nextMsgID r)"
  let ?raw = "BuildSubmitSMBody (rq_From m) (rq_To m) (rq_Body m)"
  let ?task = "\<lparr>ft_conn = None, ft_gwMsgID = ?i, ft_destAddr = rq_To m, ft_sourceAddr = rq_From m, ft_rawBody = ?raw\<rparr>"
  have i: "fits id_max ?i" using gwMsgID_fits by (simp add: nextMsgID_def Let_def)
  have f: "fits addr_max (rq_To m)" "fits addr_max (rq_From m)" using assms(4) by (auto intro!: fitsI)
  have t: "task_ok ?task" using f i by (simp add: task_ok_def)
  have "router_ok contents (fst (nextMsgID r))" using assms(2) by (simp add: nextMsgID_def Let_def)
  then obtain r2 e where tf: "try_forward ?task (rest_record E now ?i ?raw m (fst (nextMsgID r))) = (r2, e)" "router_ok contents r2"
    using try_forward_ok [OF rest_record_ok [OF assms(1) _ i] t] by (metis prod.collapse)
  have "returns contents (enqueueSubmitRetryOrFail E now ?i rest_api (rq_To m) (rq_From m) ?raw 0 r2)"
    by (intro keeps_returns [OF enqueueSubmitRetryOrFail_keeps] assms(1,3) tf(2) i f)
  then show ?thesis using tf by (auto simp: rest_submit_def split_beta Let_def returns_def)
qed

lemma batch_loop_returns:
  assumes "pebble_ok (e_pebble E) contents" "\<forall>i. unix_nano (clock i)"
  shows "router_ok contents r \<Longrightarrow> \<forall>m \<in> set ms. request_fits m \<Longrightarrow>
    \<exists>r' rs. batch_loop E clock breq i ms results r = Some (r', results @ rs) \<and> router_ok contents r' \<and> length rs = length ms"
proof (induction ms arbitrary: r i results)
  case (Cons m ms)
  have "request_fits (batch_defaults breq i m)" using Cons.prems by (simp add: batch_defaults_def Let_def)
  then obtain r1 j where s: "rest_submit E (clock i) (batch_defaults breq i m) r = Some (r1, j)" "router_ok contents r1"
    using rest_submit_returns [OF assms(1) Cons.prems(1)] assms(2) by blast
  let ?res = "results @ [accepted_response j (batch_defaults breq i m)]"
  have "\<forall>m \<in> set ms. request_fits m" using Cons.prems(2) by simp
  then obtain r' rs where b: "batch_loop E clock breq (Suc i) ms ?res r1 = Some (r', ?res @ rs)" "router_ok contents r'" "length rs = length ms"
    using Cons.IH [OF s(2), of "Suc i" ?res] by blast
  then show ?case
    by (intro exI [of _ r'] exI [of _ "accepted_response j (batch_defaults breq i m) # rs"]) (simp add: Let_def s(1))
qed simp

end
