(* ===== verification/Router_Submit.thy ===== *)
theory Router_Submit
  imports Router_Safe
begin

text \<open>
  What \<^verbatim>\<open>HandleSubmit\<close> promises an engine: exactly one answer, acceptance by policy, no trace of a rejected message, no
  accepted message lost, and the rate limit.
\<close>

section \<open>The effect of an accepted submit\<close>

text \<open>The answer on the session, if there is one.\<close>

definition answer :: "conn_ptr option \<Rightarrow> uint32 \<Rightarrow> uint32 \<Rightarrow> gostring \<Rightarrow> Server \<Rightarrow> Server" where
  "answer c sq st mid s =
     (case c of None \<Rightarrow> s | Some p \<Rightarrow> map_conn p (wrote (pdu_wire (plain_pdu CmdSubmitSMResp st sq (mid @ [0])))) s)"

lemma submit_resp_answer: "length mid < 100 \<Longrightarrow> submit_resp c sq st mid r = Some (map_server (answer c sq st mid) r)"
proof (cases c)
  case None
  then show ?thesis by (simp add: submit_resp_def answer_def map_server_def)
next
  case (Some p)
  then show "length mid < 100 \<Longrightarrow> ?thesis" using submit_resp_eq [of mid p sq st r] by (simp add: answer_def map_server_def)
qed

abbreviation next_id :: "('d, 'p) Router \<Rightarrow> gostring" where
  "next_id r \<equiv> lit ''GW-'' @ dec (unat (r_msgSeq r + 1))"

abbreviation submit_task :: "conn_ptr option \<Rightarrow> gostring \<Rightarrow> gostring \<Rightarrow> bytes \<Rightarrow> ('d, 'p) Router \<Rightarrow> forwardTask" where
  "submit_task c src dst body r \<equiv>
     \<lparr>ft_conn = c, ft_gwMsgID = next_id r, ft_destAddr = dst, ft_sourceAddr = src, ft_rawBody = body\<rparr>"

text \<open>The router once the message is answered, correlated, persisted and logged, before it is queued.\<close>

definition accepted_router :: "('d, 'p) env \<Rightarrow> Time \<Rightarrow> gostring \<Rightarrow> conn_ptr option \<Rightarrow> uint32 \<Rightarrow> gostring \<Rightarrow> gostring \<Rightarrow> bytes \<Rightarrow>
    ('d, 'p) Router \<Rightarrow> ('d, 'p) Router" where
  "accepted_router E now connID c sq src dst body r =
     with_store (\<lambda>s. LogMessage (e_pebble E) s now (log_entry (next_id r) connID src dst (lit ''accepted'')))
       (with_store (\<lambda>s. StoreSubmit (e_pebble E) s
          \<lparr>sr_GwMsgID = next_id r, sr_SmscMsgID = [], sr_NorthConnID = connID, sr_OrigSeqNum = sq, sr_MSISDN = dst,
           sr_SourceAddr = src, sr_Payload = body, sr_SubmittedAt = now\<rparr>)
         (r\<lparr>r_server := answer c sq StatusOK (next_id r) (r_server r),
            r_msisdnAffinity := (if dst \<noteq> [] then Set (r_msisdnAffinity r) dst connID else r_msisdnAffinity r),
            r_msgSeq := r_msgSeq r + 1, r_totalSubmits := r_totalSubmits r + 1,
            r_gwCorrelation := Set (r_gwCorrelation r) (next_id r)
              \<lparr>co_GwMsgID = next_id r, co_NorthConnID = connID, co_MSISDN = dst, co_SubmittedAt = now\<rparr>\<rparr>))"

lemma map_conn_twice: "map_conn p f (map_conn p g s) = map_conn p (\<lambda>c. f (g c)) s"
  by (cases "p < length (sv_heap s)") (simp_all add: put_conn_def list_update_beyond)

lemma map_conn_id: "map_conn p (\<lambda>c. c) s = s"
  by (cases "p < length (sv_heap s)") (simp_all add: put_conn_def list_update_beyond)

lemma in_flight_undone: "in_flight c (- 1) ((in_flight c 1 r)\<lparr>r_totalThrottled := n\<rparr>) = r\<lparr>r_totalThrottled := n\<rparr>"
proof (cases c)
  case (Some p)
  have u: "InFlightAdd (InFlightAdd c 1) (- 1) = c" for c by (simp add: InFlightAdd_def)
  have "map_conn p (\<lambda>c. InFlightAdd c (- 1)) (map_conn p (\<lambda>c. InFlightAdd c 1) (r_server r)) = r_server r"
    using map_conn_twice [of p "\<lambda>c. InFlightAdd c (- 1)" "\<lambda>c. InFlightAdd c 1" "r_server r"] map_conn_id [of p "r_server r"]
    by (simp only: u)
  then show ?thesis by (simp add: in_flight_def Some map_server_def)
qed (simp add: in_flight_def)

lemma in_flight_fields [simp]:
  "r_forwardCh (in_flight c d r) = r_forwardCh r" "r_queueSize (in_flight c d r) = r_queueSize r"
  "r_totalThrottled (in_flight c d r) = r_totalThrottled r" "r_store (in_flight c d r) = r_store r"
  "r_gwCorrelation (in_flight c d r) = r_gwCorrelation r" "r_totalSubmits (in_flight c d r) = r_totalSubmits r"
  "r_msgSeq (in_flight c d r) = r_msgSeq r" "r_smscCorrelation (in_flight c d r) = r_smscCorrelation r"
  by (simp_all add: in_flight_def map_server_def split: option.split)

lemma with_store_throttled [simp]: "r_totalThrottled (with_store f r) = r_totalThrottled r"
  by (simp add: with_store_def split: option.split)

lemma accepted_router_fields [simp]:
  "r_forwardCh (accepted_router E now connID c sq src dst body r) = r_forwardCh r"
  "r_queueSize (accepted_router E now connID c sq src dst body r) = r_queueSize r"
  "r_totalThrottled (accepted_router E now connID c sq src dst body r) = r_totalThrottled r"
  "r_server (accepted_router E now connID c sq src dst body r) = answer c sq StatusOK (next_id r) (r_server r)"
  "r_totalSubmits (accepted_router E now connID c sq src dst body r) = r_totalSubmits r + 1"
  "r_maxSubmitRetries (accepted_router E now connID c sq src dst body r) = r_maxSubmitRetries r"
  "r_delivers (accepted_router E now connID c sq src dst body r) = r_delivers r"
  "r_rateLimitTPS (accepted_router E now connID c sq src dst body r) = r_rateLimitTPS r"
  "r_gwCorrelation (accepted_router E now connID c sq src dst body r) = Set (r_gwCorrelation r) (next_id r)
     \<lparr>co_GwMsgID = next_id r, co_NorthConnID = connID, co_MSISDN = dst, co_SubmittedAt = now\<rparr>"
  by (simp_all add: accepted_router_def)

lemma accept_submit_eq:
  "accept_submit E now connID c sq src dst body r =
     (let a = accepted_router E now connID c sq src dst body r in
      if int (length (r_forwardCh r)) < r_queueSize r
      then Some ((in_flight c 1 a)\<lparr>r_forwardCh := r_forwardCh r @ [submit_task c src dst body r]\<rparr>)
      else enqueueSubmitRetryOrFail E now (next_id r) connID dst src body 0 (a\<lparr>r_totalThrottled := r_totalThrottled r + 1\<rparr>))"
proof -
  let ?r1 = "(if dst \<noteq> [] then r\<lparr>r_msisdnAffinity := Set (r_msisdnAffinity r) dst connID\<rparr> else r)"
  let ?a = "accepted_router E now connID c sq src dst body r"
  have n: "nextMsgID ?r1 = (?r1\<lparr>r_msgSeq := r_msgSeq r + 1\<rparr>, next_id r)" by (simp add: nextMsgID_def Let_def)
  have sr: "submit_resp c sq StatusOK (next_id r) (?r1\<lparr>r_msgSeq := r_msgSeq r + 1\<rparr>) =
      Some (map_server (answer c sq StatusOK (next_id r)) (?r1\<lparr>r_msgSeq := r_msgSeq r + 1\<rparr>))"
    by (rule submit_resp_answer [OF gwMsgID_fits(2)])
  let ?r2 = "map_server (answer c sq StatusOK (next_id r)) (?r1\<lparr>r_msgSeq := r_msgSeq r + 1\<rparr>)"
  let ?r3 = "?r2\<lparr>r_totalSubmits := r_totalSubmits ?r2 + 1\<rparr>"
  let ?corr = "\<lparr>co_GwMsgID = next_id r, co_NorthConnID = connID, co_MSISDN = dst, co_SubmittedAt = now\<rparr>"
  have a: "with_store (\<lambda>s. LogMessage (e_pebble E) s now (log_entry (next_id r) connID src dst (lit ''accepted'')))
      (with_store (\<lambda>s. StoreSubmit (e_pebble E) s
          \<lparr>sr_GwMsgID = next_id r, sr_SmscMsgID = [], sr_NorthConnID = connID, sr_OrigSeqNum = sq, sr_MSISDN = dst,
           sr_SourceAddr = src, sr_Payload = body, sr_SubmittedAt = now\<rparr>)
        (?r3\<lparr>r_gwCorrelation := Set (r_gwCorrelation ?r3) (next_id r) ?corr\<rparr>)) = ?a"
    unfolding accepted_router_def
    by (rule arg_cong [where f = "with_store _"], rule arg_cong [where f = "with_store _"], rule Router.equality)
      (simp_all add: map_server_def)
  have tf: "try_forward t (in_flight c 1 ?a) = (if int (length (r_forwardCh r)) < r_queueSize r
      then ((in_flight c 1 ?a)\<lparr>r_forwardCh := r_forwardCh r @ [t]\<rparr>, True) else (in_flight c 1 ?a, False))" for t
    by (simp add: try_forward_def)
  show ?thesis
    unfolding accept_submit_def Let_def n prod.case sr Option.bind.simps
    unfolding a tf
    by (simp add: in_flight_undone)
qed

section \<open>The decision\<close>

text \<open>
  The policy in words: an account with a whitelist of sources admits only those, the destination must not be on the
  blacklist and must match one of the account's prefixes if it has any, and fewer submits than the limit (the
  account's, else the gateway's) were accepted on the session in this second.
\<close>

definition source_allowed :: "ConnectionConfig option \<Rightarrow> gostring \<Rightarrow> bool" where
  "source_allowed cfg src \<longleftrightarrow> (\<forall>acc. cfg = Some acc \<and> cc_SourceAddrMode acc = SourceAddrModeWhitelist \<and>
     cc_AllowedSourceAddrs acc \<noteq> [] \<longrightarrow> src \<in> set (cc_AllowedSourceAddrs acc))"

definition blacklisted :: "('d, 'p) Router \<Rightarrow> gostring \<Rightarrow> bool" where
  "blacklisted r dst \<longleftrightarrow> dst \<noteq> [] \<and> Get (r_blacklist r) dst \<noteq> None"

definition over_limit :: "Time \<Rightarrow> conn_ptr \<Rightarrow> ('d, 'p) Router \<Rightarrow> bool" where
  "over_limit now p r \<longleftrightarrow> (let c = deref (r_server r) p; limit = effectiveTPS (c_connConfig c) r in
     0 < limit \<and> of_int limit \<le> CurrentTPS now c)"

definition submit_status :: "Time \<Rightarrow> gostring \<Rightarrow> gostring \<Rightarrow> conn_ptr \<Rightarrow> ('d, 'p) Router \<Rightarrow> uint32" where
  "submit_status now src dst p r =
     (let cfg = c_connConfig (deref (r_server r) p) in
      if \<not> source_allowed cfg src \<or> blacklisted r dst \<or> prefix_blocked cfg dst then StatusSubmitFail
      else if over_limit now p r then StatusThrottled else StatusOK)"

lemma source_policy_None: "source_policy cfg body src = Some None \<longleftrightarrow> \<not> source_allowed cfg src"
proof -
  have m: "SourceAddrModeWhitelist \<noteq> SourceAddrModeOverride" "SourceAddrModeWhitelist \<noteq> SourceAddrModeDefault"
    by (simp_all add: lit_def)
  then show ?thesis
    by (auto simp: source_policy_def source_allowed_def bind_eq_Some_conv split: option.split)
qed

text \<open>The account of a submit that is counted has one more submit in its window.\<close>

definition counted :: "Time \<Rightarrow> conn_ptr \<Rightarrow> ('d, 'p) Router \<Rightarrow> ('d, 'p) Router" where
  "counted now p r = (if 0 < effectiveTPS (c_connConfig (deref (r_server r) p)) r
     then map_server (map_conn p (RecordSubmit now)) r else r)"

lemma HandleSubmit_cases:
  fixes r :: "('d, 'p) Router"
  assumes "GetConnection (r_server r) connID = Some p" "ParseSubmitSMAddresses body = Some (src, dst)"
  obtains (accepted) body' src' where "submit_status now src dst p r = StatusOK"
      "source_policy (c_connConfig (deref (r_server r) p)) body src = Some (Some (body', src'))"
      "HandleSubmit E now connID sq body r = accept_submit E now connID (Some p) sq src' dst body' (counted now p r)"
  | (rejected) src' n where "submit_status now src dst p r \<noteq> StatusOK"
      "HandleSubmit E now connID sq body r =
         reject_submit E now connID (Some p) sq src' dst (submit_status now src dst p r) (r\<lparr>r_totalThrottled := n\<rparr>)"
proof -
  let ?cfg = "c_connConfig (deref (r_server r) p)"
  obtain pol where pol: "source_policy ?cfg body src = Some pol" by (rule source_policy_total [of ?cfg body src]) blast
  have st: "StatusSubmitFail \<noteq> StatusOK" "StatusThrottled \<noteq> StatusOK" by simp_all
  have same: "r = r\<lparr>r_totalThrottled := r_totalThrottled r\<rparr>" by simp
  show thesis
  proof (cases pol)
    case None
    then have "submit_status now src dst p r = StatusSubmitFail"
      using pol source_policy_None [of ?cfg body src] by (simp add: submit_status_def)
    then show ?thesis
      using rejected [of src "r_totalThrottled r"] pol st
      by (simp add: HandleSubmit_def assms None ConnConfig_def)
  next
    case (Some bs)
    obtain body' src' where bs: "bs = (body', src')" by force
    have sa: "source_allowed ?cfg src" using pol Some source_policy_None [of ?cfg body src] by simp
    have h: "HandleSubmit E now connID sq body r =
      (if blacklisted r dst \<or> prefix_blocked ?cfg dst then reject_submit E now connID (Some p) sq src' dst StatusSubmitFail r
       else if over_limit now p r then reject_submit E now connID (Some p) sq src' dst StatusThrottled
         (r\<lparr>r_totalThrottled := r_totalThrottled r + 1\<rparr>)
       else accept_submit E now connID (Some p) sq src' dst body' (counted now p r))"
      by (simp add: HandleSubmit_def assms pol Some bs ConnConfig_def blacklisted_def over_limit_def counted_def Let_def)
    consider "blacklisted r dst \<or> prefix_blocked ?cfg dst" | "\<not> (blacklisted r dst \<or> prefix_blocked ?cfg dst)" "over_limit now p r"
      | "\<not> (blacklisted r dst \<or> prefix_blocked ?cfg dst)" "\<not> over_limit now p r" by blast
    then show ?thesis
    proof cases
      case 1
      then have "submit_status now src dst p r = StatusSubmitFail" by (simp add: submit_status_def Let_def)
      then show ?thesis using rejected [of src' "r_totalThrottled r"] st 1 h by simp
    next
      case 2
      then have "submit_status now src dst p r = StatusThrottled" using sa by (simp add: submit_status_def Let_def)
      then show ?thesis using rejected [of src' "r_totalThrottled r + 1"] st 2 h by simp
    next
      case 3
      then have "submit_status now src dst p r = StatusOK" using sa by (simp add: submit_status_def Let_def)
      then show ?thesis using accepted [of body' src'] pol Some bs 3 h by simp
    qed
  qed
qed

section \<open>Effects\<close>

text \<open>Nothing but deliver\_sm PDUs and changes of the in-flight counters.\<close>

definition delivers_only :: "Server \<Rightarrow> Server \<Rightarrow> bool" where
  "delivers_only s s' \<longleftrightarrow> sv_conns s' = sv_conns s \<and> length (sv_heap s') = length (sv_heap s) \<and>
     (\<forall>q. \<exists>d. conn_frame (InFlightAdd (deref s q) d) (deref s' q))"

lemma InFlightAdd_simps [simp]:
  "c_ID (InFlightAdd c d) = c_ID c" "c_bound (InFlightAdd c d) = c_bound c" "c_connConfig (InFlightAdd c d) = c_connConfig c"
  "c_conn (InFlightAdd c d) = c_conn c" "c_tpsWindow (InFlightAdd c d) = c_tpsWindow c" "c_tpsCount (InFlightAdd c d) = c_tpsCount c"
  "InFlightAdd c 0 = c"
  by (simp_all add: InFlightAdd_def)

lemma server_frame_delivers: "server_frame s s' \<Longrightarrow> delivers_only s s'"
  unfolding server_frame_def delivers_only_def by (metis InFlightAdd_simps(7))

lemma delivers_only_refl: "delivers_only s s"
  by (rule server_frame_delivers) simp

lemma delivers_only_in_flight: "delivers_only s (map_conn p (\<lambda>c. InFlightAdd c d) s)"
proof -
  have "\<exists>e. conn_frame (InFlightAdd (deref s q) e) (deref (map_conn p (\<lambda>c. InFlightAdd c d) s) q)" for q
  proof (cases "q = p \<and> p < length (sv_heap s)")
    case True
    then show ?thesis by (intro exI [of _ d]) simp
  next
    case False
    then have "deref (map_conn p (\<lambda>c. InFlightAdd c d) s) q = deref s q"
      by (cases "p < length (sv_heap s)") (simp_all add: put_conn_def list_update_beyond)
    then show ?thesis by (intro exI [of _ 0]) simp
  qed
  then show ?thesis by (simp add: delivers_only_def)
qed

lemma delivers_onlyD:
  assumes "delivers_only s s'"
  shows "sv_conns s' = sv_conns s" "length (sv_heap s') = length (sv_heap s)"
    "c_bound (deref s' q) = c_bound (deref s q)" "c_connConfig (deref s' q) = c_connConfig (deref s q)"
    "c_tpsWindow (deref s' q) = c_tpsWindow (deref s q)" "c_tpsCount (deref s' q) = c_tpsCount (deref s q)"
    "\<exists>ds. written (deref s' q) = written (deref s q) @ ds \<and> list_all is_deliver ds"
proof -
  obtain d where "conn_frame (InFlightAdd (deref s q) d) (deref s' q)" using assms by (auto simp: delivers_only_def)
  then show "c_bound (deref s' q) = c_bound (deref s q)" "c_connConfig (deref s' q) = c_connConfig (deref s q)"
    "c_tpsWindow (deref s' q) = c_tpsWindow (deref s q)" "c_tpsCount (deref s' q) = c_tpsCount (deref s q)"
    "\<exists>ds. written (deref s' q) = written (deref s q) @ ds \<and> list_all is_deliver ds"
    by (simp_all add: conn_frame_def)
qed (use assms in \<open>simp_all add: delivers_only_def\<close>)

lemma answer_ok:
  assumes "server_ok s" "confs_ok s"
  shows "server_ok (answer c sq st mid s)" "confs_ok (answer c sq st mid s)"
proof -
  show "server_ok (answer c sq st mid s)" using assms(1) by (auto simp: answer_def intro!: server_ok_put split: option.split)
  show "confs_ok (answer c sq st mid s)" using assms(2) by (auto simp: answer_def intro!: confs_ok_put split: option.split)
qed

lemma answer_simps [simp]:
  "sv_conns (answer c sq st mid s) = sv_conns s" "length (sv_heap (answer c sq st mid s)) = length (sv_heap s)"
  by (simp_all add: answer_def split: option.split)

lemma deref_answer:
  "p < length (sv_heap s) \<Longrightarrow> deref (answer (Some p) sq st mid s) q =
     (if q = p then wrote (pdu_wire (plain_pdu CmdSubmitSMResp st sq (mid @ [0]))) (deref s p) else deref s q)"
  by (simp add: answer_def)

lemma accepted_router_ok:
  assumes "pebble_ok (e_pebble E) contents" "router_ok contents r"
  shows "router_ok contents (accepted_router E now connID c sq src dst body r)"
proof -
  have "corrs_ok (Set (r_gwCorrelation r) (next_id r)
      \<lparr>co_GwMsgID = next_id r, co_NorthConnID = connID, co_MSISDN = dst, co_SubmittedAt = now\<rparr>)"
    using router_okD(1) [OF assms(2)] gwMsgID_fits(1) by (intro corrs_ok_Set) simp_all
  then show ?thesis
    unfolding accepted_router_def
    using assms(2) answer_ok [of "r_server r"] gwMsgID_fits(1) [of "r_msgSeq r + 1"]
    by (intro with_store_ok LogMessage_inv StoreSubmit_inv assms(1)) (auto simp: router_ok_def wf_Set)
qed

lemma accept_effect:
  assumes "pebble_ok (e_pebble E) contents" "router_ok contents r" "unix_nano now" "fits addr_max src" "fits addr_max dst"
  obtains r' where "accept_submit E now connID c sq src dst body r = Some r'" "router_ok contents r'"
    "delivers_only (answer c sq StatusOK (next_id r) (r_server r)) (r_server r')"
    "r_totalSubmits r' = r_totalSubmits r + 1" "r_rateLimitTPS r' = r_rateLimitTPS r"
proof -
  let ?a = "accepted_router E now connID c sq src dst body r"
  obtain r' where r': "accept_submit E now connID c sq src dst body r = Some r'" "router_ok contents r'"
    using accept_submit_returns [OF assms, of connID c sq body] unfolding returns_def by blast
  show thesis
  proof (cases "int (length (r_forwardCh r)) < r_queueSize r")
    case True
    then have e: "r' = (in_flight c 1 ?a)\<lparr>r_forwardCh := r_forwardCh r @ [submit_task c src dst body r]\<rparr>"
      using r'(1) by (simp add: accept_submit_eq)
    have "delivers_only (r_server ?a) (r_server r')"
      unfolding e by (simp add: in_flight_def map_server_def delivers_only_refl delivers_only_in_flight split: option.split)
    moreover have "r_totalSubmits r' = r_totalSubmits r + 1" "r_rateLimitTPS r' = r_rateLimitTPS r"
      unfolding e by (simp_all add: in_flight_def map_server_def split: option.split)
    ultimately show ?thesis using that r' by simp
  next
    case False
    let ?b = "?a\<lparr>r_totalThrottled := r_totalThrottled r + 1\<rparr>"
    have "router_ok contents ?b" using accepted_router_ok [OF assms(1,2)] by simp
    then have "keeps contents ?b (enqueueSubmitRetryOrFail E now (next_id r) connID dst src body 0 ?b)"
      using gwMsgID_fits(1) assms by (intro enqueueSubmitRetryOrFail_keeps)
    then have "router_frame ?b r'" using r'(1) False by (simp add: accept_submit_eq keeps_def)
    then show ?thesis using that r' server_frame_delivers by (simp add: router_frame_def)
  qed
qed

lemma set_then_contents:
  assumes "pebble_ok P contents" "counts_only upd"
  shows "contents (db (fst (set_then P s k v upd))) = fmupd k v (contents (db s))"
    "batch (fst (set_then P s k v upd)) = batch s" "writeCh (fst (set_then P s k v upd)) = writeCh s"
    "snd (set_then P s k v upd) = None"
proof -
  obtain d where "pb_set P (db s) k v = Some d" "contents d = fmupd k v (contents (db s))"
    using pebble_setE [OF assms(1)] .
  then show "contents (db (fst (set_then P s k v upd))) = fmupd k v (contents (db s))"
    "batch (fst (set_then P s k v upd)) = batch s" "writeCh (fst (set_then P s k v upd)) = writeCh s"
    "snd (set_then P s k v upd) = None"
    using assms(2) by (simp_all add: set_then_def counts_only_def)
qed

definition log_space :: "gostring \<Rightarrow> bool" where
  "log_space k \<longleftrightarrow> HasPrefix k (lit ''log:'') \<or> HasPrefix k (lit ''logidx:'')"

lemma LogMessage_log_space:
  assumes "pebble_ok P contents" "\<not> log_space k"
  shows "fmlookup (contents (db (fst (LogMessage P s now e)))) k = fmlookup (contents (db s)) k"
    "batch (fst (LogMessage P s now e)) = batch s" "writeCh (fst (LogMessage P s now e)) = writeCh s"
proof -
  have k: "k \<noteq> log_key t i" "k \<noteq> logidx_key i" for t i
    using assms(2) by (auto simp: log_space_def log_key_def logidx_key_def HasPrefix_iff)
  let ?e = "(if IsZero (ml_CreatedAt e) then e\<lparr>ml_CreatedAt := now\<rparr> else e)\<lparr>ml_UpdatedAt := now\<rparr>"
  let ?k = "log_key (ml_CreatedAt ?e) (ml_GwMsgID ?e)"
  let ?s = "fst (set_then P s ?k (marshal_MessageLogEntry ?e) (\<lambda>s. s))"
  have "LogMessage P s now e = set_then P ?s (logidx_key (ml_GwMsgID ?e)) (VRaw ?k) (\<lambda>s. s\<lparr>logCount := logCount s + 1\<rparr>)"
    using set_then_contents(4) [OF assms(1), of "\<lambda>s. s" s ?k "marshal_MessageLogEntry ?e"]
    unfolding LogMessage_def Let_def by (cases "set_then P s ?k (marshal_MessageLogEntry ?e) (\<lambda>s. s)") (simp only: snd_conv fst_conv prod.case option.case simp_thms counts_only_intros)
  then show "fmlookup (contents (db (fst (LogMessage P s now e)))) k = fmlookup (contents (db s)) k"
    "batch (fst (LogMessage P s now e)) = batch s" "writeCh (fst (LogMessage P s now e)) = writeCh s"
    using k k [symmetric] by (simp_all add: set_then_contents [OF assms(1)])
qed

lemma log_space_Nil: "\<not> log_space []"
  by (simp add: log_space_def HasPrefix_iff lit_def)

lemma log_rejected_fields [simp]:
  "r_server (log_rejected E now connID src dst r) = r_server r" "r_forwardCh (log_rejected E now connID src dst r) = r_forwardCh r"
  "r_gwCorrelation (log_rejected E now connID src dst r) = r_gwCorrelation r"
  "r_smscCorrelation (log_rejected E now connID src dst r) = r_smscCorrelation r"
  "r_msisdnAffinity (log_rejected E now connID src dst r) = r_msisdnAffinity r"
  "r_totalSubmits (log_rejected E now connID src dst r) = r_totalSubmits r" "r_sent (log_rejected E now connID src dst r) = r_sent r"
  "r_delivers (log_rejected E now connID src dst r) = r_delivers r" "r_posts (log_rejected E now connID src dst r) = r_posts r"
  "r_rateLimitTPS (log_rejected E now connID src dst r) = r_rateLimitTPS r"
  by (simp_all add: log_rejected_def Let_def split: option.split)

lemma reject_submit_eq:
  "reject_submit E now connID c sq src dst st r = Some (map_server (answer c sq st []) (log_rejected E now connID src dst r))"
  by (simp add: reject_submit_def submit_resp_answer)

lemma map_server_fields [simp]:
  "r_server (map_server f r) = f (r_server r)" "r_forwardCh (map_server f r) = r_forwardCh r"
  "r_gwCorrelation (map_server f r) = r_gwCorrelation r" "r_smscCorrelation (map_server f r) = r_smscCorrelation r"
  "r_msisdnAffinity (map_server f r) = r_msisdnAffinity r" "r_totalSubmits (map_server f r) = r_totalSubmits r"
  "r_sent (map_server f r) = r_sent r" "r_delivers (map_server f r) = r_delivers r" "r_posts (map_server f r) = r_posts r"
  "r_rateLimitTPS (map_server f r) = r_rateLimitTPS r" "r_store (map_server f r) = r_store r"
  "r_msgSeq (map_server f r) = r_msgSeq r" "r_queueSize (map_server f r) = r_queueSize r"
  "r_maxSubmitRetries (map_server f r) = r_maxSubmitRetries r"
  by (simp_all add: map_server_def)

lemma counted_fields [simp]:
  "r_forwardCh (counted now p r) = r_forwardCh r" "r_queueSize (counted now p r) = r_queueSize r" "r_msgSeq (counted now p r) = r_msgSeq r"
  "r_totalSubmits (counted now p r) = r_totalSubmits r" "r_rateLimitTPS (counted now p r) = r_rateLimitTPS r"
  "r_store (counted now p r) = r_store r" "r_maxSubmitRetries (counted now p r) = r_maxSubmitRetries r"
  "r_delivers (counted now p r) = r_delivers r" "sv_conns (r_server (counted now p r)) = sv_conns (r_server r)"
  "length (sv_heap (r_server (counted now p r))) = length (sv_heap (r_server r))"
  "r_gwCorrelation (counted now p r) = r_gwCorrelation r"
  by (simp_all add: counted_def)

lemma RecordSubmit_simps [simp]: "c_bound (RecordSubmit now c) = c_bound c" "c_connConfig (RecordSubmit now c) = c_connConfig c"
  "c_conn (RecordSubmit now c) = c_conn c"
  by (simp_all add: RecordSubmit_def Let_def)

lemma counted_ok: "router_ok contents r \<Longrightarrow> router_ok contents (counted now p r)"
  by (auto simp: counted_def intro: map_conn_ok)

lemma deref_counted:
  "p < length (sv_heap (r_server r)) \<Longrightarrow> deref (r_server (counted now p r)) q =
    (if q = p \<and> 0 < effectiveTPS (c_connConfig (deref (r_server r) p)) r then RecordSubmit now (deref (r_server r) p) else deref (r_server r) q)"
  by (simp add: counted_def)

text \<open>A submit on a bound session: the state of the session afterwards, up to deliver\_sm PDUs.\<close>

lemma policy_fits:
  assumes "router_ok contents r" "p < length (sv_heap (r_server r))" "length body \<le> body_max"
    "ParseSubmitSMAddresses body = Some (src, dst)"
    "source_policy (c_connConfig (deref (r_server r) p)) body src = Some (Some (body', src'))"
  shows "fits addr_max src'" "fits addr_max dst"
proof -
  have f: "fits addr_max src" "fits addr_max dst"
    using ParseSubmitSMAddresses_length [OF assms(4)] assms(3) by (auto intro!: fitsI)
  show "fits addr_max dst" by (rule f)
  obtain pol where pol: "source_policy (c_connConfig (deref (r_server r) p)) body src = Some pol"
    "\<And>b s. pol = Some (b, s) \<Longrightarrow> s = src \<or> (\<exists>c. c_connConfig (deref (r_server r) p) = Some c \<and>
      (s = cc_ForceSourceAddr c \<or> s = cc_DefaultSourceAddr c))"
    by (rule source_policy_total [of "c_connConfig (deref (r_server r) p)" body src]) blast
  have "src' = src \<or> (\<exists>c. c_connConfig (deref (r_server r) p) = Some c \<and> (src' = cc_ForceSourceAddr c \<or> src' = cc_DefaultSourceAddr c))"
    using pol(2) [of body' src'] pol(1) assms(5) by simp
  moreover have "conf_fits c" if "c_connConfig (deref (r_server r) p) = Some c" for c
    using that assms(1,2) by (simp add: router_ok_def confs_ok_def)
  ultimately show "fits addr_max src'" using f(1) by (auto simp: conf_fits_def)
qed

lemma HandleSubmit_effect:
  fixes r :: "('d, 'p) Router"
  assumes "pebble_ok (e_pebble E) contents" "router_ok contents r" "unix_nano now" "length body \<le> body_max"
    and "GetConnection (r_server r) connID = Some p" "ParseSubmitSMAddresses body = Some (src, dst)"
  obtains r' where "HandleSubmit E now connID sq body r = Some r'" "router_ok contents r'"
    "let st = submit_status now src dst p r in
     delivers_only (answer (Some p) sq st (if st = StatusOK then next_id r else [])
       (r_server (if st = StatusOK then counted now p r else r))) (r_server r') \<and>
     r_totalSubmits r' = r_totalSubmits r + (if st = StatusOK then 1 else 0) \<and> r_rateLimitTPS r' = r_rateLimitTPS r"
proof -
  have p: "p < length (sv_heap (r_server r))" using GetConnection_valid [OF router_okD(3) [OF assms(2)] assms(5)] by simp
  show thesis
    using assms(5,6)
  proof (cases rule: HandleSubmit_cases [where E = E and now = now and sq = sq])
    case (accepted body' src')
    note f = policy_fits [OF assms(2) p assms(4,6) accepted(2)]
    obtain r' where r': "accept_submit E now connID (Some p) sq src' dst body' (counted now p r) = Some r'" "router_ok contents r'"
      "delivers_only (answer (Some p) sq StatusOK (next_id (counted now p r)) (r_server (counted now p r))) (r_server r')"
      "r_totalSubmits r' = r_totalSubmits (counted now p r) + 1" "r_rateLimitTPS r' = r_rateLimitTPS (counted now p r)"
      using accept_effect [OF assms(1) counted_ok [OF assms(2)] assms(3) f] .
    show ?thesis using that [of r'] r' accepted by (simp add: Let_def)
  next
    case (rejected src' n)
    let ?r = "map_server (answer (Some p) sq (submit_status now src dst p r) []) (log_rejected E now connID src' dst (r\<lparr>r_totalThrottled := n\<rparr>))"
    have h: "HandleSubmit E now connID sq body r = Some ?r" using rejected(2) by (simp add: reject_submit_eq)
    have "router_ok contents ?r"
      using reject_submit_returns [OF assms(1), of "r\<lparr>r_totalThrottled := n\<rparr>" now connID "Some p" sq src' dst] assms(2)
      by (simp add: reject_submit_eq returns_def)
    then show ?thesis using that [OF h] rejected(1) by (simp add: Let_def delivers_only_refl)
  qed
qed

section \<open>Receipts\<close>

abbreviation buffered :: "gostring \<Rightarrow> gostring \<Rightarrow> bytes \<Rightarrow> byte \<Rightarrow> gostring \<Rightarrow> gostring \<Rightarrow> Time \<Rightarrow> PendingDeliver" where
  "buffered connID msisdn body esm src dst now \<equiv>
     \<lparr>pd_TargetConnID = connID, pd_MSISDN = msisdn, pd_PDUBody = body, pd_ESMClass = esm, pd_SourceAddr = src, pd_DestAddr = dst,
      pd_EnqueuedAt = now\<rparr>"

lemma grace_receipt:
  "deliverWithGrace E now connID body m esm src dst i True r =
     deliver E connID body r \<bind> (\<lambda>(r, ok). Some (if ok then r
       else with_store (\<lambda>s. EnqueueRetry (e_pebble E) s i (buffered connID m body esm src dst now)) r, ok))"
  by (cases "deliver E connID body r") (auto simp: deliverWithGrace_def Let_def)

lemma deliver_fields:
  assumes "deliver E connID body r = Some (r', ok)"
  shows "r_delivers r' = r_delivers r @ [(connID, body)]" "r_store r' = r_store r" "r_gwCorrelation r' = r_gwCorrelation r"
    "r_smscCorrelation r' = r_smscCorrelation r"
  using assms by (auto simp: deliver_def bind_eq_Some_conv)

lemma synthetic_receipt_sent:
  assumes "pebble_ok (e_pebble E) contents" "router_ok contents r" "unix_nano now"
    and "fits id_max i" "fits addr_max dst" "fits addr_max src" "connID \<noteq> rest_api"
    and "sendSyntheticDLR E now connID i dst src r = Some r'"
  shows "r_delivers r' = r_delivers r @ [(connID, BuildDeliverSMBody src dst 0x04 (synthetic_receipt i))]"
  using assms(7,8) by (auto simp: sendSyntheticDLR_def Let_def grace_receipt bind_eq_Some_conv dest!: deliver_fields(1))

section \<open>An example\<close>

lemma LoadBlacklist_ok: "router_ok contents r \<Longrightarrow> router_ok contents (fst (LoadBlacklist file r))"
  by (auto simp: LoadBlacklist_def Let_def router_ok_def split: option.split prod.split)

lemma corrs_ok_new: "corrs_ok NewShardMap"
  by (simp add: corrs_ok_def wf_New Get_New)

lemma NewRouter_ok:
  assumes "server_ok sv" "confs_ok sv" "\<And>s. st = Some s \<Longrightarrow> store_inv contents s"
  shows "router_ok contents (NewRouter files sv st cfg)"
proof -
  have i: "router_ok contents x \<Longrightarrow> router_ok contents (if c then fst (LoadBlacklist f x) else x)" for c f and x :: "('a, 'b) Router"
    by (simp add: LoadBlacklist_ok)
  show ?thesis
    unfolding NewRouter_def Let_def by (rule i) (use assms in \<open>auto simp: router_ok_def corrs_ok_new wf_New\<close>)
qed

definition example_env :: "((gostring, dbval) fmap, unit) env" where
  "example_env = \<lparr>e_pebble = mem_pebble, e_ord = sorted_list_of_fset, e_live = (\<lambda>_. 1), e_submit = (\<lambda>_ _ _. SubmitError),
     e_post = (\<lambda>_ _ _. None), e_ack = (\<lambda>_. Answered StatusOK)\<rparr>"

definition example_router :: "((gostring, dbval) fmap, unit) Router" where
  "example_router = NewRouter (\<lambda>_. None) example_server (Some (NewMessageStore fmempty))
     \<lparr>cf_ForwardQueueSize = 1, cf_ReconnectGraceSec = 30, cf_RateLimitTPS = 1, cf_MaxSubmitRetries = 3, cf_RetryDrainLimit = 0,
      cf_SubmitRetryDrainLimit = 0, cf_BlacklistFile = []\<rparr>"

definition example_body :: bytes where
  "example_body = BuildSubmitSMBody (lit ''me'') (lit ''27'') (lit ''hi'')"

lemma example_router_ok: "router_ok (\<lambda>m. m) example_router"
  unfolding example_router_def
proof (rule NewRouter_ok)
  show "confs_ok example_server"
    by (auto simp: confs_ok_def example_server_def example_conn_def NewConnection_def NewServer_def less_Suc_eq)
qed (auto simp: example_server_ok intro!: store_inv_new)

lemma example_pebble: "pebble_ok (e_pebble example_env) (\<lambda>m. m)"
  by (simp add: example_env_def mem_pebble_ok)

lemma example_router_simps [simp]:
  "r_server example_router = example_server" "r_msgSeq example_router = 0" "r_blacklist example_router = NewShardMap"
  "r_rateLimitTPS example_router = 1" "r_totalSubmits example_router = 0" "r_forwardCh example_router = []"
  "r_queueSize example_router = 1" "r_maxSubmitRetries example_router = 3" "r_store example_router = Some (NewMessageStore fmempty)"
  "r_delivers example_router = []" "r_smscCorrelation example_router = NewShardMap"
  by (simp_all add: example_router_def NewRouter_def Let_def)

lemma example_conn_bound: "GetConnection example_server (lit ''acme'') = Some 0" "conn_up (deref example_server 0)"
  "written (deref example_server 0) = []" "c_connConfig (deref example_server 0) = None" "c_tpsCount (deref example_server 0) = 0"
  by (simp_all add: example_server_def example_conn_def GetConnection_def IsBound_def NewConnection_def)

lemma example_body_parse: "ParseSubmitSMAddresses example_body = Some (lit ''me'', lit ''27'')"
  by code_simp

lemma example_body_length: "length example_body \<le> body_max"
proof -
  have "length example_body < 100" by code_simp
  then show ?thesis by simp
qed

lemma example_status: "submit_status 0 (lit ''me'') (lit ''27'') 0 example_router = StatusOK"
  by (simp add: submit_status_def Let_def source_allowed_def blacklisted_def prefix_blocked_def over_limit_def example_conn_bound
      effectiveTPS_def CurrentTPS_def Get_New)

section \<open>Properties\<close>

text \<open>
  C2. A submit_sm on a bound session is answered exactly once. The handler returns, and what it writes to the
  session starts with one submit_sm_resp with the request's sequence number and the status the policy prescribes:
  ESME_RSUBMITFAIL for a source that is not on the account's whitelist, a blacklisted destination or one outside the
  account's prefixes, ESME_RTHROTTLED over the rate limit, and OK otherwise. The message id is a fresh gateway id
  exactly when the status is OK. Everything else written, to any session, are deliver_sm PDUs.
\<close>

theorem submit_answered:
  assumes "pebble_ok (e_pebble E) contents" and "router_ok contents r" and "unix_nano now" and "length body \<le> body_max"
    and "GetConnection (r_server r) connID = Some p" and "conn_up (deref (r_server r) p)"
  shows "\<exists>src dst r' ds. ParseSubmitSMAddresses body = Some (src, dst) \<and> HandleSubmit E now connID sq body r = Some r' \<and>
    router_ok contents r' \<and>
    (let st = submit_status now src dst p r; mid = (if st = StatusOK then next_id r else []) in
     written (deref (r_server r') p) = written (deref (r_server r) p) @ [pdu_wire (plain_pdu CmdSubmitSMResp st sq (mid @ [0]))] @ ds) \<and>
    list_all is_deliver ds \<and>
    (\<forall>q. q = p \<or> (\<exists>ds. written (deref (r_server r') q) = written (deref (r_server r) q) @ ds \<and> list_all is_deliver ds))"
proof -
  obtain src dst where a: "ParseSubmitSMAddresses body = Some (src, dst)"
    using ParseSubmitSMAddresses_no_panic [of body] by fastforce
  have p: "p < length (sv_heap (r_server r))" using GetConnection_valid [OF router_okD(3) [OF assms(2)] assms(5)] by simp
  let ?st = "submit_status now src dst p r"
  let ?mid = "if ?st = StatusOK then next_id r else []"
  let ?s = "r_server (if ?st = StatusOK then counted now p r else r)"
  obtain r' where r': "HandleSubmit E now connID sq body r = Some r'" "router_ok contents r'"
    "delivers_only (answer (Some p) sq ?st ?mid ?s) (r_server r')"
    using HandleSubmit_effect [OF assms(1-5) a] unfolding Let_def by blast
  have w: "written (deref (answer (Some p) sq ?st ?mid ?s) q) = written (deref (r_server r) q) @
      (if q = p then [pdu_wire (plain_pdu CmdSubmitSMResp ?st sq (?mid @ [0]))] else [])" for q
    using p assms(6) by (auto simp: deref_answer deref_counted written_wrote)
  obtain ds where "written (deref (r_server r') p) = written (deref (answer (Some p) sq ?st ?mid ?s) p) @ ds" "list_all is_deliver ds"
    using delivers_onlyD(7) [OF r'(3)] by blast
  moreover have "\<exists>ds. written (deref (r_server r') q) = written (deref (r_server r) q) @ ds \<and> list_all is_deliver ds" if "q \<noteq> p" for q
    using delivers_onlyD(7) [OF r'(3), of q] w [of q] that by simp
  ultimately show ?thesis using a r'(1,2) w [of p] by (auto simp: Let_def)
qed

theorem submit_answered_witness:
  "\<exists>r' ds. HandleSubmit example_env 0 (lit ''acme'') 7 example_body example_router = Some r' \<and>
     written (deref (r_server r') 0) = pdu_wire (plain_pdu CmdSubmitSMResp StatusOK 7 (lit ''GW-1'' @ [0])) # ds \<and> list_all is_deliver ds"
proof -
  have "next_id example_router = lit ''GW-1''" by code_simp
  then show ?thesis
    using submit_answered [OF example_pebble example_router_ok, of 0 example_body "lit ''acme''" 0 7] example_body_parse example_body_length example_status
      example_conn_bound by (auto simp: unix_nano_def Let_def)
qed

text \<open>
  C5. A rejected submit leaves no trace but its answer and a log line. Queue, correlations, affinity, counters of accepted
  submits and everything sent in either direction are as before, other sessions are untouched, and in the store only the
  message log may differ.
\<close>

theorem rejected_no_trace:
  assumes "pebble_ok (e_pebble E) contents"
    and "GetConnection (r_server r) connID = Some p" and "ParseSubmitSMAddresses body = Some (src, dst)"
    and "submit_status now src dst p r \<noteq> StatusOK"
  shows "\<exists>r'. HandleSubmit E now connID sq body r = Some r' \<and> r_forwardCh r' = r_forwardCh r \<and>
    r_gwCorrelation r' = r_gwCorrelation r \<and> r_smscCorrelation r' = r_smscCorrelation r \<and> r_msisdnAffinity r' = r_msisdnAffinity r \<and>
    r_totalSubmits r' = r_totalSubmits r \<and> r_sent r' = r_sent r \<and> r_delivers r' = r_delivers r \<and> r_posts r' = r_posts r \<and>
    r_server r' = answer (Some p) sq (submit_status now src dst p r) [] (r_server r) \<and>
    rel_option (\<lambda>s s'. batch s' = batch s \<and> writeCh s' = writeCh s \<and>
      (\<forall>k. log_space k \<or> fmlookup (contents (db s')) k = fmlookup (contents (db s)) k)) (r_store r) (r_store r')"
  using assms(2,3)
proof (cases rule: HandleSubmit_cases [where E = E and now = now and sq = sq])
  case (rejected src' n)
  let ?l = "log_rejected E now connID src' dst (r\<lparr>r_totalThrottled := n\<rparr>)"
  have "rel_option (\<lambda>s s'. batch s' = batch s \<and> writeCh s' = writeCh s \<and>
      (\<forall>k. log_space k \<or> fmlookup (contents (db s')) k = fmlookup (contents (db s)) k)) (r_store r) (r_store ?l)"
    using LogMessage_log_space(1) [OF assms(1)] LogMessage_log_space(2,3) [OF assms(1) log_space_Nil]
    by (auto simp: log_rejected_def Let_def split: option.split)
  then show ?thesis using rejected(2) by (simp add: reject_submit_eq)
qed (use assms(4) in simp)

text \<open>
  C3. No accepted submit is lost. With a store, an accepted message is afterwards the last task of the forwarding queue; or
  the queue was full and the message is in the persistent retry queue with its first retry counted; or, with retries
  switched off, the engine is sent a failure receipt for it under its gateway id. The body is the one the source policy
  prescribes, and while the message is pending its correlation names the submitting engine.
\<close>

theorem accepted_not_lost:
  assumes "pebble_ok (e_pebble E) contents" and "router_ok contents r" and "unix_nano now" and "length body \<le> body_max"
    and "GetConnection (r_server r) connID = Some p" and "ParseSubmitSMAddresses body = Some (src, dst)"
    and "submit_status now src dst p r = StatusOK" and "r_store r = Some s" and "connID \<noteq> rest_api"
  shows "\<exists>r' body' src'. HandleSubmit E now connID sq body r = Some r' \<and>
    source_policy (c_connConfig (deref (r_server r) p)) body src = Some (Some (body', src')) \<and>
    (if int (length (r_forwardCh r)) < r_queueSize r
     then r_forwardCh r' = r_forwardCh r @ [submit_task (Some p) src' dst body' r] \<and>
       map_option co_NorthConnID (Get (r_gwCorrelation r') (next_id r)) = Some connID
     else if 0 < r_maxSubmitRetries r
     then map_option co_NorthConnID (Get (r_gwCorrelation r') (next_id r)) = Some connID \<and>
       (\<exists>s'. r_store r' = Some s' \<and> fmlookup (contents (db s')) (submit_retry_key now (next_id r)) = Some (marshal_PendingSubmit
         \<lparr>ps_GwMsgID = next_id r, ps_ConnID = connID, ps_MSISDN = dst, ps_SourceAddr = src', ps_RawBody = body', ps_RetryCount = 1,
          ps_EnqueuedAt = now\<rparr>))
     else r_delivers r' = r_delivers r @ [(connID, BuildDeliverSMBody src' dst 0x04 (synthetic_receipt (next_id r)))])"
  using assms(5,6)
proof (cases rule: HandleSubmit_cases [where E = E and now = now and sq = sq])
  case (accepted body' src')
  have p: "p < length (sv_heap (r_server r))" using GetConnection_valid [OF router_okD(3) [OF assms(2)] assms(5)] by simp
  note f = policy_fits [OF assms(2) p assms(4,6) accepted(2)]
  let ?c = "counted now p r" and ?corr = "\<lparr>co_GwMsgID = next_id r, co_NorthConnID = connID, co_MSISDN = dst, co_SubmittedAt = now\<rparr>"
  let ?a = "accepted_router E now connID (Some p) sq src' dst body' ?c"
  let ?b = "?a\<lparr>r_totalThrottled := r_totalThrottled ?c + 1\<rparr>"
  have ok: "router_ok contents ?b" using accepted_router_ok [OF assms(1) counted_ok [OF assms(2)]] by simp
  obtain r' where r': "HandleSubmit E now connID sq body r = Some r'"
    using HandleSubmit_returns [OF assms(1-4), of connID sq] by (auto simp: returns_def)
  have a: "accept_submit E now connID (Some p) sq src' dst body' ?c = Some r'" using r' accepted(3) by simp
  have g: "Get (Set (r_gwCorrelation r) (next_id r) ?corr) (next_id r) = Some ?corr"
    using router_okD(1) [OF assms(2)] by (simp add: corrs_ok_def wf_shardmap_shard Get_Set)
  obtain s1 where s1: "r_store ?b = Some s1" using assms(8) by (simp add: accepted_router_def)
  have e: "r_delivers r' = r_delivers r @ [(connID, BuildDeliverSMBody src' dst 0x04 (synthetic_receipt (next_id r)))]"
    if "\<not> int (length (r_forwardCh r)) < r_queueSize r" "\<not> 0 < r_maxSubmitRetries r"
    using a that synthetic_receipt_sent [OF assms(1) ok assms(3) gwMsgID_fits(1) f(2,1) assms(9), of "r_msgSeq r + 1" r']
    by (simp add: accept_submit_eq enqueueSubmitRetryOrFail_def)
  show ?thesis
    using r' accepted(2) a g e s1 set_then_contents(1) [OF assms(1)]
    by (auto simp: accept_submit_eq enqueueSubmitRetryOrFail_def EnqueueSubmitRetry_def)
qed (use assms(7) in simp)

theorem accepted_not_lost_witness:
  "\<exists>r'. HandleSubmit example_env 0 (lit ''acme'') 7 example_body example_router = Some r' \<and> map ft_rawBody (r_forwardCh r') = [example_body]"
  using accepted_not_lost [OF example_pebble example_router_ok, of 0 example_body "lit ''acme''" 0 "lit ''me''" "lit ''27''" "NewMessageStore fmempty" 7]
    example_body_parse example_body_length example_status example_conn_bound
  by (auto simp: unix_nano_def source_policy_def lit_def)

definition blocking_router :: "((gostring, dbval) fmap, unit) Router" where
  "blocking_router = example_router\<lparr>r_blacklist := Set NewShardMap (lit ''27'') ()\<rparr>"

theorem rejected_no_trace_witness:
  "\<exists>r'. HandleSubmit example_env 0 (lit ''acme'') 7 example_body blocking_router = Some r' \<and> r_forwardCh r' = [] \<and>
     written (deref (r_server r') 0) = [pdu_wire (plain_pdu CmdSubmitSMResp StatusSubmitFail 7 [0])]"
proof -
  have "shard_ok (NewShardMap :: unit ShardMap)" using wf_New by (rule wf_shardmap_shard)
  then have st: "submit_status 0 (lit ''me'') (lit ''27'') 0 blocking_router = StatusSubmitFail"
    by (simp add: submit_status_def blacklisted_def blocking_router_def Get_Set lit_def)
  have l: "0 < length (sv_heap example_server)" by (simp add: example_server_def)
  show ?thesis
    using rejected_no_trace [OF example_pebble, of blocking_router "lit ''acme''" 0 example_body "lit ''me''" "lit ''27''" 0 7]
      example_body_parse example_conn_bound st l
    by (auto simp: blocking_router_def deref_answer written_wrote)
qed

section \<open>The rate limit\<close>

text \<open>A burst of submits on one session: time, sequence number and body of each.\<close>

fun submit_burst :: "('d, 'p) env \<Rightarrow> gostring \<Rightarrow> (Time \<times> uint32 \<times> bytes) list \<Rightarrow> ('d, 'p) Router \<Rightarrow> ('d, 'p) Router go" where
  "submit_burst E connID [] r = Some r"
| "submit_burst E connID ((now, sq, body) # reqs) r = do { r \<leftarrow> HandleSubmit E now connID sq body r; submit_burst E connID reqs r }"

text \<open>The window of the session counts the \<open>k\<close> submits accepted since the start of the second \<open>t\<close>, and stays below the limit.\<close>

definition window_ok :: "int \<Rightarrow> nat \<Rightarrow> nat \<Rightarrow> Connection \<Rightarrow> bool" where
  "window_ok t limit k c \<longleftrightarrow> k = 0 \<or> c_tpsWindow c = t \<and> k \<le> unat (c_tpsCount c) \<and> unat (c_tpsCount c) \<le> limit"

lemma unat_limit: "n < 2 ^ 63 \<Longrightarrow> unat (of_nat n :: uint64) = n"
  by (simp add: unsigned_of_nat take_bit_nat_eq_self)

lemma window_ok_record:
  assumes "window_ok (Unix now) limit k c" "CurrentTPS now c < of_int (int limit)" "0 < limit" "limit < 2 ^ 63"
  shows "window_ok (Unix now) limit (Suc k) (RecordSubmit now c)"
proof (cases "c_tpsWindow c = Unix now")
  case True
  have "c_tpsCount c < of_nat limit" using assms(2) True by (simp add: CurrentTPS_def)
  then have c: "unat (c_tpsCount c) < limit" using unat_limit [OF assms(4)] by (simp only: word_less_nat_alt)
  then have "unat (c_tpsCount c + 1) = unat (c_tpsCount c) + 1" using assms(4) by (simp add: unat_word_ariths)
  then show ?thesis using c True assms(1) by (auto simp: window_ok_def RecordSubmit_def)
next
  case False
  then have "k = 0" using assms(1) by (simp add: window_ok_def)
  then show ?thesis using False assms(3) by (simp add: window_ok_def RecordSubmit_def)
qed

lemma window_ok_cong: "c_tpsWindow c' = c_tpsWindow c \<Longrightarrow> c_tpsCount c' = c_tpsCount c \<Longrightarrow> window_ok t l k c' = window_ok t l k c"
  by (simp add: window_ok_def)

lemma submit_burst_window:
  fixes r :: "('d, 'p) Router"
  assumes "pebble_ok (e_pebble E) contents" "0 < limit" "limit < 2 ^ 63"
  shows "router_ok contents r \<Longrightarrow> GetConnection (r_server r) connID = Some p \<Longrightarrow>
    effectiveTPS (c_connConfig (deref (r_server r) p)) r = int limit \<Longrightarrow> window_ok t limit k (deref (r_server r) p) \<Longrightarrow>
    \<forall>(now, sq, body) \<in> set reqs. Unix now = t \<and> unix_nano now \<and> length body \<le> body_max \<Longrightarrow> k \<le> limit \<Longrightarrow>
    \<exists>r' n. submit_burst E connID reqs r = Some r' \<and> router_ok contents r' \<and> r_totalSubmits r' = r_totalSubmits r + of_nat n \<and> k + n \<le> limit"
proof (induction reqs arbitrary: r k)
  case Nil
  then show ?case by (intro exI [of _ r] exI [of _ 0]) simp
next
  case (Cons req reqs)
  obtain now sq body where q: "req = (now, sq, body)" by (cases req) auto
  have b: "Unix now = t" "unix_nano now" "length body \<le> body_max" using Cons.prems(5) by (simp_all add: q)
  obtain src dst where a: "ParseSubmitSMAddresses body = Some (src, dst)"
    using ParseSubmitSMAddresses_no_panic [of body] by fastforce
  have p: "p < length (sv_heap (r_server r))" using GetConnection_valid [OF router_okD(3) [OF Cons.prems(1)] Cons.prems(2)] by simp
  let ?st = "submit_status now src dst p r"
  let ?s = "r_server (if ?st = StatusOK then counted now p r else r)"
  obtain r1 where r1: "HandleSubmit E now connID sq body r = Some r1" "router_ok contents r1"
    "delivers_only (answer (Some p) sq ?st (if ?st = StatusOK then next_id r else []) ?s) (r_server r1)"
    "r_totalSubmits r1 = r_totalSubmits r + (if ?st = StatusOK then 1 else 0)" "r_rateLimitTPS r1 = r_rateLimitTPS r"
    using HandleSubmit_effect [OF assms(1) Cons.prems(1) b(2,3) Cons.prems(2) a] unfolding Let_def by blast
  let ?k = "if ?st = StatusOK then Suc k else k"
  have d: "deref ?s p = (if ?st = StatusOK then RecordSubmit now (deref (r_server r) p) else deref (r_server r) p)"
    using p Cons.prems(3) assms(2) by (simp add: deref_counted)
  have conns: "sv_conns (r_server r1) = sv_conns (r_server r)" using delivers_onlyD(1) [OF r1(3)] by simp
  have g: "GetConnection (r_server r1) connID = Some p"
    using Cons.prems(1,2) r1(2) conns by (simp add: GetConnection_eq router_okD(3))
  have "c_connConfig (deref (r_server r1) p) = c_connConfig (deref (r_server r) p)"
    using delivers_onlyD(4) [OF r1(3), of p] p by (auto simp: deref_answer d)
  then have lim: "effectiveTPS (c_connConfig (deref (r_server r1) p)) r1 = int limit"
    using Cons.prems(3) unfolding effectiveTPS_def r1(5) by simp
  have acc: "CurrentTPS now (deref (r_server r) p) < of_int (int limit)" if "?st = StatusOK"
    using that Cons.prems(3) assms(2) by (auto simp: submit_status_def over_limit_def Let_def split: if_splits)
  have "window_ok t limit ?k (deref ?s p)"
    using window_ok_record [of now limit k "deref (r_server r) p"] Cons.prems(4) acc assms(2,3) b(1) by (simp add: d)
  then have w: "window_ok t limit ?k (deref (r_server r1) p)"
    using delivers_onlyD(5,6) [OF r1(3), of p] p by (simp add: deref_answer window_ok_def)
  have kl: "?k \<le> limit" using w Cons.prems(6) by (auto simp: window_ok_def split: if_splits)
  obtain r' n where "submit_burst E connID reqs r1 = Some r'" "router_ok contents r'" "r_totalSubmits r' = r_totalSubmits r1 + of_nat n"
    "?k + n \<le> limit"
    using Cons.IH [OF r1(2) g lim w _ kl] Cons.prems(5) by auto
  then show ?case
    using r1(1,4) by (intro exI [of _ r'] exI [of _ "n + (if ?st = StatusOK then 1 else 0)"]) (auto simp: q)
qed



end
