(* ===== verification/Router_Receipts.thy ===== *)
theory Router_Receipts
  imports Router_Submit
begin

text \<open>
  What the router promises for traffic from the SMSCs and for messages the SMSCs refuse: receipts reach the engine that
  submitted, mobile-originated messages are not lost, and retries end.
\<close>

section \<open>The outcome of a delivery\<close>

definition reaches :: "('d, 'p) env \<Rightarrow> gostring \<Rightarrow> ('d, 'p) Router \<Rightarrow> bool" where
  "reaches E connID r \<longleftrightarrow> (\<exists>p. GetConnection (r_server r) connID = Some p \<and> conn_up (deref (r_server r) p)) \<and>
     e_ack E (length (r_delivers r)) = Answered StatusOK"

lemma deliver_outcome:
  assumes "router_ok contents r" "length body < 2 ^ 31"
  obtains r' where "deliver E connID body r = Some (r', reaches E connID r)" "router_ok contents r'"
    "\<And>q. GetConnection (r_server r) connID \<noteq> Some q \<Longrightarrow> deref (r_server r') q = deref (r_server r) q"
proof -
  have s: "server_ok (r_server r)" using assms(1) by (rule router_okD)
  let ?a = "e_ack E (length (r_delivers r))"
  obtain s' sq err where d: "DeliverToConn ?a connID body (r_server r) = Some (s', sq, err)"
    "err = None \<longleftrightarrow> (\<exists>p. GetConnection (r_server r) connID = Some p \<and> conn_up (deref (r_server r) p)) \<and> ?a = Answered StatusOK"
    by (rule DeliverToConn_frame [OF s assms(2), of ?a connID]) blast
  have o: "deref s' q = deref (r_server r) q" if "GetConnection (r_server r) connID \<noteq> Some q" for q
  proof (cases "GetConnection (r_server r) connID")
    case None
    then show ?thesis using d(1) by (simp add: DeliverToConn_def)
  next
    case (Some p)
    have sz: "16 + length body < 2 ^ 32" using assms(2) by simp
    obtain c sq' where "DeliverToConn ?a connID body (r_server r) = Some (put_conn p c (r_server r), sq', deliver_result ?a (deref (r_server r) p))"
      by (rule DeliverToConn_bound [OF s Some sz, of ?a]) blast
    then show ?thesis using d(1) that Some by auto
  qed
  have "deliver E connID body r = Some (r\<lparr>r_server := s', r_delivers := r_delivers r @ [(connID, body)]\<rparr>, reaches E connID r)"
    using d by (simp add: deliver_def reaches_def)
  moreover have "router_ok contents (r\<lparr>r_server := s', r_delivers := r_delivers r @ [(connID, body)]\<rparr>)"
    using deliver_keeps [OF assms, of E connID] calculation by (simp add: keeps2_def)
  ultimately show thesis using that o by simp
qed

lemma deliverDLRCallback_fields:
  assumes "deliverDLRCallback E now i st dst src r = Some r'"
  shows "r_delivers r' = r_delivers r" "r_server r' = r_server r" "r_smscCorrelation r' = r_smscCorrelation r"
    "r_gwCorrelation r' = r_gwCorrelation r"
  using assms
  by (auto simp: deliverDLRCallback_def enqueueCallbackRetry_def postCallback_def Let_def split: option.splits sum.splits if_splits)

lemma forget_correlation_fields:
  "r_delivers (forget_correlation E a b r) = r_delivers r" "r_server (forget_correlation E a b r) = r_server r"
  "r_smscCorrelation (forget_correlation E a b r) = Delete (r_smscCorrelation r) a"
  "r_gwCorrelation (forget_correlation E a b r) = Delete (r_gwCorrelation r) b"
  by (simp_all add: forget_correlation_def)

lemma EnqueueRetry_lookup:
  "pebble_ok P contents \<Longrightarrow> pd_EnqueuedAt p = t \<Longrightarrow>
   fmlookup (contents (db (fst (EnqueueRetry P s i p)))) (retry_key t i) = Some (marshal_PendingDeliver p)"
  unfolding EnqueueRetry_def by (subst set_then_contents(1)) auto

lemma find_correlation_cong: "find_correlation E i (r\<lparr>r_totalDLRs := n\<rparr>) = find_correlation E i r"
  by (simp add: find_correlation_def cong: option.case_cong)

section \<open>Receipts\<close>

definition receipt_body :: "gostring \<Rightarrow> gostring \<Rightarrow> byte \<Rightarrow> bytes \<Rightarrow> DLRReceipt \<Rightarrow> correlation \<Rightarrow> bytes" where
  "receipt_body src dst esm payload rc corr =
     BuildDeliverSMBody src dst esm (translateDLRMessageID payload (dr_MessageID rc) (co_GwMsgID corr))"

lemma receipt_body_length:
  assumes "deliver_fits src dst payload" "fits id_max (co_GwMsgID corr)"
  shows "length (receipt_body src dst esm payload rc corr) < 2 ^ 31"
  using length_BuildDeliverSMBody [of src dst esm "translateDLRMessageID payload (dr_MessageID rc) (co_GwMsgID corr)"]
    length_translate [of payload "dr_MessageID rc" "co_GwMsgID corr"] fits_length [OF assms(2)] assms(1)
  by (simp add: receipt_body_def)

text \<open>
  C4. A delivery receipt goes to the engine that submitted the message, and to nobody else. When the SMSC's message id is
  correlated with a message of an SMPP engine, exactly one deliver_sm is attempted, on that engine's session, with the
  receipt's id translated to the gateway's; no other session changes. If the session is up and the engine acknowledges,
  the correlation is dropped; otherwise it is kept and the receipt is in the retry queue, addressed to the same engine.
\<close>

theorem receipt_to_submitter:
  assumes "pebble_ok (e_pebble E) contents" and "router_ok contents r" and "unix_nano now" and "deliver_fits src dst payload"
    and "IsDLR esm" and "ParseDLRReceipt payload = Some rc" and "find_correlation E (dr_MessageID rc) r = Some corr"
    and "co_NorthConnID corr \<noteq> rest_api" and "r_store r = Some s"
  shows "\<exists>r'. HandleDeliver E now src dst esm payload r = Some r' \<and> router_ok contents r' \<and>
    (let connID = co_NorthConnID corr; body = receipt_body src dst esm payload rc corr in
     r_delivers r' = r_delivers r @ [(connID, body)] \<and>
     (\<forall>q. GetConnection (r_server r) connID = Some q \<or> deref (r_server r') q = deref (r_server r) q) \<and>
     (if reaches E connID r
      then Get (r_smscCorrelation r') (dr_MessageID rc) = None \<and> Get (r_gwCorrelation r') (co_GwMsgID corr) = None
      else r_smscCorrelation r' = r_smscCorrelation r \<and> r_gwCorrelation r' = r_gwCorrelation r \<and>
        (\<exists>s'. r_store r' = Some s' \<and> fmlookup (contents (db s')) (retry_key now (co_GwMsgID corr)) =
           Some (marshal_PendingDeliver (buffered connID (co_MSISDN corr) body esm src dst now)))))"
proof -
  let ?r = "r\<lparr>r_totalDLRs := r_totalDLRs r + 1\<rparr>" and ?i = "co_NorthConnID corr" and ?g = "co_GwMsgID corr" and ?m = "dr_MessageID rc"
  let ?u = "with_store (\<lambda>s. UpdateMessageLog (e_pebble E) s now ?g (mark_dlr (dr_Status rc))) ?r"
  let ?b = "receipt_body src dst esm payload rc corr"
  have sz: "length ?b < 2 ^ 31" by (rule receipt_body_length [OF assms(4) find_correlation_fits [OF assms(1,2,7)]])
  have "router_ok contents ?r" using assms(2) by simp
  then have u: "router_ok contents ?u" by (rule with_store_ok) (rule UpdateMessageLog_inv [OF assms(1)])
  obtain r1 where r1: "deliver E ?i ?b ?u = Some (r1, reaches E ?i ?u)" "router_ok contents r1"
    "\<And>q. GetConnection (r_server ?u) ?i \<noteq> Some q \<Longrightarrow> deref (r_server r1) q = deref (r_server ?u) q"
    by (rule deliver_outcome [OF u sz, of E ?i]) blast
  note f = deliver_fields [OF r1(1)]
  have re: "reaches E ?i ?u = reaches E ?i r" by (simp add: reaches_def)
  obtain r' where r': "HandleDeliver E now src dst esm payload r = Some r'" "router_ok contents r'"
    using HandleDeliver_returns [OF assms(1-4), of esm] unfolding returns_def by blast
  have h: "HandleDeliver E now src dst esm payload r =
    (if reaches E ?i r then deliverDLRCallback E now ?g (dr_Status rc) dst src (forget_correlation E ?m ?g r1)
     else Some (with_store (\<lambda>s. EnqueueRetry (e_pebble E) s ?g (buffered ?i (co_MSISDN corr) ?b esm src dst now)) r1))"
    using r1(1) re assms(5-8)
    by (simp add: HandleDeliver_def handleDLR_def Let_def find_correlation_cong grace_receipt flip: receipt_body_def)
  have wf: "Get (Delete m k) k = None" if "corrs_ok m" for m k
    using that by (simp add: corrs_ok_def wf_shardmap_shard Get_Delete)
  have o: "\<forall>q. GetConnection (r_server r) ?i = Some q \<or> deref (r_server r1) q = deref (r_server r) q"
    using r1(3) by auto
  show ?thesis
  proof (cases "reaches E ?i r")
    case True
    then have cb: "deliverDLRCallback E now ?g (dr_Status rc) dst src (forget_correlation E ?m ?g r1) = Some r'" using h r'(1) by simp
    show ?thesis
      using True r' f o wf router_okD(1,2) [OF assms(2)] deliverDLRCallback_fields [OF cb]
      by (simp add: Let_def forget_correlation_fields)
  next
    case False
    have "\<exists>s1. r_store r1 = Some s1" using f(2) assms(9) by simp
    then show ?thesis using False r' f o h EnqueueRetry_lookup [OF assms(1)] by (auto simp: Let_def)
  qed
qed

lemma example_receipt: obtains rc where "ParseDLRReceipt (lit ''id:7f stat:DELIVRD'') = Some rc" "dr_MessageID rc = lit ''7f''"
proof -
  let ?t = "lit ''id:7f stat:DELIVRD''"
  have r: "range_runes ?t = map (\<lambda>b. (unat b, [b])) ?t"
    by (rule range_runes_ascii) (simp add: lit_def)
  have t: "TrimSpace ?t = ?t" by (simp add: TrimSpace_def r) (simp add: lit_def is_space_rune_def)
  have f: "find_field (lit ''id:'') ?t = Some ([], lit ''7f'', lit '' stat:DELIVRD'')"
    by (simp add: find_field.simps HasPrefix_def lit_def re_space_def)
  show thesis using that unfolding ParseDLRReceipt_def Let_def t f by (simp add: lit_def)
qed

definition pending_router :: "((gostring, dbval) fmap, unit) Router" where
  "pending_router = example_router\<lparr>r_smscCorrelation := Set NewShardMap (lit ''7f'')
     \<lparr>co_GwMsgID = lit ''GW-1'', co_NorthConnID = lit ''acme'', co_MSISDN = lit ''27'', co_SubmittedAt = 0\<rparr>\<rparr>"

lemma pending_router_ok: "router_ok (\<lambda>m. m) pending_router"
proof -
  have "fits id_max (lit ''GW-1'')" by (rule fitsI) simp
  then have "corrs_ok (r_smscCorrelation pending_router)"
    using corrs_ok_Set [OF corrs_ok_new] by (simp add: pending_router_def)
  then show ?thesis using example_router_ok by (simp add: router_ok_def pending_router_def)
qed

theorem receipt_to_submitter_witness:
  "\<exists>r' body. HandleDeliver example_env 9 (lit ''27'') (lit ''me'') 4 (lit ''id:7f stat:DELIVRD'') pending_router = Some r' \<and>
     r_delivers r' = [(lit ''acme'', body)] \<and> Get (r_smscCorrelation r') (lit ''7f'') = None"
proof -
  obtain rc where rc: "ParseDLRReceipt (lit ''id:7f stat:DELIVRD'') = Some rc" "dr_MessageID rc = lit ''7f''" by (rule example_receipt)
  have "shard_ok (NewShardMap :: correlation ShardMap)" using wf_New by (rule wf_shardmap_shard)
  then have c: "find_correlation example_env (dr_MessageID rc) pending_router =
      Some \<lparr>co_GwMsgID = lit ''GW-1'', co_NorthConnID = lit ''acme'', co_MSISDN = lit ''27'', co_SubmittedAt = 0\<rparr>"
    by (simp add: find_correlation_def pending_router_def rc(2) Get_Set)
  have d: "IsDLR 4" by (simp add: IsDLR_def)
  have re: "reaches example_env (lit ''acme'') pending_router"
    using example_conn_bound by (simp add: reaches_def pending_router_def example_env_def)
  have n: "co_NorthConnID \<lparr>co_GwMsgID = lit ''GW-1'', co_NorthConnID = lit ''acme'', co_MSISDN = lit ''27'', co_SubmittedAt = 0\<rparr> \<noteq> rest_api"
    by (simp add: lit_def)
  have u: "unix_nano 9" "deliver_fits (lit ''27'') (lit ''me'') (lit ''id:7f stat:DELIVRD'')" by (simp_all add: unix_nano_def lit_def)
  have p: "r_store pending_router = Some (NewMessageStore fmempty)" "r_delivers pending_router = []" by (simp_all add: pending_router_def)
  show ?thesis
    using receipt_to_submitter [OF example_pebble pending_router_ok u d rc(1) c n p(1)] re rc(2) p(2) by (auto simp: Let_def)
qed

section \<open>Mobile-originated messages\<close>

text \<open>The last deliver\_sm since \<open>r\<close> carried \<open>body\<close> and was acknowledged.\<close>

definition acked :: "('d, 'p) env \<Rightarrow> bytes \<Rightarrow> ('d, 'p) Router \<Rightarrow> ('d, 'p) Router \<Rightarrow> bool" where
  "acked E body r r' \<longleftrightarrow> (\<exists>connID ds. r_delivers r' = r_delivers r @ ds @ [(connID, body)] \<and>
     e_ack E (length (r_delivers r @ ds)) = Answered StatusOK)"

lemma grace_outcome:
  assumes "pebble_ok (e_pebble E) contents" "router_ok contents r" "length body < 2 ^ 31"
    and "deliverWithGrace E now connID body m esm src dst i isDLR r = Some (r', ok)"
  shows "ok \<Longrightarrow> acked E body r r'" and "\<not> ok \<Longrightarrow> r_store r = Some s \<Longrightarrow>
    \<exists>s'. r_store r' = Some s' \<and> fmlookup (contents (db s')) (retry_key now i) = Some (marshal_PendingDeliver (buffered connID m body esm src dst now))"
proof -
  obtain r1 where r1: "deliver E connID body r = Some (r1, reaches E connID r)" "router_ok contents r1"
    by (rule deliver_outcome [OF assms(2,3), of E connID]) blast
  let ?f = "RoundRobinConnID (e_ord E) (r_server r1)"
  obtain r2 where r2: "deliver E ?f body r1 = Some (r2, reaches E ?f r1)" "router_ok contents r2"
    by (rule deliver_outcome [OF r1(2) assms(3), of E ?f]) blast
  note f1 = deliver_fields [OF r1(1)] and f2 = deliver_fields [OF r2(1)]
  show "acked E body r r'" if ok
  proof (cases "reaches E connID r")
    case True
    then have "r' = r1" using assms(4) r1(1) by (simp add: deliverWithGrace_def)
    then show ?thesis using True f1(1) unfolding acked_def reaches_def by (metis append_Nil append_Nil2)
  next
    case False
    then have "r' = r2" "reaches E ?f r1"
      using assms(4) r1(1) r2(1) that by (auto simp: deliverWithGrace_def Let_def split: if_splits)
    then show ?thesis
      using f1(1) f2(1) unfolding acked_def reaches_def
      by (intro exI [of _ ?f] exI [of _ "[(connID, body)]"]) simp
  qed
  assume n: "\<not> ok" "r_store r = Some s"
  let ?b = "with_store (\<lambda>s. EnqueueRetry (e_pebble E) s i (buffered connID m body esm src dst now))"
  have "r' = ?b r1 \<or> r' = ?b r2"
    using assms(4) r1(1) r2(1) n(1) by (auto simp: deliverWithGrace_def Let_def split: if_splits)
  moreover have "r_store r1 = Some s" "r_store r2 = Some s" using f1(2) f2(2) n(2) by simp_all
  ultimately show "\<exists>s'. r_store r' = Some s' \<and>
      fmlookup (contents (db s')) (retry_key now i) = Some (marshal_PendingDeliver (buffered connID m body esm src dst now))"
    using EnqueueRetry_lookup [OF assms(1)] by auto
qed

text \<open>
  C8. No mobile-originated message is lost. After a deliver_sm from an SMSC that is not a receipt, the message was posted to
  the callback of the MO route that matches it, or an engine acknowledged it, or it is in the retry queue, buffered with
  its body and addresses.
\<close>

theorem mo_not_lost:
  assumes "pebble_ok (e_pebble E) contents" and "router_ok contents r" and "unix_nano now" and "deliver_fits src dst payload"
    and "\<not> IsDLR esm" and "r_store r = Some s"
  shows "\<exists>r'. HandleDeliver E now src dst esm payload r = Some r' \<and> router_ok contents r' \<and>
    (let body = BuildDeliverSMBody src dst esm payload in
     (\<exists>target. MO_Resolve (r_moRoutes r) src dst = Some target \<and> Type target = lit ''http'' \<and>
       r_posts r' = r_posts r @ [(CallbackURL target, MOPayload
         \<lparr>mc_Event = lit ''mo'', mc_From = src, mc_To = dst, mc_Body = payload, mc_Timestamp = now\<rparr>)]) \<or>
     acked E body r r' \<or>
     (\<exists>s' connID. r_store r' = Some s' \<and> fmlookup (contents (db s')) (retry_key now (mo_id now)) =
        Some (marshal_PendingDeliver (buffered connID src body esm src dst now))))"
proof -
  let ?r = "r\<lparr>r_totalMO := r_totalMO r + 1\<rparr>" and ?b = "BuildDeliverSMBody src dst esm payload"
  have ok: "router_ok contents ?r" using assms(2) by simp
  have sz: "length ?b < 2 ^ 31" using length_BuildDeliverSMBody [of src dst esm payload] assms(4) by simp
  obtain r' where r': "HandleDeliver E now src dst esm payload r = Some r'" "router_ok contents r'"
    using HandleDeliver_returns [OF assms(1-4), of esm] unfolding returns_def by blast
  let ?done = "acked E ?b r r' \<or> (\<exists>s' connID. r_store r' = Some s' \<and> fmlookup (contents (db s')) (retry_key now (mo_id now)) =
      Some (marshal_PendingDeliver (buffered connID src ?b esm src dst now)))"
  have a: "acked E ?b ?r r' = acked E ?b r r'" by (simp add: acked_def)
  have g: ?done if h: "deliverWithGrace E now connID ?b src esm src dst (mo_id now) False ?r \<bind> (\<lambda>(r, _). Some r) = Some r'" for connID
  proof -
    obtain d where d: "deliverWithGrace E now connID ?b src esm src dst (mo_id now) False ?r = Some (r', d)"
      using h by (auto simp: bind_eq_Some_conv)
    show ?thesis using grace_outcome(1) [OF assms(1) ok sz d] grace_outcome(2) [OF assms(1) ok sz d, of s] assms(6) a by (cases d) auto
  qed
  let ?target = "case Get (r_msisdnAffinity ?r) src of Some i \<Rightarrow> Some i
    | None \<Rightarrow> (let i = RoundRobinConnID (e_ord E) (r_server ?r) in if i = [] then None else Some i)"
  have fb: ?done if h: "mo_fallback E now src dst esm payload ?r = Some r'"
  proof (cases ?target)
    case None
    have "r' = with_store (\<lambda>s. EnqueueRetry (e_pebble E) s (mo_id now) (buffered [] src ?b esm src dst now)) ?r"
      using h unfolding mo_fallback_def Let_def None [unfolded Let_def] by simp
    then show ?thesis using assms(6) EnqueueRetry_lookup [OF assms(1)] by auto
  next
    case (Some connID)
    show ?thesis using h g [of connID] unfolding mo_fallback_def Let_def Some [unfolded Let_def] by simp
  qed
  have m: "handleMO E now src dst esm payload r = Some r'" using r'(1) assms(5) by (simp add: HandleDeliver_def)
  show ?thesis
  proof (cases "MO_Resolve (r_moRoutes r) src dst")
    case None
    then have ?done using fb m by (simp add: handleMO_def Let_def)
    then show ?thesis using r' by (auto simp: Let_def)
  next
    case (Some target)
    then have "?done \<or> Type target = lit ''http'' \<and> r' = deliverMOCallback E now (CallbackURL target) src dst payload ?r"
      using fb g m by (auto simp: handleMO_def Let_def split: if_splits)
    then show ?thesis using r' Some by (auto simp: Let_def deliverMOCallback_def postCallback_def)
  qed
qed

theorem mo_not_lost_witness:
  "\<exists>r'. HandleDeliver example_env 9 (lit ''27'') (lit ''me'') 0 (lit ''hi'') example_router = Some r' \<and> router_ok (\<lambda>m. m) r'"
  using mo_not_lost [OF example_pebble example_router_ok, of 9 "lit ''27''" "lit ''me''" "lit ''hi''" 0 "NewMessageStore fmempty"]
  by (auto simp: unix_nano_def IsDLR_def lit_def)

section \<open>Retries end\<close>

text \<open>Ticks of \<^verbatim>\<open>RunSubmitRetryLoop\<close>, at the given times.\<close>

fun retry_ticks :: "('d, 'p) env \<Rightarrow> Time list \<Rightarrow> ('d, 'p) Router \<Rightarrow> ('d, 'p) Router go" where
  "retry_ticks E [] r = Some r"
| "retry_ticks E (t # ts) r = do { r \<leftarrow> drainSubmitRetries E t r; retry_ticks E ts r }"

lemma select_submitter_eq:
  "select_submitter E d r = Some (r', sub) \<Longrightarrow> \<exists>x. r' = r\<lparr>r_mtRoutes := x\<rparr>"
proof (cases "r_poolManager r")
  case None
  then show "select_submitter E d r = Some (r', sub) \<Longrightarrow> ?thesis" by (auto simp: select_submitter_def intro: exI [of _ "r_mtRoutes r"])
qed (auto simp: select_submitter_def bind_eq_Some_conv)

text \<open>No SMSC takes a message.\<close>

abbreviation refuses :: "('d, 'p) env \<Rightarrow> bool" where
  "refuses E \<equiv> \<forall>n sub b i. e_submit E n sub b \<noteq> Submitted i"

lemma retry_submit_refused:
  assumes "refuses E" "retry_submit E now p r = Some r'"
  shows "\<exists>x y. enqueueSubmitRetryOrFail E now (ps_GwMsgID p) (ps_ConnID p) (ps_MSISDN p) (ps_SourceAddr p) (ps_RawBody p)
    (ps_RetryCount p) (r\<lparr>r_mtRoutes := x, r_sent := y\<rparr>) = Some r'"
proof -
  obtain r1 sub where s: "select_submitter E (ps_MSISDN p) r = Some (r1, sub)" using assms(2) by (auto simp: retry_submit_def bind_eq_Some_conv)
  obtain x where x: "r1 = r\<lparr>r_mtRoutes := x\<rparr>" using select_submitter_eq [OF s] by blast
  show ?thesis
  proof (cases sub)
    case None
    then show ?thesis using assms(2) s x by (intro exI [of _ x] exI [of _ "r_sent r"]) (simp add: retry_submit_def)
  next
    case (Some sb)
    have "e_submit E (length (r_sent r1)) sb (ps_RawBody p) \<noteq> Submitted i" for i using assms(1) by blast
    then show ?thesis
      using assms(2) s x Some
      by (intro exI [of _ x] exI [of _ "r_sent r1 @ [(sb, ps_RawBody p)]"]) (auto simp: retry_submit_def SubmitRaw_def split: submit_result.splits)
  qed
qed

lemma queue_upd_other: "\<not> HasPrefix k pre \<Longrightarrow> set (queue_log pre upper parse (fmupd k v m)) = set (queue_log pre upper parse m)"
proof -
  assume "\<not> HasPrefix k pre"
  then have "(\<exists>x. k' = pre @ x \<and> x < upper) \<Longrightarrow> fmlookup (fmupd k v m) k' = fmlookup m k'" for k'
    by (auto simp: HasPrefix_iff)
  then have "(k', p) \<in> set (queue_log pre upper parse (fmupd k v m)) \<longleftrightarrow> (k', p) \<in> set (queue_log pre upper parse m)" for k' p
    unfolding queue_set by metis
  then show ?thesis by auto
qed

lemma UpdateMessageLog_queue:
  assumes "pebble_ok P contents" "typed (contents (db s))"
  shows "set (submit_log (contents (db (fst (UpdateMessageLog P s now i upd))))) = set (submit_log (contents (db s)))"
proof -
  have "\<not> HasPrefix k (lit ''submit-retry:'')" if "fmlookup (contents (db s)) (logidx_key i) = Some (VRaw k)" for k
    using ns_ok_get(4) [OF assms(2) that] by (auto simp: HasPrefix_iff lit_def)
  then show ?thesis
    by (auto simp: UpdateMessageLog_def pebble_get [OF assms(1)] set_then_contents [OF assms(1)] queue_upd_other
        split: option.split dbval.split)
qed

lemma EnqueueRetry_queue:
  assumes "pebble_ok P contents"
  shows "set (submit_log (contents (db (fst (EnqueueRetry P s i p))))) = set (submit_log (contents (db s)))"
proof -
  have "\<not> HasPrefix (retry_key (pd_EnqueuedAt p) i) (lit ''submit-retry:'')" by (simp add: retry_key_def HasPrefix_iff lit_def)
  then show ?thesis by (simp add: EnqueueRetry_def set_then_contents [OF assms] queue_upd_other)
qed

lemma synthetic_queue:
  assumes "pebble_ok (e_pebble E) contents" "router_ok contents r" "r_store r = Some s" "connID \<noteq> rest_api"
    and "sendSyntheticDLR E now connID i dst src r = Some r'"
  shows "\<exists>s'. r_store r' = Some s' \<and> set (submit_log (contents (db s'))) = set (submit_log (contents (db s)))"
proof -
  have "typed (contents (db s))" using assms(2,3) by (simp add: router_ok_def store_inv_def store_ok_def)
  note u = UpdateMessageLog_queue [OF assms(1) this]
  show ?thesis
    using assms(3-5) u EnqueueRetry_queue [OF assms(1)]
    by (auto simp: sendSyntheticDLR_def Let_def grace_receipt bind_eq_Some_conv dest!: deliver_fields(2))
qed

abbreviation pending_fits :: "PendingSubmit \<Rightarrow> bool" where
  "pending_fits p \<equiv> fits addr_max (ps_MSISDN p) \<and> fits addr_max (ps_SourceAddr p) \<and> fits id_max (ps_GwMsgID p)"

abbreviation failure_receipt :: "PendingSubmit \<Rightarrow> gostring \<times> bytes" where
  "failure_receipt p \<equiv> (ps_ConnID p, BuildDeliverSMBody (ps_SourceAddr p) (ps_MSISDN p) 0x04 (synthetic_receipt (ps_GwMsgID p)))"

abbreviation again :: "Time \<Rightarrow> PendingSubmit \<Rightarrow> PendingSubmit" where
  "again t p \<equiv> p\<lparr>ps_RetryCount := ps_RetryCount p + 1, ps_EnqueuedAt := t\<rparr>"

text \<open>One refused attempt: the counter goes up in the store, or the engine is told.\<close>

lemma refused_attempt:
  assumes "pebble_ok (e_pebble E) contents" "refuses E" "unix_nano now" "pending_fits p"
    and "router_ok contents r" "rr_room (Suc n) (r_mtRoutes r)" "r_store r = Some s" "ps_ConnID p \<noteq> rest_api"
  shows "\<exists>r' s'. retry_submit E now p r = Some r' \<and> router_ok contents r' \<and> rr_room n (r_mtRoutes r') \<and>
    r_maxSubmitRetries r' = r_maxSubmitRetries r \<and> r_store r' = Some s' \<and>
    (if 0 < r_maxSubmitRetries r \<and> ps_RetryCount p < r_maxSubmitRetries r
     then r_delivers r' = r_delivers r \<and> s' = fst (EnqueueSubmitRetry (e_pebble E) s (again now p))
     else r_delivers r' = r_delivers r @ [failure_receipt p] \<and> set (submit_log (contents (db s'))) = set (submit_log (contents (db s))))"
proof -
  obtain r' where r': "retry_submit E now p r = Some r'" "router_ok contents r'" "rr_room n (r_mtRoutes r')"
    using retry_submit_returns [OF assms(1,5,3,6,4)] by (auto simp: returns_room_def)
  obtain x y where e: "enqueueSubmitRetryOrFail E now (ps_GwMsgID p) (ps_ConnID p) (ps_MSISDN p) (ps_SourceAddr p) (ps_RawBody p)
    (ps_RetryCount p) (r\<lparr>r_mtRoutes := x, r_sent := y\<rparr>) = Some r'" using retry_submit_refused [OF assms(2) r'(1)] by blast
  have ok: "router_ok contents (r\<lparr>r_mtRoutes := x, r_sent := y\<rparr>)" using assms(5) by simp
  have fr: "router_frame (r\<lparr>r_mtRoutes := x, r_sent := y\<rparr>) r'"
    using enqueueSubmitRetryOrFail_keeps [OF assms(1) ok assms(3), of "ps_GwMsgID p" "ps_MSISDN p" "ps_SourceAddr p" "ps_ConnID p"
      "ps_RawBody p" "ps_RetryCount p"] assms(4) e by (simp add: keeps_def)
  show ?thesis
  proof (cases "0 < r_maxSubmitRetries r \<and> ps_RetryCount p < r_maxSubmitRetries r")
    case True
    have p: "\<lparr>ps_GwMsgID = ps_GwMsgID p, ps_ConnID = ps_ConnID p, ps_MSISDN = ps_MSISDN p, ps_SourceAddr = ps_SourceAddr p,
        ps_RawBody = ps_RawBody p, ps_RetryCount = ps_RetryCount p + 1, ps_EnqueuedAt = now\<rparr> = again now p" by simp
    have "r' = with_store (\<lambda>s. EnqueueSubmitRetry (e_pebble E) s (again now p)) (r\<lparr>r_mtRoutes := x, r_sent := y\<rparr>)"
      using e True assms(7) unfolding enqueueSubmitRetryOrFail_def p by simp
    then show ?thesis using r' True assms(7) by simp
  next
    case False
    then have s: "sendSyntheticDLR E now (ps_ConnID p) (ps_GwMsgID p) (ps_MSISDN p) (ps_SourceAddr p) (r\<lparr>r_mtRoutes := x, r_sent := y\<rparr>) = Some r'"
      using e by (auto simp: enqueueSubmitRetryOrFail_def)
    then have "r_delivers r' = r_delivers r @ [failure_receipt p]"
      using synthetic_receipt_sent [OF assms(1) ok assms(3)] assms(4,8) by auto
    moreover obtain s' where "r_store r' = Some s'" "set (submit_log (contents (db s'))) = set (submit_log (contents (db s)))"
      using synthetic_queue [OF assms(1) ok _ assms(8) s] assms(7) by auto
    ultimately show ?thesis using r' fr False by (auto simp: router_frame_def)
  qed
qed

lemma distinct_singleton: "set xs = {x} \<Longrightarrow> distinct xs \<Longrightarrow> xs = [x]"
  by (cases xs; cases "tl xs") auto

lemma enqueue_single:
  assumes "pebble_ok P contents" "unix_nano (ps_EnqueuedAt q)" "json_PendingSubmit q = q" "submit_log (contents (db s)) = []"
  shows "\<exists>k. submit_log (contents (db (fst (EnqueueSubmitRetry P s q)))) = [(k, q)]"
proof -
  let ?x = "fmt020d (ps_EnqueuedAt q) @ lit '':'' @ ps_GwMsgID q"
  let ?l = "submit_log (contents (db (fst (EnqueueSubmitRetry P s q))))"
  have "contents (db (fst (EnqueueSubmitRetry P s q))) = fmupd (lit ''submit-retry:'' @ ?x) (VPendingSubmit q) (contents (db s))"
    using EnqueueSubmitRetry_law [OF assms(1), of s q] assms(3) by (auto simp: submit_retry_key_def)
  then have "set ?l = {(lit ''submit-retry:'' @ ?x, q)}"
    using queue_upd_set [of as_pending_submit "VPendingSubmit q" q "lit ''submit-retry:''" "[0xFF]" ?x "contents (db s)"]
      fmt020d_below_FF [OF assms(2)] assms(4) by simp
  moreover have "distinct ?l" using queue_distinct [of "lit ''submit-retry:''" "[0xFF]" as_pending_submit] by (simp add: distinct_map)
  ultimately have "?l = [(lit ''submit-retry:'' @ ?x, q)]" by (rule distinct_singleton)
  then show ?thesis by blast
qed

lemma json_fixed: "json_PendingSubmit p = p \<longleftrightarrow> json_string (ps_GwMsgID p) = ps_GwMsgID p \<and> json_string (ps_ConnID p) = ps_ConnID p \<and>
    json_string (ps_MSISDN p) = ps_MSISDN p \<and> json_string (ps_SourceAddr p) = ps_SourceAddr p"
  by (cases p) (simp add: json_PendingSubmit_def)

text \<open>A tick of the retry loop when the queue holds one message.\<close>

lemma refused_tick:
  assumes "pebble_ok (e_pebble E) contents" "refuses E" "unix_nano now" "ps_ConnID p \<noteq> rest_api" "json_PendingSubmit p = p"
    and "router_ok contents r" "rr_room (Suc n) (r_mtRoutes r)" "r_store r = Some s" "submit_log (contents (db s)) = [(k, p)]"
  shows "\<exists>r' s'. drainSubmitRetries E now r = Some r' \<and> router_ok contents r' \<and> rr_room n (r_mtRoutes r') \<and>
    r_maxSubmitRetries r' = r_maxSubmitRetries r \<and> r_store r' = Some s' \<and>
    (if 0 < r_maxSubmitRetries r \<and> ps_RetryCount p < r_maxSubmitRetries r
     then r_delivers r' = r_delivers r \<and> (\<exists>k'. submit_log (contents (db s')) = [(k', again now p)])
     else r_delivers r' = r_delivers r @ [failure_receipt p] \<and> submit_log (contents (db s')) = [])"
proof -
  have inv: "store_inv contents s" and l: "0 < r_submitRetryDrainLimit r" using assms(6,8) by (simp_all add: router_ok_def)
  have dr: "drained (r_submitRetryDrainLimit r) [(k, p)] = [(k, p)]" "kept (r_submitRetryDrainLimit r) [(k, p)] = []"
    using l by (simp_all add: drained_def kept_def Suc_le_eq)
  obtain s1 where d: "DrainSubmitRetries (e_pebble E) s (r_submitRetryDrainLimit r) = (s1, Inr [p])"
      "contents (db s1) = fmdrop_set {k} (contents (db s))"
    using DrainSubmitRetries_law [OF assms(1), of s "r_submitRetryDrainLimit r"] dr(1) assms(9) by auto
  have q: "submit_log (contents (db s1)) = []"
    using queue_drain [of "lit ''submit-retry:''" "[0xFF]" as_pending_submit "r_submitRetryDrainLimit r" "contents (db s)"]
    by (simp add: d(2) assms(9) dr)
  note di = DrainSubmitRetries_inv [OF assms(1) inv d(1)]
  let ?r = "r\<lparr>r_store := Some s1\<rparr>"
  have ok: "router_ok contents ?r" using assms(6) di(1) by (simp add: router_ok_def)
  have f: "pending_fits p" using di(2) [of "[p]" p] by simp
  have t: "drainSubmitRetries E now r = retry_submit E now p ?r"
    by (cases "retry_submit E now p ?r") (simp_all add: drainSubmitRetries_def assms(8) d(1))
  have j: "json_PendingSubmit (again now p) = again now p"
    using assms(5) unfolding json_fixed by simp
  have e: "\<exists>k'. submit_log (contents (db (fst (EnqueueSubmitRetry (e_pebble E) s1 (again now p))))) = [(k', again now p)]"
    by (rule enqueue_single [OF assms(1) _ j q]) (simp add: assms(3))
  have em: "set (submit_log (contents (db s'))) = set (submit_log (contents (db s1))) \<Longrightarrow> submit_log (contents (db s')) = []" for s'
    by (simp add: q)
  have "rr_room (Suc n) (r_mtRoutes ?r)" "r_store ?r = Some s1" using assms(7) by simp_all
  from refused_attempt [OF assms(1-3) f ok this assms(4)] show ?thesis
    unfolding t using e em by (auto split: if_splits)
qed

text \<open>
  C7. Retries end, with exactly one failure receipt. Take a message that no SMSC accepts, alone in the retry queue. As long
  as its counter is below the configured maximum, a tick of the retry loop leaves it in the queue with the counter one
  higher and tells the engine nothing; the tick after that empties the queue and sends the engine one failure receipt,
  under the message's gateway id.
\<close>

theorem submit_retries_end:
  assumes "pebble_ok (e_pebble E) contents" and "refuses E" and "list_all unix_nano ts" and "ps_ConnID p \<noteq> rest_api"
    and "json_PendingSubmit p = p" and "router_ok contents r" and "rr_room (length ts) (r_mtRoutes r)" and "r_store r = Some s"
    and "submit_log (contents (db s)) = [(k, p)]" and "0 < ps_RetryCount p" and "ps_RetryCount p \<le> r_maxSubmitRetries r"
    and "ps_RetryCount p + int (length ts) \<le> r_maxSubmitRetries r + 1"
  shows "\<exists>r' s' q. retry_ticks E ts r = Some r' \<and> r_store r' = Some s' \<and>
    (if ps_RetryCount p + int (length ts) \<le> r_maxSubmitRetries r
     then r_delivers r' = r_delivers r \<and> map snd (submit_log (contents (db s'))) = [q] \<and>
       q = p\<lparr>ps_RetryCount := ps_RetryCount p + int (length ts), ps_EnqueuedAt := ps_EnqueuedAt q\<rparr>
     else r_delivers r' = r_delivers r @ [failure_receipt p] \<and> submit_log (contents (db s')) = [])"
  using assms(3-12)
proof (induction ts arbitrary: p r s k)
  case Nil
  then show ?case by (auto intro!: exI [of _ p])
next
  case (Cons t ts)
  have a: "unix_nano t" "rr_room (Suc (length ts)) (r_mtRoutes r)" using Cons.prems(1,5) by simp_all
  obtain r1 s1 where r1: "drainSubmitRetries E t r = Some r1" "router_ok contents r1" "rr_room (length ts) (r_mtRoutes r1)"
    "r_maxSubmitRetries r1 = r_maxSubmitRetries r" "r_store r1 = Some s1"
    "if 0 < r_maxSubmitRetries r \<and> ps_RetryCount p < r_maxSubmitRetries r
     then r_delivers r1 = r_delivers r \<and> (\<exists>k'. submit_log (contents (db s1)) = [(k', again t p)])
     else r_delivers r1 = r_delivers r @ [failure_receipt p] \<and> submit_log (contents (db s1)) = []"
    using refused_tick [OF assms(1,2) a(1) Cons.prems(2-4) a(2) Cons.prems(6,7)] by blast
  show ?case
  proof (cases "ps_RetryCount p < r_maxSubmitRetries r")
    case True
    then obtain k' where k': "r_delivers r1 = r_delivers r" "submit_log (contents (db s1)) = [(k', again t p)]"
      using r1(6) Cons.prems(8) by auto
    have j: "json_PendingSubmit (again t p) = again t p" using Cons.prems(3) unfolding json_fixed by simp
    obtain r' s' q where h: "retry_ticks E ts r1 = Some r'" "r_store r' = Some s'"
      "if ps_RetryCount (again t p) + int (length ts) \<le> r_maxSubmitRetries r1
       then r_delivers r' = r_delivers r1 \<and> map snd (submit_log (contents (db s'))) = [q] \<and>
         q = (again t p)\<lparr>ps_RetryCount := ps_RetryCount (again t p) + int (length ts), ps_EnqueuedAt := ps_EnqueuedAt q\<rparr>
       else r_delivers r' = r_delivers r1 @ [failure_receipt (again t p)] \<and> submit_log (contents (db s')) = []"
      using Cons.IH [OF _ _ j r1(2,3,5) k'(2)] Cons.prems r1(4) True by auto
    have e: "(again t p)\<lparr>ps_RetryCount := y, ps_EnqueuedAt := x\<rparr> = p\<lparr>ps_RetryCount := y, ps_EnqueuedAt := x\<rparr>"
      "ps_RetryCount (again t p) + int (length ts) = ps_RetryCount p + int (length (t # ts))"
      "failure_receipt (again t p) = failure_receipt p" for x y by simp_all
    show ?thesis
      by (rule exI [of _ r'], rule exI [of _ s'], rule exI [of _ q], intro conjI)
        (use h(1,2) r1(1) h(3) [unfolded e r1(4) k'(1)] in \<open>simp_all only: retry_ticks.simps Option.bind.simps\<close>)
  next
    case False
    then have "length ts = 0" using Cons.prems(10) by (simp del: length_0_conv)
    then have "ts = []" by simp
    then show ?thesis using r1 False Cons.prems(10) by auto
  qed
qed

definition stuck_submit :: PendingSubmit where
  "stuck_submit = \<lparr>ps_GwMsgID = lit ''GW-1'', ps_ConnID = lit ''acme'', ps_MSISDN = lit ''27'', ps_SourceAddr = lit ''me'',
     ps_RawBody = [1], ps_RetryCount = 2, ps_EnqueuedAt = 5\<rparr>"

definition stuck_router :: "((gostring, dbval) fmap, unit) Router" where
  "stuck_router = example_router\<lparr>r_store := Some (fst (EnqueueSubmitRetry mem_pebble (NewMessageStore fmempty) stuck_submit))\<rparr>"

theorem submit_retries_end_witness:
  "\<exists>r' s'. retry_ticks example_env [6, 7] stuck_router = Some r' \<and> r_store r' = Some s' \<and>
     r_delivers r' = [failure_receipt stuck_submit] \<and> submit_log (db s') = []"
proof -
  let ?s = "fst (EnqueueSubmitRetry mem_pebble (NewMessageStore fmempty) stuck_submit) :: (gostring, dbval) fmap MessageStore"
  have j: "json_PendingSubmit stuck_submit = stuck_submit"
    unfolding json_fixed by (auto simp: stuck_submit_def lit_def intro!: json_string_ascii)
  have f: "fits addr_max (ps_MSISDN stuck_submit)" "fits addr_max (ps_SourceAddr stuck_submit)" "fits id_max (ps_GwMsgID stuck_submit)"
    by (auto simp: stuck_submit_def lit_def intro!: fitsI)
  have n: "store_inv (\<lambda>m. m) (NewMessageStore fmempty)" by (rule store_inv_new) simp
  have u: "unix_nano (ps_EnqueuedAt stuck_submit)" by (simp add: stuck_submit_def unix_nano_def)
  have ok: "router_ok (\<lambda>m. m) stuck_router"
    using example_router_ok EnqueueSubmitRetry_inv [OF mem_pebble_ok n u f] by (simp add: stuck_router_def router_ok_def)
  have "submit_log (db (NewMessageStore fmempty :: (gostring, dbval) fmap MessageStore)) = []"
    by (simp add: NewMessageStore_def queue_log_def scan_map_def sorted_list_of_fset.rep_eq)
  then obtain k where k: "submit_log (db ?s) = [(k, stuck_submit)]" using enqueue_single [OF mem_pebble_ok u j] by blast
  have room: "rr_room (length [6, 7 :: Time]) (r_mtRoutes stuck_router)"
    by (simp add: stuck_router_def example_router_def NewRouter_def rr_room_def NewMTRouteTable_def)
  have c: "ps_ConnID stuck_submit \<noteq> rest_api" "0 < ps_RetryCount stuck_submit" "list_all unix_nano [6, 7]"
    "r_store stuck_router = Some ?s" "r_maxSubmitRetries stuck_router = 3" "r_delivers stuck_router = []" "ps_RetryCount stuck_submit = 2"
    by (simp_all add: stuck_submit_def stuck_router_def unix_nano_def lit_def)
  show ?thesis
    using submit_retries_end [OF example_pebble _ c(3,1) j ok room c(4) k c(2)] c(5,6,7) by (simp add: example_env_def)
qed

end
