(* ===== verification/Gateway.thy ===== *)
theory Gateway
  imports Rest_Api Router_Receipts
begin

text \<open>
  The running gateway: the sessions, the router, the store and the timers of \<^verbatim>\<open>cmd/smsc-gateway/main.go\<close> as one state
  that events change. An event is what one goroutine does in one go: a PDU arrives on a session, a worker forwards a
  submit, the SMSC delivers, a timer ticks, a REST request comes in. The handlers of the read loop call into the server
  and the router as \<^verbatim>\<open>handleConnection\<close> wires them.
\<close>

section \<open>Wiring\<close>

text \<open>The account store shares the message store; \<open>accounts\<close> says whether it was set.\<close>

definition conn_config_store :: "bcrypt_cmp \<Rightarrow> bool \<Rightarrow> ('d, 'p) env \<Rightarrow> ('d, 'p) Router \<Rightarrow>
    (gostring \<Rightarrow> bytes \<Rightarrow> conn_error + ConnectionConfig option) option" where
  "conn_config_store cmp accounts E r =
     (if accounts then map_option (\<lambda>s. Authenticate cmp (e_pebble E) s) (r_store r) else None)"

definition onSubmit :: "('d, 'p) env \<Rightarrow> Time \<Rightarrow> gostring \<Rightarrow> uint32 \<Rightarrow> bytes \<Rightarrow> ('d, 'p) Router \<Rightarrow> ('d, 'p) Router go" where
  "onSubmit E now connID seqNum body r = HandleSubmit E now connID seqNum body r"

definition handleConnection :: "bcrypt_cmp \<Rightarrow> bool \<Rightarrow> ('d, 'p) env \<Rightarrow> Time \<Rightarrow> conn_ptr \<Rightarrow> ('d, 'p) Router handlers" where
  "handleConnection cmp accounts E now p =
     \<lparr>h_conn = (\<lambda>r. deref (r_server r) p),
      h_put = (\<lambda>c. map_server (put_conn p c)),
      h_bindCfg = (\<lambda>r. bind_config (conn_config_store cmp accounts E r) (r_server r)),
      h_onSubmit = onSubmit E now,
      h_onDeliverResp = (\<lambda>connID seqNum status r. Some (map_server (onDeliverResp connID seqNum status) r)),
      h_onBind = Some (\<lambda>systemID r. Some (map_server (onBind (e_ord E) p systemID) r))\<rparr>"

section \<open>Events\<close>

datatype event =
    EvAccept net_Conn
  | EvReceive conn_ptr PDU
  | EvDisconnect conn_ptr
  | EvForward
  | EvDeliver gostring gostring byte bytes
  | EvDrainRetries "nat \<Rightarrow> Time" int
  | EvDrainSubmits
  | EvDrainCallbacks
  | EvRestSubmit "SMSSubmitRequest option"
  | EvRestBatch "nat \<Rightarrow> Time" "SMSBatchRequest option"
  | EvEnquireLink
  | EvStaleCheck
  | EvExpireCorrelations "(gostring, correlation) fmap \<Rightarrow> (gostring \<times> correlation) list" int
  | EvStoreCleanup int
  | EvWriterReceive
  | EvWriterFlush
  | EvStop

definition store_step :: "('d MessageStore \<Rightarrow> 'd MessageStore) \<Rightarrow> ('d, 'p) Router \<Rightarrow> ('d, 'p) Router" where
  "store_step f = with_store (\<lambda>s. (f s, ()))"

fun handle :: "bcrypt_cmp \<Rightarrow> bool \<Rightarrow> ('d, 'p) env \<Rightarrow> Time \<Rightarrow> event \<Rightarrow> ('d, 'p) Router \<Rightarrow> ('d, 'p) Router go" where
  "handle cmp accounts E now (EvAccept conn) r = Some (map_server (\<lambda>s. fst (acceptLoop_step now conn s)) r)"
| "handle cmp accounts E now (EvReceive p pdu) r = do {
     (r, returned) \<leftarrow> dispatch (handleConnection cmp accounts E now p) now pdu r;
     Some (if returned then map_server (handleConnection_cleanup now p) r else r)
   }"
| "handle cmp accounts E now (EvDisconnect p) r = Some (map_server (handleConnection_cleanup now p) r)"
| "handle cmp accounts E now EvForward r = forwardWorker_step E now r"
| "handle cmp accounts E now (EvDeliver src dst esm payload) r = HandleDeliver E now src dst esm payload r"
| "handle cmp accounts E now (EvDrainRetries clock maxAge) r = drainRetries E now clock maxAge r"
| "handle cmp accounts E now EvDrainSubmits r = drainSubmitRetries E now r"
| "handle cmp accounts E now EvDrainCallbacks r = drainCallbackRetries E now r"
| "handle cmp accounts E now (EvRestSubmit req) r = map_option fst (HandleHTTPSubmit E now req r)"
| "handle cmp accounts E now (EvRestBatch clock req) r = map_option fst (HandleHTTPBatchSubmit E clock req r)"
| "handle cmp accounts E now EvEnquireLink r = do { s \<leftarrow> RunEnquireLink_tick (e_ord E) (r_server r); Some (map_server (\<lambda>_. s) r) }"
| "handle cmp accounts E now EvStaleCheck r = Some (map_server (RunStaleChecker_tick (e_ord E) now) r)"
| "handle cmp accounts E now (EvExpireCorrelations ord maxAge) r = Some (CleanupCorrelations_tick ord now maxAge r)"
| "handle cmp accounts E now (EvStoreCleanup ttl) r = Some (store_step (\<lambda>s. fst (Cleanup (e_pebble E) s now ttl)) r)"
| "handle cmp accounts E now EvWriterReceive r = Some (store_step (writer_receive (e_pebble E)) r)"
| "handle cmp accounts E now EvWriterFlush r = Some (store_step (writer_flush (e_pebble E)) r)"
| "handle cmp accounts E now EvStop r = Some (map_server (Stop (e_ord E)) r)"

section \<open>The store and server steps\<close>

lemma vals_ok_sets:
  assumes "\<forall>k v. fmlookup m k = Some v \<longrightarrow> val_ok v" "\<forall>(k, v) \<in> set ops. val_ok v"
  shows "\<forall>k v. fmlookup (foldl batch_apply m (map (\<lambda>(k, v). BSet k v) ops)) k = Some v \<longrightarrow> val_ok v"
  using assms
proof (induction ops arbitrary: m)
  case (Cons op ops)
  obtain k v where op: "op = (k, v)" by force
  have "val_ok v'" if "fmlookup (fmupd k v m) k' = Some v'" for k' v'
  proof (cases "k' = k")
    case True
    then show ?thesis using that Cons.prems(2) by (simp add: op)
  next
    case False
    then show ?thesis using that Cons.prems(1) by (metis fmupd_lookup)
  qed
  moreover have "\<forall>(k, v) \<in> set ops. val_ok v" using Cons.prems(2) by simp
  ultimately have "\<forall>k' v'. fmlookup (foldl batch_apply (fmupd k v m) (map (\<lambda>(k, v). BSet k v) ops)) k' = Some v' \<longrightarrow> val_ok v'"
    using Cons.IH by blast
  then show ?case unfolding op by (simp only: list.map foldl.simps prod.case batch_apply.simps)
qed simp

lemma writer_flush_inv:
  assumes "pebble_ok P contents" "store_inv contents s"
  shows "store_inv contents (writer_flush P s)"
proof -
  obtain d where d: "pb_commit P (db s) (map (\<lambda>(k, v). BSet k v) (batch s)) = Some d"
      "contents d = foldl batch_apply (contents (db s)) (map (\<lambda>(k, v). BSet k v) (batch s))"
    using pebble_commitE [OF assms(1)] .
  have v: "\<forall>k v. fmlookup (contents (db s)) k = Some v \<longrightarrow> val_ok v" "\<forall>(k, v) \<in> set (batch s). val_ok v" "\<forall>(k, v) \<in> set (writeCh s). val_ok v"
    using assms(2) by (simp_all add: store_inv_def vals_ok_def ball_Un)
  have "vals_ok contents (writer_flush P s)"
    using vals_ok_sets [OF v(1,2)] v d by (simp add: writer_flush_def vals_ok_def)
  then show ?thesis using writer_flush_ok [OF assms(1)] assms(2) by (simp add: store_inv_def)
qed

lemma writer_receive_inv:
  assumes "pebble_ok P contents" "store_inv contents s"
  shows "store_inv contents (writer_receive P s)"
proof (cases "writeCh s")
  case (Cons op ops)
  have "store_inv contents (s\<lparr>writeCh := ops, batch := batch s @ [op]\<rparr>)"
    using assms(2) Cons by (simp add: store_inv_def store_ok_def vals_ok_def)
  then show ?thesis
    using writer_flush_inv [OF assms(1)] by (simp add: writer_receive_def Cons Let_def)
qed (simp add: writer_receive_def assms)

lemma Cleanup_inv:
  assumes "pebble_ok P contents" "store_inv contents s"
  shows "store_inv contents (fst (Cleanup P s now ttl))"
proof -
  have v: "vals_ok contents s" using assms(2) by (simp add: store_inv_def)
  have c: "vals_ok contents (s\<lparr>db := d, msgCount := a, logCount := b\<rparr>)"
    if "pb_commit P (db s) (map BDelete ks) = Some d" for d ks a b
    using vals_ok_deletes [OF assms(1) v that] by (simp add: vals_ok_def)
  have "vals_ok contents (fst (Cleanup P s now ttl))"
    using v c by (auto simp: Cleanup_def Let_def split: option.split sum.split prod.split)
  then show ?thesis using Cleanup_ok [OF assms(1)] assms(2) by (simp add: store_inv_def)
qed

lemma store_step_ok:
  "router_ok contents r \<Longrightarrow> (\<And>s. store_inv contents s \<Longrightarrow> store_inv contents (f s)) \<Longrightarrow> router_ok contents (store_step f r)"
  unfolding store_step_def by (erule with_store_ok) simp

lemma confs_ok_heap:
  "confs_ok s \<Longrightarrow> sv_heap s' = sv_heap s \<Longrightarrow> confs_ok s'"
  by (simp add: confs_ok_def)

lemma confs_ok_foldl_close: "confs_ok s \<Longrightarrow> confs_ok (foldl (\<lambda>s p. map_conn p conn_Close s) s ps)"
proof (induction ps arbitrary: s)
  case (Cons p ps)
  have "confs_ok (map_conn p conn_Close s)" using Cons.prems by (rule confs_ok_put) simp
  then show ?case using Cons.IH by simp
qed simp

lemma confs_ok_ops:
  assumes "confs_ok s"
  shows "confs_ok (fst (acceptLoop_step now conn s))" "confs_ok (handleConnection_cleanup now p s)" "confs_ok (Stop ord s)"
    "confs_ok (RunStaleChecker_tick ord now s)" "confs_ok (onDeliverResp i sq st s)" "confs_ok (onBind ord p sid s)"
proof -
  have "c_connConfig (NewConnection now i conn) = None" for i by (simp add: NewConnection_def)
  then show "confs_ok (fst (acceptLoop_step now conn s))"
    using assms by (auto simp: confs_ok_def acceptLoop_step_def Let_def nth_append less_Suc_eq)
  show "confs_ok (handleConnection_cleanup now p s)"
    unfolding handleConnection_cleanup_def Let_def by (rule confs_ok_put [OF confs_ok_heap [OF assms]]) simp_all
  show "confs_ok (Stop ord s)"
    unfolding Stop_def Let_def foldl_snd
    by (rule confs_ok_heap [OF confs_ok_foldl_close [of "s\<lparr>sv_done := True\<rparr>"]]) (use assms in \<open>simp_all add: confs_ok_def\<close>)
  show "confs_ok (RunStaleChecker_tick ord now s)" using assms by (simp add: RunStaleChecker_tick_def confs_ok_foldl_close)
  have r: "c_connConfig (ResolveDeliverResp c sq st) = c_connConfig c" for c by (simp add: ResolveDeliverResp_def split: option.split)
  show "confs_ok (onDeliverResp i sq st s)"
    using assms by (auto simp: onDeliverResp_def r intro!: confs_ok_put split: option.split)
  let ?s1 = "map_conn p (\<lambda>c. c\<lparr>c_ID := sid\<rparr>) s"
  have s1: "confs_ok ?s1" using assms by (rule confs_ok_put) simp
  have s2: "confs_ok (case fmlookup (sv_conns ?s1) sid of None \<Rightarrow> ?s1 | Some old \<Rightarrow> map_conn old conn_Close ?s1)"
    using s1 by (auto intro!: confs_ok_put split: option.split)
  have c: "confs_ok (map_conn p conn_Close s)" using assms by (rule confs_ok_put) simp
  show "confs_ok (onBind ord p sid s)"
    unfolding onBind_def Let_def using c confs_ok_heap [OF s2] by (auto split: option.split)
qed

lemma enquire_one_ok:
  assumes "server_ok s" "confs_ok s"
  shows "\<exists>s'. enquire_one p s = Some s' \<and> server_ok s' \<and> confs_ok s' \<and> length (sv_heap s') = length (sv_heap s)"
proof -
  let ?sq = "c_seqNum (deref s p) + 1"
  let ?c = "(deref s p)\<lparr>c_seqNum := ?sq\<rparr>" and ?w = "pdu_wire (plain_pdu CmdEnquireLink StatusOK (c_seqNum (deref s p) + 1) [])"
  have "WritePDU ?c \<lparr>CommandLength = 0, CommandID = CmdEnquireLink, CommandStatus = StatusOK, SequenceNumber = ?sq, Body = [], TLVs = None\<rparr> =
      Some (wrote ?w ?c, conn_up ?c)"
    unfolding plain_pdu_length by (subst WritePDU_eq) simp_all
  then have "enquire_one p s = Some (put_conn p (wrote ?w ?c) s)" by (simp add: enquire_one_def Let_def)
  moreover have "server_ok (put_conn p (wrote ?w ?c) s)" "confs_ok (put_conn p (wrote ?w ?c) s)"
    using assms by (auto intro!: server_ok_put confs_ok_put)
  ultimately show ?thesis by simp
qed

lemma enquire_all_ok:
  "server_ok s \<Longrightarrow> confs_ok s \<Longrightarrow> \<exists>s'. enquire_all ps s = Some s' \<and> server_ok s' \<and> confs_ok s'"
proof (induction ps arbitrary: s)
  case (Cons p ps)
  obtain s' where "enquire_one p s = Some s'" "server_ok s'" "confs_ok s'" using enquire_one_ok [OF Cons.prems] by blast
  then show ?case using Cons.IH by simp
qed simp

section \<open>Sessions of the gateway\<close>

text \<open>What the read loop of session \<open>p\<close> keeps true, at time \<open>now\<close>, for a database that behaves.\<close>

definition session_inv :: "('d \<Rightarrow> (gostring, dbval) fmap) \<Rightarrow> ('d, 'p) env \<Rightarrow> Time \<Rightarrow> conn_ptr \<Rightarrow> ('d, 'p) Router \<Rightarrow> bool" where
  "session_inv contents E now p r \<longleftrightarrow> pebble_ok (e_pebble E) contents \<and> unix_nano now \<and> router_ok contents r \<and>
     p < length (sv_heap (r_server r))"

lemma submit_keeps_heap:
  assumes "pebble_ok (e_pebble E) contents" "router_ok contents r" "unix_nano now" "length body \<le> body_max"
  shows "\<exists>r'. HandleSubmit E now connID sq body r = Some r' \<and> router_ok contents r' \<and>
    length (sv_heap (r_server r')) = length (sv_heap (r_server r))"
proof -
  obtain src dst where a: "ParseSubmitSMAddresses body = Some (src, dst)"
    using ParseSubmitSMAddresses_no_panic [of body] by fastforce
  have f: "fits addr_max src" "fits addr_max dst"
    using ParseSubmitSMAddresses_length [OF a] assms(4) by (auto intro!: fitsI)
  obtain r' where r': "HandleSubmit E now connID sq body r = Some r'" "router_ok contents r'"
    using HandleSubmit_returns [OF assms, of connID sq] unfolding returns_def by blast
  have "length (sv_heap (r_server r')) = length (sv_heap (r_server r))"
  proof (cases "GetConnection (r_server r) connID")
    case None
    then have "HandleSubmit E now connID sq body r = (if blacklisted r dst then reject_submit E now connID None sq src dst StatusSubmitFail r
        else accept_submit E now connID None sq src dst body r)"
      by (simp add: HandleSubmit_def a source_policy_def prefix_blocked_def blacklisted_def)
    moreover obtain r1 where "accept_submit E now connID None sq src dst body r = Some r1"
        "delivers_only (answer None sq StatusOK (next_id r) (r_server r)) (r_server r1)"
      using accept_effect [OF assms(1-3) f, of connID None sq body] by blast
    ultimately show ?thesis
      using r'(1) delivers_onlyD(2) by (fastforce simp: reject_submit_eq answer_def split: if_splits)
  next
    case (Some p)
    let ?st = "submit_status now src dst p r"
    let ?s = "answer (Some p) sq ?st (if ?st = StatusOK then next_id r else []) (r_server (if ?st = StatusOK then counted now p r else r))"
    have "delivers_only ?s (r_server r')"
      by (rule HandleSubmit_effect [OF assms Some a, of sq]) (use r'(1) in \<open>auto simp: Let_def\<close>)
    then show ?thesis using delivers_onlyD(2) [of ?s] by simp
  qed
  then show ?thesis using r' by blast
qed

lemma account_fits:
  assumes "pebble_ok P contents" "store_inv contents s" "Authenticate cmp P s sid pw = Inr (Some cc)"
  shows "conf_fits cc"
proof -
  have "cs_Get P s sid = Inr (Some cc)" using assms(3) by (auto simp: Authenticate_def split: sum.splits option.splits if_splits)
  then have "GetJSON P s (connConfigKey sid) as_conn_config = Inr cc"
    by (auto simp: cs_Get_def nil_if_absent_def split: sum.splits store_error.splits)
  then obtain v where v: "fmlookup (contents (db s)) (connConfigKey sid) = Some v" "as_conn_config v = Some cc"
    by (auto simp: GetJSON_def pebble_get [OF assms(1)] split: option.splits)
  then have "v = VConnConfig cc" by (cases v) auto
  then have "val_ok (VConnConfig cc)" using assms(2) v(1) unfolding store_inv_def vals_ok_def by blast
  then show ?thesis by simp
qed

lemma session_put:
  assumes "session_inv contents E now p r" "c_bound (deref (r_server r) p) \<Longrightarrow> c_bound c"
    "c_connConfig c = c_connConfig (deref (r_server r) p) \<or> (\<exists>cc. c_connConfig c = Some cc \<and> conf_fits cc)"
  shows "session_inv contents E now p (map_server (put_conn p c) r)"
proof -
  have "server_ok (put_conn p c (r_server r))" using assms(1,2) by (intro server_ok_put) (auto simp: session_inv_def router_okD(3))
  moreover have "confs_ok (put_conn p c (r_server r))"
    using assms(1,3) by (intro confs_ok_put) (auto simp: session_inv_def router_ok_def)
  ultimately show ?thesis using assms(1) by (simp add: session_inv_def map_server_ok)
qed

lemma onBind_heap: "length (sv_heap (onBind ord p sid s)) = length (sv_heap s)"
  by (simp add: onBind_def Let_def split: option.split)

lemma session_server:
  assumes "session_inv contents E now p r" "server_ok (f (r_server r))" "confs_ok (f (r_server r))"
    "length (sv_heap (f (r_server r))) = length (sv_heap (r_server r))"
  shows "session_inv contents E now p (map_server f r)"
  using assms by (simp add: session_inv_def map_server_ok)

lemma gateway_session:
  "session (handleConnection cmp accounts E now p) (session_inv contents E now p) conf_fits body_max"
proof
  fix r c assume r: "session_inv contents E now p r"
  then have ok: "router_ok contents r" "server_ok (r_server r)" "confs_ok (r_server r)" "pebble_ok (e_pebble E) contents"
      "unix_nano now" "p < length (sv_heap (r_server r))"
    by (auto simp: session_inv_def router_ok_def)
  show "h_conn (handleConnection cmp accounts E now p) (h_put (handleConnection cmp accounts E now p) c r) = c"
    using ok(6) by (simp add: handleConnection_def)
  show "session_inv contents E now p (h_put (handleConnection cmp accounts E now p) c r)"
    if "c_bound (h_conn (handleConnection cmp accounts E now p) r) \<Longrightarrow> c_bound c"
      "c_connConfig c = c_connConfig (h_conn (handleConnection cmp accounts E now p) r) \<or> (\<exists>cc. c_connConfig c = Some cc \<and> conf_fits cc)"
    using session_put [OF r, of c] that by (simp add: handleConnection_def)
  show "conf_fits cc" if "bc_ConnConfigStore (h_bindCfg (handleConnection cmp accounts E now p) r) = Some auth"
      "auth sid pw = Inr (Some cc)" for auth sid pw cc
    using that account_fits [OF ok(4)] ok(1)
    by (auto simp: handleConnection_def bind_config_def conn_config_store_def router_ok_def split: if_splits)
  show "server_id_fits (h_bindCfg (handleConnection cmp accounts E now p) r)"
    using ok(2) by (simp add: handleConnection_def bind_config_def server_ok_def)
  show "\<exists>w'. h_onSubmit (handleConnection cmp accounts E now p) (c_ID (h_conn (handleConnection cmp accounts E now p) r)) sq body r = Some w' \<and>
      session_inv contents E now p w'" if "length body \<le> body_max" for sq body
    using submit_keeps_heap [OF ok(4,1,5) that, of "c_ID (deref (r_server r) p)" sq] ok
    by (auto simp: handleConnection_def onSubmit_def session_inv_def)
  show "\<exists>w'. h_onDeliverResp (handleConnection cmp accounts E now p) (c_ID (h_conn (handleConnection cmp accounts E now p) r)) sq st r = Some w' \<and>
      session_inv contents E now p w'" for sq st
    using server_ok_onDeliverResp [OF ok(2)] confs_ok_ops(5) [OF ok(3)]
    by (auto simp: handleConnection_def onDeliverResp_def intro!: session_server [OF r] split: option.split)
  show "\<exists>w'. f (c_SystemID (h_conn (handleConnection cmp accounts E now p) r)) r = Some w' \<and> session_inv contents E now p w'"
    if "c_bound (h_conn (handleConnection cmp accounts E now p) r)" "h_onBind (handleConnection cmp accounts E now p) = Some f" for f
    using that server_ok_onBind [OF ok(2,6)] confs_ok_ops(6) [OF ok(3)]
    by (auto simp: handleConnection_def onBind_heap intro!: session_server [OF r])
qed

interpretation gws: session "handleConnection cmp accounts E now p" "session_inv contents E now p" conf_fits body_max
  for cmp accounts and E :: "('d, 'p) env" and now p contents
  by (rule gateway_session)

section \<open>Reachable states\<close>

text \<open>
  What the model asks of an event: a PDU arrives on an accepted connection, addresses and bodies are shorter than 128 MiB
  (an SMPP peer sends PDUs of a few hundred bytes), and the round-robin counters of the routes have not been advanced
  towards \<open>2 ^ 63\<close> lookups.
\<close>

fun admissible :: "event \<Rightarrow> ('d, 'p) Router \<Rightarrow> bool" where
  "admissible (EvReceive p pdu) r \<longleftrightarrow> p < length (sv_heap (r_server r)) \<and> length (Body pdu) \<le> body_max"
| "admissible EvForward r \<longleftrightarrow> rr_room 1 (r_mtRoutes r)"
| "admissible EvDrainSubmits r \<longleftrightarrow> rr_room (nat (r_submitRetryDrainLimit r)) (r_mtRoutes r)"
| "admissible (EvDeliver src dst esm payload) r \<longleftrightarrow> deliver_fits src dst payload"
| "admissible (EvRestSubmit (Some m)) r \<longleftrightarrow> request_fits m"
| "admissible (EvRestBatch clock (Some breq)) r \<longleftrightarrow> (\<forall>i. unix_nano (clock i)) \<and> (\<forall>m \<in> set (bq_Messages breq). request_fits m)"
| "admissible _ r \<longleftrightarrow> True"

inductive reachable :: "('d \<Rightarrow> (gostring, dbval) fmap) \<Rightarrow> ('d, 'p) Router \<Rightarrow> bool" for contents where
  start: "length sysid < 2 ^ 31 \<Longrightarrow> store_inv contents s \<Longrightarrow>
    reachable contents (NewRouter files (NewServer password engines sysid version enquire idle) (Some s) cfg)"
| mt_routes: "reachable contents r \<Longrightarrow> reachable contents (SetMTRoutes routes r)"
| mo_routes: "reachable contents r \<Longrightarrow> reachable contents (SetMORoutes mo r)"
| pools: "reachable contents r \<Longrightarrow> reachable contents (SetPoolManager pm r)"
| southbound: "reachable contents r \<Longrightarrow> reachable contents (SetSouthboundSubmitter sub r)"
| event: "reachable contents r \<Longrightarrow> pebble_ok (e_pebble E) contents \<Longrightarrow> unix_nano now \<Longrightarrow> admissible e r \<Longrightarrow>
    handle cmp accounts E now e r = Some r' \<Longrightarrow> reachable contents r'"

lemma returns_server:
  "router_ok contents r \<Longrightarrow> server_ok (f (r_server r)) \<Longrightarrow> confs_ok (f (r_server r)) \<Longrightarrow> returns contents (Some (map_server f r))"
  by (rule returns_Some) (rule map_server_ok)

lemma handle_receive:
  assumes "pebble_ok (e_pebble E) contents" "router_ok contents r" "unix_nano now" "p < length (sv_heap (r_server r))"
    "length (Body pdu) \<le> body_max"
  shows "returns contents (handle cmp accounts E now (EvReceive p pdu) r)"
proof -
  have "session_inv contents E now p r" using assms by (simp add: session_inv_def)
  then obtain r1 b where d: "dispatch (handleConnection cmp accounts E now p) now pdu r = Some (r1, b)" "session_inv contents E now p r1"
    using gws.dispatch_inv [OF _ assms(5), of contents E now p r cmp accounts now] by blast
  then have ok: "router_ok contents r1" "server_ok (r_server r1)" "confs_ok (r_server r1)" by (auto simp: session_inv_def router_ok_def)
  have "router_ok contents (map_server (handleConnection_cleanup now p) r1)"
    using ok by (intro map_server_ok server_ok_cleanup confs_ok_ops)
  then show ?thesis using d(1) ok(1) by (simp add: returns_def)
qed

lemma handle_returns:
  assumes "pebble_ok (e_pebble E) contents" "router_ok contents r" "unix_nano now" "admissible e r"
  shows "returns contents (handle cmp accounts E now e r)"
proof -
  have s: "server_ok (r_server r)" "confs_ok (r_server r)" using assms(2) by (auto simp: router_ok_def)
  show ?thesis
  proof (cases e)
    case (EvReceive p pdu)
    then show ?thesis using handle_receive [OF assms(1-3), of p pdu cmp accounts] assms(4) by simp
  next
    case EvEnquireLink
    obtain s' where "RunEnquireLink_tick (e_ord E) (r_server r) = Some s'" "server_ok s'" "confs_ok s'"
      using enquire_all_ok [OF s] s unfolding RunEnquireLink_tick_def by (metis (no_types, lifting))
    then show ?thesis using EvEnquireLink returns_server [OF assms(2), of "\<lambda>_. s'"] by simp
  next
    case (EvRestSubmit req)
    show ?thesis
    proof (cases req)
      case (Some m)
      then show ?thesis
        using rest_submit_returns [OF assms(1-3), of m] assms(2,4) EvRestSubmit by (auto simp: HandleHTTPSubmit_def returns_def)
    qed (simp add: EvRestSubmit HandleHTTPSubmit_def returns_Some assms(2))
  next
    case (EvRestBatch clock req)
    show ?thesis
    proof (cases req)
      case (Some breq)
      have "\<exists>r' rs. batch_loop E clock breq 0 (bq_Messages breq) [] r = Some (r', [] @ rs) \<and> router_ok contents r' \<and> length rs = length (bq_Messages breq)"
        by (rule batch_loop_returns [OF assms(1) _ assms(2)]) (use assms(4) EvRestBatch Some in simp_all)
      then show ?thesis using assms(2) EvRestBatch Some by (auto simp: HandleHTTPBatchSubmit_def returns_def)
    qed (simp add: EvRestBatch HandleHTTPBatchSubmit_def returns_Some assms(2))
  qed (use assms s in \<open>auto intro!: map_server_ok store_step_ok server_ok_accept server_ok_cleanup server_ok_stale server_ok_stop confs_ok_ops forwardWorker_returns
      HandleDeliver_returns drainRetries_returns drainSubmitRetries_returns drainCallbackRetries_returns returns_Some
      CleanupCorrelations_ok Cleanup_inv writer_receive_inv writer_flush_inv\<close>)
qed

lemma confs_ok_new: "confs_ok (NewServer password engines sysid version enquire idle)"
  by (simp add: confs_ok_def NewServer_def)

lemma reachable_ok: "reachable contents r \<Longrightarrow> router_ok contents r"
proof (induction rule: reachable.induct)
  case (start sysid s files password engines version enquire idle cfg)
  then show ?case by (intro NewRouter_ok server_ok_new confs_ok_new) auto
next
  case (event r E now e cmp accounts r')
  then show ?case using handle_returns [OF event(2) _ event(3,4), of cmp accounts] by (auto simp: returns_def)
qed (simp_all add: router_ok_def SetMTRoutes_def SetMORoutes_def SetPoolManager_def SetSouthboundSubmitter_def)

section \<open>Properties\<close>

text \<open>
  C1. The gateway does not crash. In every state it can reach, every event is handled without a run-time panic, whatever the
  engines, the SMSCs, the REST clients and the callbacks do: no PDU, receipt, retry record or clock tick takes an index,
  a slice or a nil pointer out of range. The state afterwards is again reachable: every entry of the session table is a bound
  session of the server, the forwarding queue is within its capacity, and the store holds only records of the type and size
  its readers expect.
\<close>

theorem gateway_safe:
  assumes "reachable contents r" and "pebble_ok (e_pebble E) contents" and "unix_nano now" and "admissible e r"
  shows "\<exists>r'. handle cmp accounts E now e r = Some r' \<and> reachable contents r' \<and> server_ok (r_server r') \<and>
    int (length (r_forwardCh r')) \<le> r_queueSize r' \<and> pred_option (store_inv contents) (r_store r')"
proof -
  obtain r' where h: "handle cmp accounts E now e r = Some r'" "router_ok contents r'"
    using handle_returns [OF assms(2) reachable_ok [OF assms(1)] assms(3,4), of cmp accounts] by (auto simp: returns_def)
  moreover have "reachable contents r'" using reachable.event [OF assms h(1)] .
  ultimately show ?thesis by (auto simp: router_ok_def pred_option_def)
qed

definition initial_router :: "((gostring, dbval) fmap, unit) Router" where
  "initial_router = NewRouter (\<lambda>_. None) (NewServer [] [] (lit ''gw'') [] 30 120) (Some (NewMessageStore fmempty))
     \<lparr>cf_ForwardQueueSize = 1, cf_ReconnectGraceSec = 30, cf_RateLimitTPS = 1, cf_MaxSubmitRetries = 3, cf_RetryDrainLimit = 0,
      cf_SubmitRetryDrainLimit = 0, cf_BlacklistFile = []\<rparr>"

theorem gateway_safe_witness:
  "\<exists>r'. handle one_check True example_env 9 (EvDeliver (lit ''27'') (lit ''me'') 4 (lit ''id:7f'')) initial_router = Some r' \<and>
     reachable (\<lambda>m. m) r'"
proof -
  have "reachable (\<lambda>m. m) initial_router"
    unfolding initial_router_def by (rule reachable.start) (simp_all add: lit_def store_inv_new)
  then show ?thesis
    using gateway_safe [OF _ example_pebble, of initial_router 9 "EvDeliver (lit ''27'') (lit ''me'') 4 (lit ''id:7f'')" one_check True]
    by (auto simp: unix_nano_def lit_def)
qed

section \<open>REST\<close>

text \<open>Strings that came out of a JSON decoder are valid UTF-8.\<close>

definition decoded_request :: "SMSSubmitRequest \<Rightarrow> bool" where
  "decoded_request m \<longleftrightarrow> valid_utf8 (rq_To m) \<and> valid_utf8 (rq_From m) \<and> valid_utf8 (rq_Reference m)"

abbreviation rest_status :: "Time \<Rightarrow> gostring \<Rightarrow> SMSSubmitRequest \<Rightarrow> MessageStatus" where
  "rest_status now i m \<equiv> \<lparr>ms_GwMsgID = i, ms_To = rq_To m, ms_From = rq_From m, ms_Reference = rq_Reference m,
     ms_Status = lit ''accepted'', ms_DLRStatus = [], ms_SmscMsgID = [], ms_UpdatedAt = now\<rparr>"

lemma rest_record_status:
  assumes "pebble_ok (e_pebble E) contents" "r_store r = Some s"
  shows "\<exists>s'. r_store (rest_record E now i raw m r) = Some s' \<and>
    fmlookup (contents (db s')) (status_key i) = Some (marshal_MessageStatus (rest_status now i m))"
proof -
  have k: "status_key i \<noteq> callback_key i" by (simp add: status_key_def callback_key_def lit_def)
  show ?thesis
    using assms(2) k by (auto simp: rest_record_def Let_def SetMessageStatus_def SetJSON_def set_then_contents [OF assms(1)])
qed

lemma query_status:
  assumes "pebble_ok (e_pebble E) contents" "r_store r = Some s" "i \<noteq> []" "decoded_request m"
    "fmlookup (contents (db s)) (status_key i) = Some (marshal_MessageStatus (rest_status now i m))"
  shows "HandleHTTPQuery E i r = (200, RestObject (status_object i (rest_status now i m)))"
proof -
  have v: "json_string (rq_To m) = rq_To m" "json_string (rq_From m) = rq_From m" "json_string (rq_Reference m) = rq_Reference m"
    using assms(4) by (simp_all add: decoded_request_def json_string_valid)
  have a: "json_string (lit ''accepted'') = lit ''accepted''" by (rule json_string_ascii) (simp add: lit_def)
  show ?thesis
    using assms(3,5)
    by (simp add: HandleHTTPQuery_def assms(2) GetMessageStatus_def GetJSON_def pebble_get [OF assms(1)] nil_if_absent_def
        marshal_MessageStatus_def status_object_def v a)
qed



end
