(* ===== verification/Spec2Isabelle.thy ===== *)
theory Spec2Isabelle
  imports Pdu_Fields Gateway
begin

text \<open>
  A verification library for the SMS gateway in \<^verbatim>\<open>src/\<close>: a Go program that accepts SMPP sessions from messaging engines on
  its northbound side, forwards their messages to SMSCs on its southbound side, and brings delivery receipts and
  mobile-originated messages back. It has a REST interface for clients without SMPP and a Pebble database for messages,
  retries, logs and configuration.

  \<^bold>\<open>How the program is modelled.\<close> Byte slices and strings are lists of 8-bit words, integers keep their width where
  overflow matters. A function that can panic (index, slice, nil map) returns an \<open>option\<close>, \<open>None\<close> being the panic; Go errors
  are left values of a sum, or booleans where only nil-ness is read. Structs are records with the source's field names behind
  a short prefix, maps are finite maps. The order in which Go ranges over a map is a parameter. Pointers to connections
  are indices into a heap, because the table, the read loops and the router share them. Mutexes, atomics, metrics, logs
  and traces have no counterpart: every operation is one atomic step, and goroutines are sequences of such steps.

  \<^bold>\<open>What is outside.\<close> Pebble, bcrypt, the SMSCs, the HTTP peers of callbacks and the engines are parameters: a record \<open>pebble\<close>
  with the hypothesis \<open>pebble_ok\<close> (a get returns the last set; a scan is ordered and complete; a batch applies in order), hash
  and comparison functions with \<open>bcrypt_ok\<close>, and the record \<open>env\<close> of answers, about which nothing is assumed. Each hypothesis
  is met by a concrete instance (\<open>mem_pebble_ok\<close>, \<open>one_hash_ok\<close>), on which the witnesses run.

  \<^bold>\<open>The theories\<close>, in the order of the program's layers:

  \<^item> \<open>Go_Prelude\<close>: Go values (slices with bounds checks, big-endian integers, C strings, sorting) and shared lemmas.
  \<^item> \<open>Smpp_Constants\<close>, \<open>Tlv\<close>, \<open>Pdu\<close>, \<open>Pdu_Fields\<close>: the package \<^verbatim>\<open>smpp\<close> below the client: constants, TLVs, PDU header and body
    codecs, mandatory-field boundaries. Round trips, exact acceptance and absence of panics.
  \<^item> \<open>Utf8\<close>, \<open>Dlr\<close>: Go's UTF-8 decoding and what JSON does to strings; receipts of \<^verbatim>\<open>smpp/handler.go\<close> and the id translation of
    \<^verbatim>\<open>gateway/router.go\<close>.
  \<^item> \<open>Shard_Map\<close>, \<open>Pool_Manager\<close>, \<open>Route_Table\<close>: \<^verbatim>\<open>shardmap.go\<close>, \<^verbatim>\<open>pool_manager.go\<close>, \<^verbatim>\<open>route_table.go\<close>. The sharded map refines a map;
    a pool is healthy iff it has a bound connection; lookups follow longest prefix, priority, cost and rotation.
  \<^item> \<open>Database\<close>, \<open>Store\<close>, \<open>Store_Queue\<close>, \<open>Store_Typing\<close>, \<open>Store_Scan\<close>: \<^verbatim>\<open>store.go\<close> over the abstract database. Retry queues are
    complete and in time order, every namespace holds one type of record, the batching writer is durable, clean-up and
    queries are exact.
  \<^item> \<open>Route_Config\<close>, \<open>Conn_Config\<close>: the configuration stores. What was saved is loaded; passwords authenticate.
  \<^item> \<open>Sm_Body\<close>, \<open>Connection\<close>, \<open>Server\<close>: message bodies, the session with its read loop and bind decision, and the table of sessions
    with delivery, reconnection and timers. The locale \<open>session\<close> is the contract between a read loop and its handlers.
  \<^item> \<open>Router_State\<close>, \<open>Router\<close>: the state and the operations of \<^verbatim>\<open>router.go\<close> and \<^verbatim>\<open>callback.go\<close>. \<open>Router_Store\<close>, \<open>Router_Inv\<close> and
    \<open>Router_Safe\<close> prove that each returns and keeps the invariant \<open>router_ok\<close>; \<open>Router_Submit\<close> and \<open>Router_Receipts\<close> prove what it
    promises engines and SMSCs.
  \<^item> \<open>Rest_Api\<close>: \<^verbatim>\<open>rest_api.go\<close> over decoded requests.
  \<^item> \<open>Gateway\<close>: the handlers as \<^verbatim>\<open>server.go\<close> wires them, the interpretation of \<open>session\<close> on them, the events of the running process,
    its reachable states, and the theorem that no event makes it panic.

  \<^bold>\<open>Interfaces.\<close> Locales state the contracts a client relies on, and each is interpreted on the model's own definitions: sorting
  (\<open>slice_sorter\<close>), maps (\<open>kv_map\<close>), the loops and contracts of the two retry queues (\<open>drain_loop\<close>, \<open>retry_queue\<close>), the three
  configuration namespaces (\<open>config_store\<close>), and the read loop's handlers (\<open>session\<close>).

  \<^bold>\<open>Bounds.\<close> Loops are structural recursions or have termination proofs; no fuel is used. The safety theorems ask that addresses
  and bodies are below \<open>2 ^ 27\<close> bytes, message ids below \<open>2 ^ 20\<close> and account addresses below \<open>2 ^ 29\<close>, so that no PDU passes the
  32-bit length field even after JSON replaced invalid bytes by three-byte runes; times are Unix nanoseconds of 63 bits, the
  width of the keys of the retry queues; and a round-robin counter must be below \<open>2 ^ 63\<close>, past which the code's index is
  negative.

  \<^bold>\<open>Not modelled.\<close> The southbound client and its pool (\<^verbatim>\<open>smpp/client.go\<close>, \<^verbatim>\<open>smpp/pool.go\<close>) are seen through the \<^verbatim>\<open>Submitter\<close> interface:
  their behaviour is timing of goroutines and sockets. The admin interface (\<^verbatim>\<open>admin_api.go\<close>, \<^verbatim>\<open>admin_auth.go\<close>, \<^verbatim>\<open>admin_ui.go\<close>) and
  \<^verbatim>\<open>rest_auth.go\<close> are HTTP plumbing around operations modelled here and cryptography that is not under \<^verbatim>\<open>src/\<close>; \<^verbatim>\<open>config.go\<close>,
  \<^verbatim>\<open>metrics.go\<close>, \<^verbatim>\<open>tls.go\<close>, \<^verbatim>\<open>version.go\<close> and \<^verbatim>\<open>main.go\<close> read the environment and register collectors; \<^verbatim>\<open>proto\<close> is generated and
  \<^verbatim>\<open>mocksmsc\<close> is a test double.
\<close>

end
